(* ===== verification/Prelude.thy ===== *)
theory Prelude
  imports Complex_Main "HOL-Library.AList"
begin

text \<open>
  Generic material shared by every component: Python dictionaries as association lists,
  Python strings as lists of code points, the exact part of Python floats the program
  needs, points in time, and the collections of hints (\<open>pydict\<close>, \<open>pystr\<close>) the
  component proofs switch on.
\<close>

named_theorems pydict \<open>looking up, storing and removing in a dictionary\<close>
named_theorems pystr \<open>string literals and their lengths\<close>

section \<open>Dictionaries\<close>

text \<open>
  A Python \<open>dict\<close> keeps its keys in insertion order. It is an association list whose
  keys are distinct (\<open>dict_ok\<close>); \<open>d.get(k)\<close> is \<open>dict_get d k\<close>,
  \<open>d[k] = v\<close> is \<open>dict_set d k v\<close> (in place for a present key, at the end for a
  new one) and \<open>d.pop(k, None)\<close> leaves \<open>dict_del d k\<close>.
\<close>

type_synonym ('k, 'v) dict = "('k \<times> 'v) list"

abbreviation dict_get :: "('k, 'v) dict \<Rightarrow> 'k \<Rightarrow> 'v option" where
  "dict_get d k \<equiv> map_of d k"

abbreviation dict_set :: "('k, 'v) dict \<Rightarrow> 'k \<Rightarrow> 'v \<Rightarrow> ('k, 'v) dict" where
  "dict_set d k v \<equiv> AList.update k v d"

abbreviation dict_del :: "('k, 'v) dict \<Rightarrow> 'k \<Rightarrow> ('k, 'v) dict" where
  "dict_del d k \<equiv> AList.delete k d"

definition dict_ok :: "('k, 'v) dict \<Rightarrow> bool" where
  "dict_ok d \<longleftrightarrow> distinct (map fst d)"

definition dict_values :: "('k, 'v) dict \<Rightarrow> 'v list" where
  "dict_values d = map snd d"

lemma dict_get_set [pydict, simp]:
  "dict_get (dict_set d k v) k' = (if k' = k then Some v else dict_get d k')"
  by (simp add: update_conv')

lemma dict_get_del [pydict, simp]:
  "dict_get (dict_del d k) k' = (if k' = k then None else dict_get d k')"
  by (simp add: delete_conv')

lemma dict_ok_empty [simp]: "dict_ok []"
  by (simp add: dict_ok_def)

lemma dict_ok_Cons [simp]: "dict_ok ((k, v) # d) \<longleftrightarrow> dict_get d k = None \<and> dict_ok d"
  by (auto simp: dict_ok_def map_of_eq_None_iff)

lemma dict_ok_set [simp, intro]: "dict_ok d \<Longrightarrow> dict_ok (dict_set d k v)"
  by (simp add: dict_ok_def distinct_update)

lemma dict_ok_del [simp, intro]: "dict_ok d \<Longrightarrow> dict_ok (dict_del d k)"
  by (simp add: dict_ok_def distinct_delete)

lemma length_dict_set:
  "length (dict_set d k v) = (if dict_get d k = None then Suc (length d) else length d)"
  by (induction d) auto

lemma length_dict_set_le: "length (dict_set d k v) \<le> Suc (length d)"
  by (simp add: length_dict_set)

lemma length_dict_del_le [simp]: "length (dict_del d k) \<le> length d"
  by (simp add: AList.delete_eq)

lemma dict_del_bound [simp]:
  "int (length d) \<le> n \<Longrightarrow> int (length (dict_del d k)) \<le> n"
  using length_dict_del_le [of k d] by linarith

lemma dict_get_Some_in: "dict_get d k = Some v \<Longrightarrow> (k, v) \<in> set d"
  by (rule map_of_SomeD)

lemma dict_get_iff_in: "dict_ok d \<Longrightarrow> dict_get d k = Some v \<longleftrightarrow> (k, v) \<in> set d"
  by (simp add: dict_ok_def)

lemma dict_del_absent: "dict_get d k = None \<Longrightarrow> dict_del d k = d"
  by (induction d) (auto split: if_splits)

lemma length_dict_del:
  "dict_ok d \<Longrightarrow> length (dict_del d k) = (if dict_get d k = None then length d else length d - 1)"
proof (induction d)
  case Nil
  then show ?case by simp
next
  case (Cons p d)
  obtain k' v where p: "p = (k', v)" by (cases p)
  show ?case
  proof (cases "k' = k")
    case True
    with Cons.prems p show ?thesis by (simp add: dict_del_absent)
  next
    case False
    have "dict_get d k \<noteq> None \<Longrightarrow> length d > 0" by (cases d) auto
    with False Cons p show ?thesis by (auto split: if_splits)
  qed
qed

lemma dict_set_absent: "dict_get d k = None \<Longrightarrow> dict_set d k v = d @ [(k, v)]"
  by (induction d) (auto split: if_splits)

lemma dict_values_set_absent:
  "dict_get d k = None \<Longrightarrow> dict_values (dict_set d k v) = dict_values d @ [v]"
  by (simp add: dict_values_def dict_set_absent)

lemma in_dict_values: "dict_ok d \<Longrightarrow> v \<in> set (dict_values d) \<longleftrightarrow> (\<exists>k. dict_get d k = Some v)"
  by (force simp: dict_values_def dict_get_iff_in)

section \<open>Strings\<close>

text \<open>
  A Python \<open>str\<close> is a sequence of code points; \<open>lit ''abc''\<close> is the literal
  \<open>"abc"\<close>. \<open>len\<close> is \<open>length\<close>.
\<close>

type_synonym ustr = "nat list"

definition lit :: "string \<Rightarrow> ustr" where
  "lit s = map of_char s"

lemma lit_eq_iff [pystr, simp]: "lit s = lit t \<longleftrightarrow> s = t"
proof
  assume "lit s = lit t"
  then have "map (of_char :: char \<Rightarrow> nat) s = map of_char t" by (simp add: lit_def)
  moreover have "inj (of_char :: char \<Rightarrow> nat)" by (simp add: inj_on_def)
  ultimately show "s = t" by (metis inj_map_eq_map)
qed simp

lemma length_lit [pystr, simp]: "length (lit s) = length s"
  by (simp add: lit_def)

lemma lit_append [pystr]: "lit (s @ t) = lit s @ lit t"
  by (simp add: lit_def)

lemma lit_Nil_iff [pystr, simp]: "lit s = [] \<longleftrightarrow> s = []" "[] = lit s \<longleftrightarrow> s = []"
  by (simp_all add: lit_def)

section \<open>Floats\<close>

text \<open>
  The floats of the program are clock readings and configured durations. A finite float is
  its exact rational value; overflow of a literal to an infinity is kept, the rounding of
  the last bit is not. Comparisons follow IEEE: every comparison with NaN is false.
\<close>

datatype pyfloat = Fin rat | PInf | NInf | NaN

fun fl_le :: "pyfloat \<Rightarrow> pyfloat \<Rightarrow> bool" where
  "fl_le NaN _ = False"
| "fl_le _ NaN = False"
| "fl_le NInf _ = True"
| "fl_le _ PInf = True"
| "fl_le (Fin a) (Fin b) = (a \<le> b)"
| "fl_le (Fin _) NInf = False"
| "fl_le PInf _ = False"

fun fl_lt :: "pyfloat \<Rightarrow> pyfloat \<Rightarrow> bool" where
  "fl_lt NaN _ = False"
| "fl_lt _ NaN = False"
| "fl_lt NInf b = (b \<noteq> NInf)"
| "fl_lt (Fin a) (Fin b) = (a < b)"
| "fl_lt (Fin _) PInf = True"
| "fl_lt (Fin _) NInf = False"
| "fl_lt PInf _ = False"

section \<open>Points in time\<close>

text \<open>
  A \<open>datetime\<close> is its wall-clock reading in microseconds and its UTC offset in
  microseconds, \<open>None\<close> for a naive one (\<open>tzinfo is None\<close>). Python compares two
  aware values by the instant they denote, two naive ones by their wall clock, and raises
  \<open>TypeError\<close> (here \<open>None\<close>) for an aware and a naive one.
\<close>

datatype datetime = DT (wall: int) (tzoff: "int option")

definition utc :: "int \<Rightarrow> datetime" where
  "utc t = DT t (Some 0)"

fun dt_gt :: "datetime \<Rightarrow> datetime \<Rightarrow> bool option" where
  "dt_gt (DT a (Some x)) (DT b (Some y)) = Some (a - x > b - y)"
| "dt_gt (DT a None) (DT b None) = Some (a > b)"
| "dt_gt _ _ = None"

fun dt_add :: "datetime \<Rightarrow> int \<Rightarrow> datetime" where
  "dt_add (DT a x) us = DT (a + us) x"

fun is_aware :: "datetime \<Rightarrow> bool" where
  "is_aware (DT _ z) = (z \<noteq> None)"

lemma dt_gt_utc [simp]: "dt_gt (utc a) (utc b) = Some (a > b)"
  by (simp add: utc_def)

lemma dt_gt_None_iff: "dt_gt a b = None \<longleftrightarrow> is_aware a \<noteq> is_aware b"
  by (cases "(a, b)" rule: dt_gt.cases) auto

lemma dt_add_utc [simp]: "dt_add (utc a) us = utc (a + us)"
  by (simp add: utc_def)

text \<open>\<open>int(d.timestamp())\<close>: whole seconds since the epoch, truncated towards zero.\<close>

definition int_timestamp :: "datetime \<Rightarrow> int" where
  "int_timestamp d = (let us = wall d - (case tzoff d of None \<Rightarrow> 0 | Some x \<Rightarrow> x)
     in if us \<ge> 0 then us div 1000000 else - ((- us) div 1000000))"

text \<open>\<open>datetime.fromtimestamp(n, tz=UTC)\<close>\<close>

definition from_timestamp :: "int \<Rightarrow> datetime" where
  "from_timestamp n = utc (n * 1000000)"

end
