(* ===== verification/Logging.thy ===== *)
theory Logging
  imports Prelude
begin

text \<open>
  The structured log records both halves of the server emit: a dictionary of correlation
  fields under an event name. Emitted records are kept in the state, so that what reaches
  the log can be stated.
\<close>

datatype logval = LStr ustr | LBool bool | LInt int

type_synonym log_record = "(ustr, logval) dict"

text \<open>\<open>record.update(fields)\<close>\<close>

definition log_update :: "log_record \<Rightarrow> (string \<times> logval) list \<Rightarrow> log_record" where
  "log_update r fs = foldl (\<lambda>d (k, v). dict_set d (lit k) v) r fs"

end
