(* ===== verification/AuthErrors.thy ===== *)
theory AuthErrors
  imports Logging
begin

text \<open>
  \<open>auth/errors.py\<close>: the external codes and their fixed descriptions, and the
  \<open>AuthError\<close> exception with its internal reason; and the exceptions the authentication
  code can let through.
\<close>

datatype auth_error_code =
    AUTH_INVALID_CREDENTIALS
  | AUTH_REQUIRED
  | AUTH_TOKEN_INVALID
  | AUTH_TOKEN_EXPIRED
  | AUTH_SESSION_REVOKED
  | AUTH_RATE_LIMITED
  | AUTH_ACCOUNT_UNAVAILABLE
  | AUTH_REGISTRATION_REJECTED
  | AUTH_VALIDATION_FAILED

fun auth_error_value :: "auth_error_code \<Rightarrow> ustr" where
  "auth_error_value AUTH_INVALID_CREDENTIALS = lit ''AUTH_INVALID_CREDENTIALS''"
| "auth_error_value AUTH_REQUIRED = lit ''AUTH_REQUIRED''"
| "auth_error_value AUTH_TOKEN_INVALID = lit ''AUTH_TOKEN_INVALID''"
| "auth_error_value AUTH_TOKEN_EXPIRED = lit ''AUTH_TOKEN_EXPIRED''"
| "auth_error_value AUTH_SESSION_REVOKED = lit ''AUTH_SESSION_REVOKED''"
| "auth_error_value AUTH_RATE_LIMITED = lit ''AUTH_RATE_LIMITED''"
| "auth_error_value AUTH_ACCOUNT_UNAVAILABLE = lit ''AUTH_ACCOUNT_UNAVAILABLE''"
| "auth_error_value AUTH_REGISTRATION_REJECTED = lit ''AUTH_REGISTRATION_REJECTED''"
| "auth_error_value AUTH_VALIDATION_FAILED = lit ''AUTH_VALIDATION_FAILED''"

fun describe_auth :: "auth_error_code \<Rightarrow> ustr" where
  "describe_auth AUTH_INVALID_CREDENTIALS = lit ''Invalid credentials.''"
| "describe_auth AUTH_REQUIRED = lit ''Authentication required.''"
| "describe_auth AUTH_TOKEN_INVALID = lit ''Authentication token is not valid.''"
| "describe_auth AUTH_TOKEN_EXPIRED = lit ''Authentication token has expired.''"
| "describe_auth AUTH_SESSION_REVOKED = lit ''Session is no longer valid.''"
| "describe_auth AUTH_RATE_LIMITED = lit ''Too many attempts. Try again later.''"
| "describe_auth AUTH_ACCOUNT_UNAVAILABLE = lit ''Account is not available.''"
| "describe_auth AUTH_REGISTRATION_REJECTED = lit ''Registration could not be completed.''"
| "describe_auth AUTH_VALIDATION_FAILED = lit ''Request failed validation.''"

record auth_error =
  err_code :: auth_error_code
  err_status :: int
  err_reason :: "ustr option"

text \<open>
  The exceptions: an \<open>AuthError\<close>, the uniqueness violation the repository raises, and
  what the Python runtime and the database layer raise when nobody catches it.
\<close>

datatype exn =
    AuthError auth_error
  | UsernameTakenError
  | IntegrityError
  | MultipleResultsFound
  | TypeError
  | UnicodeEncodeError
  | KeyError
  | ValueError

text \<open>\<open>AuthError(code, internal_reason=...)\<close> with its default status, and with one given.\<close>

definition auth_raise :: "auth_error_code \<Rightarrow> ustr \<Rightarrow> exn" where
  "auth_raise code reason = AuthError \<lparr>err_code = code, err_status = 401, err_reason = Some reason\<rparr>"

definition auth_raise_status :: "auth_error_code \<Rightarrow> int \<Rightarrow> ustr \<Rightarrow> exn" where
  "auth_raise_status code st reason =
     AuthError \<lparr>err_code = code, err_status = st, err_reason = Some reason\<rparr>"

text \<open>The HTTP response the application renders for an \<open>AuthError\<close>: status, code, detail.\<close>

definition auth_error_handler :: "auth_error \<Rightarrow> int \<times> ustr \<times> ustr" where
  "auth_error_handler e = (err_status e, auth_error_value (err_code e), describe_auth (err_code e))"

text \<open>The log line of the authentication code.\<close>

definition auth_log :: "string \<Rightarrow> (string \<times> logval) list \<Rightarrow> log_record" where
  "auth_log event fs = log_update [(lit ''event'', LStr (lit event))] fs"

lemma auth_error_value_inj [simp]: "auth_error_value a = auth_error_value b \<longleftrightarrow> a = b"
  by (cases a; cases b) simp_all

end
