(* ===== verification/Repository.thy ===== *)
theory Repository
  imports Prelude AuthErrors
begin

text \<open>
  \<open>auth/models.py\<close> and \<open>auth/repository.py\<close>: the two tables and the queries on them.
  A table is the list of its rows in insertion order; the database enforces the primary
  keys and the uniqueness of \<open>username_normalized\<close>. Writing and reading back a date goes
  through the database driver, the parameter \<open>load\<close>: what a column holds after the value
  was stored and selected again. A query selects by bound parameters only, so it is a filter.
\<close>

section \<open>Rows\<close>

datatype account_status = ACTIVE | DISABLED

fun account_status_value :: "account_status \<Rightarrow> ustr" where
  "account_status_value ACTIVE = lit ''active''"
| "account_status_value DISABLED = lit ''disabled''"

record user_row =
  u_id :: ustr
  u_username :: ustr
  u_normalized :: ustr
  u_password_hash :: ustr
  u_status :: ustr
  u_created_at :: datetime
  u_updated_at :: datetime

record session_row =
  s_id :: ustr
  s_user_id :: ustr
  s_refresh_hash :: ustr
  s_created_at :: datetime
  s_expires_at :: datetime
  s_revoked_at :: "datetime option"

record database =
  user_table :: "user_row list"
  session_table :: "session_row list"

definition is_active :: "user_row \<Rightarrow> bool" where
  "is_active u \<longleftrightarrow> u_status u = account_status_value ACTIVE"

text \<open>The comparison of a naive and an aware date is the \<open>TypeError\<close>.\<close>

definition is_usable :: "session_row \<Rightarrow> datetime \<Rightarrow> exn + bool" where
  "is_usable s now =
     (if s_revoked_at s \<noteq> None then Inr False
      else (case dt_gt (s_expires_at s) now of None \<Rightarrow> Inl TypeError | Some b \<Rightarrow> Inr b))"

definition load_user :: "(datetime \<Rightarrow> datetime) \<Rightarrow> user_row \<Rightarrow> user_row" where
  "load_user load u = u\<lparr>u_created_at := load (u_created_at u), u_updated_at := load (u_updated_at u)\<rparr>"

definition load_session :: "(datetime \<Rightarrow> datetime) \<Rightarrow> session_row \<Rightarrow> session_row" where
  "load_session load s = s\<lparr>s_created_at := load (s_created_at s), s_expires_at := load (s_expires_at s),
     s_revoked_at := map_option load (s_revoked_at s)\<rparr>"

section \<open>Queries\<close>

definition scalar_one_or_none :: "'r list \<Rightarrow> exn + 'r option" where
  "scalar_one_or_none rows =
     (case rows of [] \<Rightarrow> Inr None | [r] \<Rightarrow> Inr (Some r) | _ \<Rightarrow> Inl MultipleResultsFound)"

definition user_create ::
  "database \<Rightarrow> ustr \<Rightarrow> ustr \<Rightarrow> ustr \<Rightarrow> ustr \<Rightarrow> datetime \<Rightarrow> database \<times> (exn + user_row)" where
  "user_create db uid username normalized password_hash now =
     (if list_ex (\<lambda>u. u_id u = uid \<or> u_normalized u = normalized) (user_table db)
      then (db, Inl UsernameTakenError)
      else (let u = \<lparr>u_id = uid, u_username = username, u_normalized = normalized,
                     u_password_hash = password_hash, u_status = account_status_value ACTIVE,
                     u_created_at = now, u_updated_at = now\<rparr>
            in (db\<lparr>user_table := user_table db @ [u]\<rparr>, Inr u)))"

definition get_by_id :: "(datetime \<Rightarrow> datetime) \<Rightarrow> database \<Rightarrow> ustr \<Rightarrow> exn + user_row option" where
  "get_by_id load db uid =
     scalar_one_or_none (map (load_user load) (filter (\<lambda>u. u_id u = uid) (user_table db)))"

definition get_by_normalized_username ::
  "(datetime \<Rightarrow> datetime) \<Rightarrow> database \<Rightarrow> ustr \<Rightarrow> exn + user_row option" where
  "get_by_normalized_username load db normalized =
     scalar_one_or_none (map (load_user load) (filter (\<lambda>u. u_normalized u = normalized) (user_table db)))"

text \<open>Deleting a user deletes the user's sessions (\<open>cascade="all, delete-orphan"\<close>).\<close>

definition user_delete :: "database \<Rightarrow> ustr \<Rightarrow> database" where
  "user_delete db uid = \<lparr>user_table = filter (\<lambda>u. u_id u \<noteq> uid) (user_table db),
     session_table = filter (\<lambda>s. s_user_id s \<noteq> uid) (session_table db)\<rparr>"

text \<open>Writing the changed columns of one user row.\<close>

definition user_update :: "database \<Rightarrow> ustr \<Rightarrow> (user_row \<Rightarrow> user_row) \<Rightarrow> database" where
  "user_update db uid f =
     db\<lparr>user_table := map (\<lambda>u. if u_id u = uid then f u else u) (user_table db)\<rparr>"

definition session_create ::
  "database \<Rightarrow> ustr \<Rightarrow> ustr \<Rightarrow> ustr \<Rightarrow> datetime \<Rightarrow> datetime \<Rightarrow> database \<times> (exn + session_row)" where
  "session_create db sid uid refresh_hash now expires =
     (if list_ex (\<lambda>s. s_id s = sid) (session_table db) then (db, Inl IntegrityError)
      else (let s = \<lparr>s_id = sid, s_user_id = uid, s_refresh_hash = refresh_hash, s_created_at = now,
                     s_expires_at = expires, s_revoked_at = None\<rparr>
            in (db\<lparr>session_table := session_table db @ [s]\<rparr>, Inr s)))"

definition session_get :: "(datetime \<Rightarrow> datetime) \<Rightarrow> database \<Rightarrow> ustr \<Rightarrow> exn + session_row option" where
  "session_get load db sid =
     scalar_one_or_none (map (load_session load) (filter (\<lambda>s. s_id s = sid) (session_table db)))"

definition get_by_refresh_hash ::
  "(datetime \<Rightarrow> datetime) \<Rightarrow> database \<Rightarrow> ustr \<Rightarrow> exn + session_row option" where
  "get_by_refresh_hash load db h =
     scalar_one_or_none (map (load_session load) (filter (\<lambda>s. s_refresh_hash s = h) (session_table db)))"

definition session_update :: "database \<Rightarrow> ustr \<Rightarrow> (session_row \<Rightarrow> session_row) \<Rightarrow> database" where
  "session_update db sid f =
     db\<lparr>session_table := map (\<lambda>s. if s_id s = sid then f s else s) (session_table db)\<rparr>"

definition revoke :: "database \<Rightarrow> session_row \<Rightarrow> datetime \<Rightarrow> database" where
  "revoke db s now =
     (if s_revoked_at s = None then session_update db (s_id s) (\<lambda>r. r\<lparr>s_revoked_at := Some now\<rparr>)
      else db)"

definition revoke_all_for_user :: "database \<Rightarrow> ustr \<Rightarrow> datetime \<Rightarrow> database \<times> int" where
  "revoke_all_for_user db uid now =
     (let hit = (\<lambda>s. s_user_id s = uid \<and> s_revoked_at s = None)
      in (db\<lparr>session_table :=
             map (\<lambda>s. if hit s then s\<lparr>s_revoked_at := Some now\<rparr> else s) (session_table db)\<rparr>,
          int (length (filter hit (session_table db)))))"

definition rotate_refresh_token :: "database \<Rightarrow> session_row \<Rightarrow> ustr \<Rightarrow> datetime \<Rightarrow> database" where
  "rotate_refresh_token db s h expires =
     session_update db (s_id s) (\<lambda>r. r\<lparr>s_refresh_hash := h, s_expires_at := expires\<rparr>)"

section \<open>The integrity of the tables\<close>

text \<open>
  Ids and normalised names are unique, and every session belongs to a user that exists.
\<close>

definition db_ok :: "database \<Rightarrow> bool" where
  "db_ok db \<longleftrightarrow> distinct (map u_id (user_table db)) \<and> distinct (map u_normalized (user_table db)) \<and>
     distinct (map s_id (session_table db)) \<and>
     (\<forall>s \<in> set (session_table db). s_user_id s \<in> u_id ` set (user_table db))"

definition empty_db :: database where
  "empty_db = \<lparr>user_table = [], session_table = []\<rparr>"

lemma db_ok_empty: "db_ok empty_db"
  by (simp add: db_ok_def empty_db_def)

text \<open>The row with a key, where the key is unique.\<close>

definition row_at :: "('r \<Rightarrow> 'k) \<Rightarrow> 'r list \<Rightarrow> 'k \<Rightarrow> 'r option" where
  "row_at f rows k = List.find (\<lambda>r. f r = k) rows"

abbreviation user_at :: "database \<Rightarrow> ustr \<Rightarrow> user_row option" where
  "user_at db uid \<equiv> row_at u_id (user_table db) uid"

abbreviation user_named :: "database \<Rightarrow> ustr \<Rightarrow> user_row option" where
  "user_named db n \<equiv> row_at u_normalized (user_table db) n"

abbreviation session_at :: "database \<Rightarrow> ustr \<Rightarrow> session_row option" where
  "session_at db sid \<equiv> row_at s_id (session_table db) sid"

lemma row_at_None: "row_at f rows k = None \<longleftrightarrow> (\<forall>r \<in> set rows. f r \<noteq> k)"
  by (auto simp: row_at_def find_None_iff)

lemma row_at_Some_in: "row_at f rows k = Some r \<Longrightarrow> r \<in> set rows \<and> f r = k"
  by (auto simp: row_at_def find_Some_iff)

lemma row_at_in:
  assumes "distinct (map f rows)" and "r \<in> set rows"
  shows "row_at f rows (f r) = Some r"
proof (cases "row_at f rows (f r)")
  case None
  then show ?thesis using assms(2) by (auto simp: row_at_None)
next
  case (Some r')
  then have "r' \<in> set rows" "f r' = f r" by (auto dest: row_at_Some_in)
  with assms Some show ?thesis by (auto simp: distinct_map dest: inj_onD)
qed

lemma row_at_map:
  assumes "\<And>r. r \<in> set rows \<Longrightarrow> f (g r) = f r"
  shows "row_at f (map g rows) k = map_option g (row_at f rows k)"
  using assms by (induction rows) (auto simp: row_at_def)

lemma row_at_append:
  "row_at f (rows @ [r]) k =
     (case row_at f rows k of Some x \<Rightarrow> Some x | None \<Rightarrow> if f r = k then Some r else None)"
  by (induction rows) (auto simp: row_at_def)

lemma row_at_filter:
  assumes "distinct (map f rows)"
  shows "row_at f (filter P rows) k = (case row_at f rows k of Some r \<Rightarrow> if P r then Some r else None | None \<Rightarrow> None)"
  using assms
proof (induction rows)
  case Nil
  then show ?case by (simp add: row_at_def)
next
  case (Cons r rows)
  have "row_at f (filter P rows) (f r) = None"
    using Cons.prems by (simp add: row_at_None) (metis imageI)
  with Cons show ?case by (auto simp: row_at_def)
qed

lemma scalar_unique:
  fixes f :: "'r \<Rightarrow> 'k" and rows :: "'r list"
  assumes "distinct (map f rows)"
  shows "scalar_one_or_none (map g (filter (\<lambda>r. f r = k) rows)) = Inr (map_option g (row_at f rows k))"
proof -
  have none: "filter (\<lambda>r. f r = f a) rows = []" if "f a \<notin> f ` set rows" for a and rows :: "'r list"
    using that by (simp add: filter_empty_conv) (metis imageI)
  from assms show ?thesis
    by (induction rows) (auto simp: row_at_def scalar_one_or_none_def none)
qed

lemma db_get [simp]:
  assumes "db_ok db"
  shows "get_by_id load db uid = Inr (map_option (load_user load) (user_at db uid))"
    and "get_by_normalized_username load db n = Inr (map_option (load_user load) (user_named db n))"
    and "session_get load db sid = Inr (map_option (load_session load) (session_at db sid))"
  using assms
  by (simp_all add: db_ok_def get_by_id_def get_by_normalized_username_def session_get_def scalar_unique)

text \<open>Every operation keeps the tables consistent.\<close>

lemma user_create_ok:
  "db_ok db \<Longrightarrow> db_ok (fst (user_create db uid name n h now))"
  by (auto simp: user_create_def db_ok_def Let_def list_ex_iff)

lemma user_delete_ok:
  assumes "db_ok db"
  shows "db_ok (user_delete db uid)"
  using assms by (auto simp: user_delete_def db_ok_def distinct_map inj_on_def)

lemma user_update_ok:
  assumes "db_ok db" and f: "\<And>u. u_id (f u) = u_id u" "\<And>u. u_normalized (f u) = u_normalized u"
  shows "db_ok (user_update db uid f)"
proof -
  have "map u_id (map (\<lambda>u. if u_id u = uid then f u else u) us) = map u_id us"
    "map u_normalized (map (\<lambda>u. if u_id u = uid then f u else u) us) = map u_normalized us" for us
    using f by (induction us) auto
  then have "u_id ` set (map (\<lambda>u. if u_id u = uid then f u else u) us) = u_id ` set us"
    "distinct (map u_id (map (\<lambda>u. if u_id u = uid then f u else u) us)) = distinct (map u_id us)"
    "distinct (map u_normalized (map (\<lambda>u. if u_id u = uid then f u else u) us)) = distinct (map u_normalized us)"
    for us by (metis list.set_map, metis, metis)
  with assms(1) show ?thesis by (simp add: db_ok_def user_update_def del: map_map set_map)
qed

lemma session_create_ok:
  assumes "db_ok db" and "user_at db uid \<noteq> None"
  shows "db_ok (fst (session_create db sid uid h now ex))"
  using assms by (auto simp: session_create_def db_ok_def Let_def list_ex_iff dest: row_at_Some_in)

text \<open>A rewriting of session rows that keeps each one's id and owner.\<close>

lemma sessions_map_ok:
  assumes "db_ok db" and g: "\<And>s. s_id (g s) = s_id s" "\<And>s. s_user_id (g s) = s_user_id s"
  shows "db_ok (db\<lparr>session_table := map g (session_table db)\<rparr>)"
  using assms by (simp add: db_ok_def comp_def)

lemma session_update_ok:
  assumes "db_ok db" and "\<And>s. s_id (f s) = s_id s" "\<And>s. s_user_id (f s) = s_user_id s"
  shows "db_ok (session_update db sid f)"
  unfolding session_update_def by (rule sessions_map_ok) (use assms in auto)

lemma revoke_ok: "db_ok db \<Longrightarrow> db_ok (revoke db s now)"
  by (simp add: revoke_def session_update_ok)

lemma revoke_all_ok: "db_ok db \<Longrightarrow> db_ok (fst (revoke_all_for_user db uid now))"
  by (simp add: revoke_all_for_user_def Let_def sessions_map_ok)

lemma rotate_ok: "db_ok db \<Longrightarrow> db_ok (rotate_refresh_token db s h ex)"
  by (simp add: rotate_refresh_token_def session_update_ok)

lemmas repository_ok = user_create_ok user_delete_ok user_update_ok session_create_ok revoke_ok
  revoke_all_ok rotate_ok

text \<open>What each operation leaves under a key.\<close>

lemma session_at_create:
  "session_at (fst (session_create db sid uid h now ex)) k =
     (case session_at db k of Some s \<Rightarrow> Some s
      | None \<Rightarrow> if k = sid then Some \<lparr>s_id = sid, s_user_id = uid, s_refresh_hash = h,
          s_created_at = now, s_expires_at = ex, s_revoked_at = None\<rparr> else None)"
  by (auto simp: session_create_def Let_def row_at_append list_ex_iff row_at_None split: option.splits
      dest: row_at_Some_in)

lemma session_at_update:
  assumes "\<And>s. s_id (f s) = s_id s"
  shows "session_at (session_update db sid f) k =
    (if k = sid then map_option f (session_at db k) else session_at db k)"
proof -
  have "session_at (session_update db sid f) k =
      map_option (\<lambda>s. if s_id s = sid then f s else s) (session_at db k)"
    using assms by (simp add: session_update_def row_at_map)
  then show ?thesis by (cases "session_at db k") (auto dest: row_at_Some_in)
qed

lemma session_at_revoke_all:
  "session_at (fst (revoke_all_for_user db uid now)) k =
     map_option (\<lambda>s. if s_user_id s = uid \<and> s_revoked_at s = None then s\<lparr>s_revoked_at := Some now\<rparr> else s)
       (session_at db k)"
  by (simp add: revoke_all_for_user_def Let_def row_at_map)

lemma session_at_delete:
  assumes "db_ok db"
  shows "session_at (user_delete db uid) k = (case session_at db k of
     Some s \<Rightarrow> if s_user_id s = uid then None else Some s | None \<Rightarrow> None)"
  using assms by (simp add: user_delete_def db_ok_def row_at_filter split: option.split)

lemma user_at_delete:
  assumes "db_ok db"
  shows "user_at (user_delete db uid) k = (if k = uid then None else user_at db k)"
  using assms
  by (auto simp: user_delete_def db_ok_def row_at_filter split: option.split dest: row_at_Some_in)

lemma user_at_update:
  assumes "\<And>u. u_id (f u) = u_id u"
  shows "user_at (user_update db uid f) k =
    (if k = uid then map_option f (user_at db k) else user_at db k)"
proof -
  have "user_at (user_update db uid f) k =
      map_option (\<lambda>u. if u_id u = uid then f u else u) (user_at db k)"
    using assms by (simp add: user_update_def row_at_map)
  then show ?thesis by (cases "user_at db k") (auto dest: row_at_Some_in)
qed

text \<open>The tables an operation does not write.\<close>

lemma tables_kept [simp]:
  "user_table (session_update db sid f) = user_table db"
  "user_table (revoke db s now) = user_table db"
  "user_table (fst (revoke_all_for_user db uid now)) = user_table db"
  "user_table (rotate_refresh_token db s h ex) = user_table db"
  "user_table (fst (session_create db sid uid h now ex)) = user_table db"
  "session_table (user_update db uid g) = session_table db"
  "session_table (fst (user_create db uid name n h now)) = session_table db"
  by (simp_all add: session_update_def revoke_def revoke_all_for_user_def rotate_refresh_token_def
      session_create_def user_update_def user_create_def Let_def)

end
