(* ===== verification/PyText.thy ===== *)
theory PyText
  imports Prelude
begin

text \<open>
  The string built-ins the program uses: \<open>strip\<close>, \<open>split\<close>, \<open>partition\<close>,
  \<open>encode("utf-8")\<close>, \<open>int(...)\<close>, \<open>float(...)\<close> and hexadecimal rendering. The
  Unicode tables behind them (which code points are white space or decimal digits, NFKC,
  case folding) are a parameter, the record \<open>unicode_db\<close>; \<open>ascii_unicode\<close> is the
  instance that is right on ASCII text and is used to evaluate.
\<close>

section \<open>The Unicode database\<close>

record unicode_db =
  is_space :: "nat \<Rightarrow> bool"
  decimal :: "nat \<Rightarrow> nat option"
  nfkc :: "ustr \<Rightarrow> ustr"
  casefold :: "ustr \<Rightarrow> ustr"
  lower :: "ustr \<Rightarrow> ustr"

definition ascii_space :: "nat \<Rightarrow> bool" where
  "ascii_space c \<longleftrightarrow> 9 \<le> c \<and> c \<le> 13 \<or> 28 \<le> c \<and> c \<le> 32"

definition ascii_decimal :: "nat \<Rightarrow> nat option" where
  "ascii_decimal c = (if 48 \<le> c \<and> c \<le> 57 then Some (c - 48) else None)"

definition ascii_lower :: "nat \<Rightarrow> nat" where
  "ascii_lower c = (if 65 \<le> c \<and> c \<le> 90 then c + 32 else c)"

definition ascii :: "ustr \<Rightarrow> bool" where
  "ascii s \<longleftrightarrow> (\<forall>c \<in> set s. c < 128)"

text \<open>
  What Unicode documents for ASCII text: NFKC leaves it alone, folding and lowering act on
  the letters A to Z only, and white space and decimal digits are the familiar ones.
\<close>

definition unicode_ok :: "unicode_db \<Rightarrow> bool" where
  "unicode_ok U \<longleftrightarrow>
     (\<forall>c < 128. is_space U c = ascii_space c \<and> decimal U c = ascii_decimal c) \<and>
     (\<forall>s. ascii s \<longrightarrow> nfkc U s = s \<and> casefold U s = map ascii_lower s
        \<and> lower U s = map ascii_lower s)"

definition ascii_unicode :: unicode_db where
  "ascii_unicode = \<lparr>is_space = ascii_space, decimal = ascii_decimal, nfkc = (\<lambda>s. s),
     casefold = map ascii_lower, lower = map ascii_lower\<rparr>"

lemma unicode_ok_ascii [simp]: "unicode_ok ascii_unicode"
  by (simp add: unicode_ok_def ascii_unicode_def)

lemma ascii_lit_of_small: "\<forall>c \<in> set s. (of_char c :: nat) < 128 \<Longrightarrow> ascii (lit s)"
  by (simp add: ascii_def lit_def)

section \<open>Splitting and stripping\<close>

definition py_lstrip :: "(nat \<Rightarrow> bool) \<Rightarrow> ustr \<Rightarrow> ustr" where
  "py_lstrip p s = dropWhile p s"

definition py_strip :: "(nat \<Rightarrow> bool) \<Rightarrow> ustr \<Rightarrow> ustr" where
  "py_strip p s = rev (dropWhile p (rev (dropWhile p s)))"

text \<open>\<open>s.split(c)\<close> for a one-character separator\<close>

fun py_split :: "nat \<Rightarrow> ustr \<Rightarrow> ustr list" where
  "py_split c [] = [[]]"
| "py_split c (x # xs) =
     (if x = c then [] # py_split c xs
      else case py_split c xs of [] \<Rightarrow> [[x]] | w # ws \<Rightarrow> (x # w) # ws)"

text \<open>\<open>s.partition(c)\<close>, without its middle component\<close>

definition py_partition :: "nat \<Rightarrow> ustr \<Rightarrow> ustr \<times> ustr" where
  "py_partition c s = (takeWhile (\<lambda>x. x \<noteq> c) s, drop 1 (dropWhile (\<lambda>x. x \<noteq> c) s))"

fun starts_with :: "ustr \<Rightarrow> ustr \<Rightarrow> bool" where
  "starts_with [] s = True"
| "starts_with (p # ps) [] = False"
| "starts_with (p # ps) (x # xs) = (p = x \<and> starts_with ps xs)"

definition remove_prefix :: "ustr \<Rightarrow> ustr \<Rightarrow> ustr option" where
  "remove_prefix p s = (if starts_with p s then Some (drop (length p) s) else None)"

text \<open>\<open>s.replace(p, "")\<close> for a non-empty \<open>p\<close>\<close>

function py_delete :: "ustr \<Rightarrow> ustr \<Rightarrow> ustr" where
  "py_delete p s = (case s of [] \<Rightarrow> []
     | x # xs \<Rightarrow> if p \<noteq> [] \<and> starts_with p s then py_delete p (drop (length p) s)
                else x # py_delete p xs)"
  by pat_completeness auto
termination
  by (relation "measure (\<lambda>(p, s). length s)") (auto simp: Suc_le_eq)

declare py_delete.simps [simp del]

lemma set_dropWhile_subset: "set (dropWhile p s) \<subseteq> set s"
  by (auto dest: set_dropWhileD)

lemma dropWhile_id: "\<forall>c \<in> set s. \<not> p c \<Longrightarrow> dropWhile p s = s"
  by (cases s) auto

lemma set_py_strip: "set (py_strip p s) \<subseteq> set s"
  using set_dropWhile_subset [of p s] set_dropWhile_subset [of p "rev (dropWhile p s)"]
  by (auto simp: py_strip_def)

lemma length_py_strip: "length (py_strip p s) \<le> length s"
  by (metis py_strip_def length_dropWhile_le length_rev order_trans)

lemma py_strip_id: "\<forall>c \<in> set s. \<not> p c \<Longrightarrow> py_strip p s = s"
  using dropWhile_id [of s p] dropWhile_id [of "rev s" p] by (simp add: py_strip_def)

lemma py_strip_empty_iff: "py_strip p s = [] \<longleftrightarrow> (\<forall>c \<in> set s. p c)"
proof -
  have "py_strip p s = [] \<longleftrightarrow> (\<forall>c \<in> set (dropWhile p s). p c)"
    by (simp add: py_strip_def dropWhile_eq_Nil_conv)
  also have "\<dots> \<longleftrightarrow> dropWhile p s = []"
    by (metis hd_dropWhile list.set_sel(1) list.set(1) empty_iff)
  finally show ?thesis by (simp add: dropWhile_eq_Nil_conv)
qed

lemma py_split_nonempty [simp]: "py_split c s \<noteq> []"
  by (induction s) (auto split: list.splits)

section \<open>UTF-8\<close>

text \<open>
  \<open>s.encode("utf-8")\<close>: \<open>None\<close> stands for the \<open>UnicodeEncodeError\<close> a lone
  surrogate raises.
\<close>

definition is_surrogate :: "nat \<Rightarrow> bool" where
  "is_surrogate c \<longleftrightarrow> 0xD800 \<le> c \<and> c \<le> 0xDFFF"

definition utf8_char :: "nat \<Rightarrow> nat list option" where
  "utf8_char c =
     (if c < 0x80 then Some [c]
      else if c < 0x800 then Some [0xC0 + c div 64, 0x80 + c mod 64]
      else if is_surrogate c then None
      else if c < 0x10000 then Some [0xE0 + c div 4096, 0x80 + c div 64 mod 64, 0x80 + c mod 64]
      else Some [0xF0 + c div 262144, 0x80 + c div 4096 mod 64, 0x80 + c div 64 mod 64,
                 0x80 + c mod 64])"

fun utf8_encode :: "ustr \<Rightarrow> nat list option" where
  "utf8_encode [] = Some []"
| "utf8_encode (c # cs) = (case utf8_char c of None \<Rightarrow> None
     | Some b \<Rightarrow> map_option ((@) b) (utf8_encode cs))"

lemma utf8_char_length: "utf8_char c = Some b \<Longrightarrow> 1 \<le> length b \<and> length b \<le> 4"
  by (auto simp: utf8_char_def split: if_splits)

lemma utf8_encode_None_iff: "utf8_encode s = None \<longleftrightarrow> (\<exists>c \<in> set s. is_surrogate c)"
  by (induction s) (auto simp: utf8_char_def is_surrogate_def split: option.splits)

lemma utf8_encode_length:
  "utf8_encode s = Some b \<Longrightarrow> length s \<le> length b \<and> length b \<le> 4 * length s"
proof (induction s arbitrary: b)
  case Nil
  then show ?case by simp
next
  case (Cons c s)
  from Cons.prems obtain b1 b2 where b: "utf8_char c = Some b1" "utf8_encode s = Some b2"
    "b = b1 @ b2" by (auto split: option.splits)
  from Cons.IH [OF b(2)] utf8_char_length [OF b(1)] b(3) show ?case by auto
qed

lemma utf8_encode_ascii: "ascii s \<Longrightarrow> utf8_encode s = Some s"
  by (induction s) (auto simp: ascii_def utf8_char_def)

section \<open>Numbers in text\<close>

text \<open>
  Decimal digits with single underscores between them, as \<open>int()\<close> and \<open>float()\<close>
  accept; the digits seen so far are accumulated in reverse.
\<close>

fun us_digits_aux :: "(nat \<Rightarrow> nat option) \<Rightarrow> bool \<Rightarrow> nat list \<Rightarrow> ustr \<Rightarrow> nat list option" where
  "us_digits_aux dv digit_before acc [] = (if digit_before then Some (rev acc) else None)"
| "us_digits_aux dv digit_before acc (c # cs) =
     (if c = 95 then (if digit_before then us_digits_aux dv False acc cs else None)
      else case dv c of None \<Rightarrow> None | Some d \<Rightarrow> us_digits_aux dv True (d # acc) cs)"

definition us_digits :: "(nat \<Rightarrow> nat option) \<Rightarrow> ustr \<Rightarrow> nat list option" where
  "us_digits dv s = us_digits_aux dv False [] s"

definition digits_value :: "int \<Rightarrow> nat list \<Rightarrow> int" where
  "digits_value b ds = foldl (\<lambda>v d. v * b + int d) 0 ds"

definition split_sign :: "ustr \<Rightarrow> int \<times> ustr" where
  "split_sign s = (case s of
     c # cs \<Rightarrow> if c = 45 then (-1, cs) else if c = 43 then (1, cs) else (1, s)
   | [] \<Rightarrow> (1, s))"

text \<open>The interpreter refuses to convert more than 4300 decimal digits.\<close>

definition max_str_digits :: nat where
  "max_str_digits = 4300"

text \<open>\<open>int(s)\<close>; \<open>None\<close> is the \<open>ValueError\<close>.\<close>

definition py_int :: "unicode_db \<Rightarrow> ustr \<Rightarrow> int option" where
  "py_int U s =
     (let (sg, r) = split_sign (py_strip (is_space U) s)
      in case us_digits (decimal U) r of
           None \<Rightarrow> None
         | Some ds \<Rightarrow> if length ds > max_str_digits then None
                     else Some (sg * digits_value 10 ds))"

text \<open>The value of a float literal: overflow goes to an infinity.\<close>

definition fl_of_rat :: "rat \<Rightarrow> pyfloat" where
  "fl_of_rat r = (if r \<ge> of_int (2 ^ 1024 - 2 ^ 970) then PInf
                  else if r \<le> - of_int (2 ^ 1024 - 2 ^ 970) then NInf else Fin r)"

definition scale10 :: "int \<Rightarrow> int \<Rightarrow> rat" where
  "scale10 m e = (if e \<ge> 0 then of_int m * 10 ^ nat e else of_int m / 10 ^ nat (- e))"

definition py_float_finite :: "unicode_db \<Rightarrow> int \<Rightarrow> ustr \<Rightarrow> pyfloat option" where
  "py_float_finite U sg s =
     (let is_e = (\<lambda>c. c = 101 \<or> c = 69);
          mant = takeWhile (\<lambda>c. \<not> is_e c) s;
          rest = dropWhile (\<lambda>c. \<not> is_e c) s;
          ip = takeWhile (\<lambda>c. c \<noteq> 46) mant;
          fp = dropWhile (\<lambda>c. c \<noteq> 46) mant;
          digs = (\<lambda>t. if t = [] then Some [] else us_digits (decimal U) t);
          ex = (if rest = [] then Some 0
                else let (es, er) = split_sign (tl rest) in
                     map_option (\<lambda>ds. es * digits_value 10 ds) (us_digits (decimal U) er))
      in case (digs ip, digs (drop 1 fp), ex) of
           (Some di, Some df, Some e) \<Rightarrow>
             if di = [] \<and> df = [] then None
             else Some (fl_of_rat (scale10 (sg * digits_value 10 (di @ df)) (e - int (length df))))
         | _ \<Rightarrow> None)"

text \<open>\<open>float(s)\<close>; \<open>None\<close> is the \<open>ValueError\<close>.\<close>

definition py_float :: "unicode_db \<Rightarrow> ustr \<Rightarrow> pyfloat option" where
  "py_float U s =
     (let (sg, r) = split_sign (py_strip (is_space U) s);
          w = map ascii_lower r
      in if w = lit ''inf'' \<or> w = lit ''infinity'' then Some (if sg = 1 then PInf else NInf)
         else if w = lit ''nan'' then Some NaN
         else py_float_finite U sg r)"

section \<open>Hexadecimal\<close>

definition hex_digit :: "nat \<Rightarrow> nat" where
  "hex_digit d = (if d < 10 then 48 + d else 87 + d)"

definition hex_value :: "nat \<Rightarrow> nat option" where
  "hex_value c = (if 48 \<le> c \<and> c \<le> 57 then Some (c - 48)
     else if 97 \<le> c \<and> c \<le> 102 then Some (c - 87)
     else if 65 \<le> c \<and> c \<le> 70 then Some (c - 55) else None)"

text \<open>The \<open>n\<close> lowest hexadecimal digits of a number, most significant first.\<close>

fun hex_digits :: "nat \<Rightarrow> nat \<Rightarrow> ustr" where
  "hex_digits 0 v = []"
| "hex_digits (Suc n) v = hex_digits n (v div 16) @ [hex_digit (v mod 16)]"

lemma length_hex_digits [simp]: "length (hex_digits n v) = n"
  by (induction n arbitrary: v) auto

lemma hex_value_digit: "d < 16 \<Longrightarrow> hex_value (hex_digit d) = Some d"
  by (auto simp: hex_value_def hex_digit_def)

text \<open>Decimal rendering of an integer, \<open>str(n)\<close>\<close>

fun nat_digits :: "nat \<Rightarrow> ustr" where
  "nat_digits n = (if n < 10 then [48 + n] else nat_digits (n div 10) @ [48 + n mod 10])"

declare nat_digits.simps [simp del]

definition int_str :: "int \<Rightarrow> ustr" where
  "int_str i = (if i < 0 then 45 # nat_digits (nat (- i)) else nat_digits (nat i))"

end
