(* ===== verification/Json.thy ===== *)
theory Json
  imports PyText
begin

text \<open>
  JSON values as Python's \<open>json\<close> module sees them, and \<open>json.loads\<close>: the scanner of
  the standard library with its strict strings, its treatment of \<open>\uXXXX\<close> escapes and
  surrogate pairs, its \<open>NaN\<close>/\<open>Infinity\<close> extension, and the three ways it fails:
  a \<open>JSONDecodeError\<close>, the plain \<open>ValueError\<close> of an integer of more than 4300
  digits, and the \<open>RecursionError\<close> of input nested deeper than the interpreter's
  recursion budget, which is a parameter.
\<close>

datatype json =
    JNull
  | JBool bool
  | JInt int
  | JFloat pyfloat
  | JStr ustr
  | JArr "json list"
  | JObj "(ustr, json) dict"

datatype json_error = JSONDecodeError | IntegerTooLong | RecursionError

datatype 'a scan = Got 'a ustr | Bad json_error | OutOfFuel

definition json_ws :: "ustr \<Rightarrow> ustr" where
  "json_ws s = dropWhile (\<lambda>c. c = 32 \<or> c = 9 \<or> c = 10 \<or> c = 13) s"

lemma length_json_ws: "length (json_ws s) \<le> length s"
  by (simp add: json_ws_def length_dropWhile_le)

section \<open>Strings\<close>

fun hex4 :: "ustr \<Rightarrow> (nat \<times> ustr) option" where
  "hex4 (a # b # c # d # r) =
     (case (hex_value a, hex_value b, hex_value c, hex_value d) of
        (Some w, Some x, Some y, Some z) \<Rightarrow> Some (((w * 16 + x) * 16 + y) * 16 + z, r)
      | _ \<Rightarrow> None)"
| "hex4 _ = None"

lemma hex4_length: "hex4 s = Some (v, r) \<Longrightarrow> length r < length s"
  by (induction s rule: hex4.induct) (auto split: option.splits)

definition escape_char :: "nat \<Rightarrow> nat option" where
  "escape_char e = (if e = 34 \<or> e = 92 \<or> e = 47 then Some e
     else if e = 98 then Some 8 else if e = 102 then Some 12 else if e = 110 then Some 10
     else if e = 114 then Some 13 else if e = 116 then Some 9 else None)"

text \<open>
  After a high surrogate escape, a low surrogate escape completes the pair; anything else is
  left for the next round.
\<close>

definition pair_low :: "nat \<Rightarrow> ustr \<Rightarrow> nat \<times> ustr" where
  "pair_low v r = (if 0xD800 \<le> v \<and> v \<le> 0xDBFF then
       (case r of a # b # r2 \<Rightarrow>
          (if a = 92 \<and> b = 117 then
             (case hex4 r2 of
                Some (w, r3) \<Rightarrow> if 0xDC00 \<le> w \<and> w \<le> 0xDFFF
                  then (0x10000 + (v - 0xD800) * 1024 + (w - 0xDC00), r3) else (v, r)
              | None \<Rightarrow> (v, r))
           else (v, r))
        | _ \<Rightarrow> (v, r))
     else (v, r))"

lemma pair_low_length: "pair_low v r = (w, r') \<Longrightarrow> length r' \<le> length r"
  by (auto simp: pair_low_def dest!: hex4_length split: if_splits list.splits option.splits)

text \<open>What follows a backslash: the character it stands for and the rest.\<close>

definition scan_escape :: "ustr \<Rightarrow> (nat \<times> ustr) option" where
  "scan_escape s = (case s of [] \<Rightarrow> None
     | e # es \<Rightarrow>
         if e = 117 then (case hex4 es of None \<Rightarrow> None | Some (v, r) \<Rightarrow> Some (pair_low v r))
         else (case escape_char e of None \<Rightarrow> None | Some x \<Rightarrow> Some (x, es)))"

lemma scan_escape_length: "scan_escape s = Some (x, r) \<Longrightarrow> length r < length s"
proof -
  assume a: "scan_escape s = Some (x, r)"
  obtain e es where s: "s = e # es" using a by (auto simp: scan_escape_def split: list.splits)
  show ?thesis
  proof (cases "e = 117")
    case True
    with a s obtain v r1 where h: "hex4 es = Some (v, r1)" and p: "pair_low v r1 = (x, r)"
      by (auto simp: scan_escape_def split: option.splits)
    from hex4_length [OF h] pair_low_length [OF p] s show ?thesis by simp
  next
    case False
    with a s show ?thesis by (auto simp: scan_escape_def split: option.splits)
  qed
qed

text \<open>The rest of a string after its opening quote: its contents and what follows.\<close>

function scan_string :: "ustr \<Rightarrow> ustr \<Rightarrow> (ustr \<times> ustr) option" where
  "scan_string acc s = (case s of [] \<Rightarrow> None
     | c # cs \<Rightarrow>
         if c = 34 then Some (rev acc, cs)
         else if c = 92 then
           (case scan_escape cs of None \<Rightarrow> None | Some (x, r) \<Rightarrow> scan_string (x # acc) r)
         else if c < 32 then None
         else scan_string (c # acc) cs)"
  by pat_completeness auto
termination
  by (relation "measure (\<lambda>(acc, s). length s)") (auto dest!: scan_escape_length)

declare scan_string.simps [simp del]

lemma scan_string_simps [simp]:
  "scan_string acc [] = None"
  "scan_string acc (c # cs) =
     (if c = 34 then Some (rev acc, cs)
      else if c = 92 then
        (case scan_escape cs of None \<Rightarrow> None | Some (x, r) \<Rightarrow> scan_string (x # acc) r)
      else if c < 32 then None
      else scan_string (c # acc) cs)"
  by (simp_all add: scan_string.simps [of acc "[]"] scan_string.simps [of acc "c # cs"])

lemma scan_string_length: "scan_string acc s = Some (t, r) \<Longrightarrow> length r < length s"
proof (induction "length s" arbitrary: acc s rule: less_induct)
  case less
  obtain c cs where s: "s = c # cs" using less.prems by (cases s) auto
  show ?case
  proof (cases "c = 34 \<or> c < 32")
    case True
    with less.prems s show ?thesis
      by (auto split: if_splits)
  next
    case False
    show ?thesis
    proof (cases "c = 92")
      case True
      with less.prems s obtain x q where e: "scan_escape cs = Some (x, q)"
        and r: "scan_string (x # acc) q = Some (t, r)" by (auto split: option.splits)
      from less.hyps [OF _ r] scan_escape_length [OF e] s show ?thesis by simp
    next
      case no: False
      with less.prems s False have "scan_string (c # acc) cs = Some (t, r)" by simp
      from less.hyps [OF _ this] s show ?thesis by simp
    qed
  qed
qed

section \<open>Numbers\<close>

definition is_digit :: "nat \<Rightarrow> bool" where
  "is_digit c \<longleftrightarrow> 48 \<le> c \<and> c \<le> 57"

definition digit_list :: "ustr \<Rightarrow> nat list" where
  "digit_list s = map (\<lambda>c. c - 48) s"

text \<open>The integer part: a single 0, or digits that do not start with 0.\<close>

definition int_part :: "ustr \<Rightarrow> (ustr \<times> ustr) option" where
  "int_part s = (case s of [] \<Rightarrow> None
     | c # cs \<Rightarrow> if c = 48 then Some ([c], cs)
               else if is_digit c then Some (takeWhile is_digit s, dropWhile is_digit s)
               else None)"

definition frac_part :: "ustr \<Rightarrow> ustr \<times> ustr" where
  "frac_part s = (case s of
     c # d # r \<Rightarrow> if c = 46 \<and> is_digit d then (takeWhile is_digit (d # r), dropWhile is_digit (d # r))
                else ([], s)
   | _ \<Rightarrow> ([], s))"

definition exp_part :: "ustr \<Rightarrow> int option \<times> ustr" where
  "exp_part s = (case s of [] \<Rightarrow> (None, s)
     | c # cs \<Rightarrow> if c = 101 \<or> c = 69 then
          (let (sg, r) = split_sign cs
           in if takeWhile is_digit r = [] then (None, s)
              else (Some (sg * digits_value 10 (digit_list (takeWhile is_digit r))),
                    dropWhile is_digit r))
        else (None, s))"

definition scan_number :: "ustr \<Rightarrow> json scan" where
  "scan_number s0 =
     (let (sg, s) = (case s0 of c # cs \<Rightarrow> if c = 45 then (-1, cs) else (1, s0) | [] \<Rightarrow> (1 :: int, s0))
      in case int_part s of None \<Rightarrow> Bad JSONDecodeError
       | Some (ip, r1) \<Rightarrow>
           (let (fp, r2) = frac_part r1; (ex, r3) = exp_part r2
            in if fp = [] \<and> ex = None then
                 (if length ip > max_str_digits then Bad IntegerTooLong
                  else Got (JInt (sg * digits_value 10 (digit_list ip))) r3)
               else Got (JFloat (fl_of_rat (scale10 (sg * digits_value 10 (digit_list (ip @ fp)))
                           ((case ex of None \<Rightarrow> 0 | Some e \<Rightarrow> e) - int (length fp))))) r3))"

lemma length_dropWhile_digit: "is_digit c \<Longrightarrow> length (dropWhile is_digit (c # s)) \<le> length s"
  by (simp add: length_dropWhile_le)

lemma int_part_length: "int_part s = Some (d, r) \<Longrightarrow> length r < length s"
  by (auto simp: int_part_def less_Suc_eq_le split: list.splits if_splits
      intro: length_dropWhile_le)

lemma frac_part_length: "frac_part s = (d, r) \<Longrightarrow> length r \<le> length s"
  by (auto simp: frac_part_def le_SucI length_dropWhile_le split: list.splits if_splits)

lemma exp_part_length: "exp_part s = (d, r) \<Longrightarrow> length r \<le> length s"
proof -
  assume a: "exp_part s = (d, r)"
  have "length (snd (split_sign cs)) \<le> length cs" for cs
    by (simp add: split_sign_def split: list.splits)
  moreover have "length (dropWhile is_digit t) \<le> length t" for t by (rule length_dropWhile_le)
  ultimately show ?thesis using a
    by (auto simp: exp_part_def Let_def split: list.splits if_splits prod.splits)
       (metis le_SucI le_trans snd_conv)+
qed

lemma scan_number_length: "scan_number s = Got v r \<Longrightarrow> length r < length s"
  by (auto simp: scan_number_def Let_def split: list.splits if_splits option.splits prod.splits
      dest!: int_part_length frac_part_length exp_part_length)

lemma scan_number_fuel [simp]: "scan_number s \<noteq> OutOfFuel"
  by (auto simp: scan_number_def Let_def split: list.splits if_splits option.splits prod.splits)

section \<open>Values\<close>

text \<open>
  The scanner of a value, of the members of an object after its opening brace or a comma,
  and of the elements of an array. \<open>n\<close> bounds the calls (\<open>OutOfFuel\<close> below is never
  reached from \<open>json_loads\<close>); \<open>d\<close> is the recursion budget that is left.
\<close>

definition keyword :: "string \<Rightarrow> json \<Rightarrow> ustr \<Rightarrow> json scan" where
  "keyword w v s = (if starts_with (lit w) s then Got v (drop (length w) s) else Bad JSONDecodeError)"

function (sequential) scan_value :: "nat \<Rightarrow> nat \<Rightarrow> ustr \<Rightarrow> json scan"
  and scan_members :: "nat \<Rightarrow> nat \<Rightarrow> (ustr, json) dict \<Rightarrow> ustr \<Rightarrow> json scan"
  and scan_elements :: "nat \<Rightarrow> nat \<Rightarrow> json list \<Rightarrow> ustr \<Rightarrow> json scan" where
  "scan_value 0 d s = OutOfFuel"
| "scan_value (Suc n) d [] = Bad JSONDecodeError"
| "scan_value (Suc n) d (c # cs) =
     (if c = 34 then (case scan_string [] cs of None \<Rightarrow> Bad JSONDecodeError
                      | Some (t, r) \<Rightarrow> Got (JStr t) r)
      else if c = 123 then
        (if d = 0 then Bad RecursionError
         else (case json_ws cs of
                 [] \<Rightarrow> Bad JSONDecodeError
               | x # xs \<Rightarrow> if x = 125 then Got (JObj []) xs
                         else scan_members n (d - 1) [] (x # xs)))
      else if c = 91 then
        (if d = 0 then Bad RecursionError
         else (case json_ws cs of
                 [] \<Rightarrow> Bad JSONDecodeError
               | x # xs \<Rightarrow> if x = 93 then Got (JArr []) xs
                         else scan_elements n (d - 1) [] (x # xs)))
      else if c = 110 then keyword ''null'' JNull (c # cs)
      else if c = 116 then keyword ''true'' (JBool True) (c # cs)
      else if c = 102 then keyword ''false'' (JBool False) (c # cs)
      else if c = 78 then keyword ''NaN'' (JFloat NaN) (c # cs)
      else if c = 73 then keyword ''Infinity'' (JFloat PInf) (c # cs)
      else if starts_with (lit ''-Infinity'') (c # cs) then Got (JFloat NInf) (drop 9 (c # cs))
      else scan_number (c # cs))"
| "scan_members 0 d acc s = OutOfFuel"
| "scan_members (Suc n) d acc [] = Bad JSONDecodeError"
| "scan_members (Suc n) d acc (c # cs) =
     (if c \<noteq> 34 then Bad JSONDecodeError
      else (case scan_string [] cs of None \<Rightarrow> Bad JSONDecodeError
        | Some (k, r) \<Rightarrow>
            (case json_ws r of
               [] \<Rightarrow> Bad JSONDecodeError
             | x # r1 \<Rightarrow>
                 if x \<noteq> 58 then Bad JSONDecodeError
                 else (case scan_value n d (json_ws r1) of
                         Got v r2 \<Rightarrow>
                           (case json_ws r2 of
                              [] \<Rightarrow> Bad JSONDecodeError
                            | y # r3 \<Rightarrow>
                                if y = 125 then Got (JObj (dict_set acc k v)) r3
                                else if y = 44 then scan_members n d (dict_set acc k v) (json_ws r3)
                                else Bad JSONDecodeError)
                       | Bad e \<Rightarrow> Bad e
                       | OutOfFuel \<Rightarrow> OutOfFuel))))"
| "scan_elements 0 d acc s = OutOfFuel"
| "scan_elements (Suc n) d acc s =
     (case scan_value n d s of
        Got v r \<Rightarrow>
          (case json_ws r of
             [] \<Rightarrow> Bad JSONDecodeError
           | y # r1 \<Rightarrow>
               if y = 93 then Got (JArr (rev (v # acc))) r1
               else if y = 44 then scan_elements n d (v # acc) (json_ws r1)
               else Bad JSONDecodeError)
      | Bad e \<Rightarrow> Bad e
      | OutOfFuel \<Rightarrow> OutOfFuel)"
  by pat_completeness auto
termination
  by (relation "measure (\<lambda>x. case x of Inl (n, _) \<Rightarrow> n
       | Inr (Inl (n, _)) \<Rightarrow> n | Inr (Inr (n, _)) \<Rightarrow> n)") auto

definition json_fuel :: "ustr \<Rightarrow> nat" where
  "json_fuel s = 2 * length s + 2"

text \<open>\<open>json.loads(s)\<close> with recursion budget \<open>d\<close>\<close>

definition json_loads :: "nat \<Rightarrow> ustr \<Rightarrow> json_error + json" where
  "json_loads d s =
     (if starts_with [0xFEFF] s then Inl JSONDecodeError
      else (case scan_value (json_fuel s) d (json_ws s) of
              Got v r \<Rightarrow> if json_ws r = [] then Inr v else Inl JSONDecodeError
            | Bad e \<Rightarrow> Inl e
            | OutOfFuel \<Rightarrow> Inl JSONDecodeError))"

section \<open>The scanner consumes its input and the fuel suffices\<close>

lemma starts_with_length: "starts_with p s \<Longrightarrow> length p \<le> length s"
  by (induction p s rule: starts_with.induct) auto

lemma keyword_length: "keyword w v s = Got x r \<Longrightarrow> w \<noteq> [] \<Longrightarrow> length r < length s"
  using starts_with_length [of "lit w" s]
  by (cases w) (auto simp: keyword_def split: if_splits)

lemma keyword_fuel [simp]: "keyword w v s \<noteq> OutOfFuel"
  by (simp add: keyword_def)

lemma json_ws_Cons_length: "json_ws s = x # xs \<Longrightarrow> length xs < length s"
  using length_json_ws [of s] by simp

lemma scan_lengths:
  "scan_value n d s = Got v r \<Longrightarrow> length r < length s"
  "scan_members n d acc s = Got v r \<Longrightarrow> length r < length s"
  "scan_elements n d els s = Got v r \<Longrightarrow> length r < length s"
proof (induction n d s and n d acc s and n d els s arbitrary: v r and v r and v r
    rule: scan_value_scan_members_scan_elements.induct)
  case (3 n d c cs)
  show ?case
  proof (cases "c = 123 \<or> c = 91")
    case True
    with "3.prems" obtain x xs where x: "json_ws cs = x # xs"
      by (auto split: if_splits list.splits)
    from json_ws_Cons_length [OF x] True "3.prems" x "3.IH"
    show ?thesis by (fastforce split: if_splits)
  next
    case False
    with "3.prems" show ?thesis
      by (auto split: if_splits option.splits
          dest!: scan_string_length keyword_length scan_number_length)
  qed
next
  case (6 n d acc c cs)
  from "6.prems" obtain k t where k: "scan_string [] cs = Some (k, t)" and c: "c = 34"
    by (auto split: if_splits option.splits)
  with "6.prems" obtain r1 where r1: "json_ws t = 58 # r1"
    by (auto split: if_splits list.splits)
  with "6.prems" k c obtain w r2 where r2: "scan_value n d (json_ws r1) = Got w r2"
    by (auto split: scan.splits)
  with "6.prems" k c r1 obtain y r3 where r3: "json_ws r2 = y # r3"
    by (auto split: list.splits)
  have "length r2 < length r1"
    using "6.IH"(1) [OF _ k refl r1 _ r2] c length_json_ws [of r1] by simp
  then have l: "length r3 < length cs"
    using json_ws_Cons_length [OF r3] json_ws_Cons_length [OF r1] scan_string_length [OF k] by simp
  show ?case
  proof (cases "y = 125")
    case True
    with "6.prems" k c r1 r2 r3 l show ?thesis by simp
  next
    case False
    with "6.prems" k c r1 r2 r3 have y: "y = 44"
      and m: "scan_members n d (dict_set acc k w) (json_ws r3) = Got v r"
      by (auto split: if_splits)
    from "6.IH"(2) [OF _ k refl r1 _ r2 r3 False y m] c l length_json_ws [of r3]
    show ?thesis by simp
  qed
next
  case (8 n d acc s)
  from "8.prems" obtain w r2 where r2: "scan_value n d s = Got w r2"
    by (auto split: scan.splits)
  with "8.prems" obtain y r3 where r3: "json_ws r2 = y # r3" by (auto split: list.splits)
  from "8.IH"(1) [OF r2] json_ws_Cons_length [OF r3] have l: "length r3 < length s" by simp
  show ?case
  proof (cases "y = 93")
    case True
    with "8.prems" r2 r3 l show ?thesis by simp
  next
    case False
    with "8.prems" r2 r3 have y: "y = 44"
      and m: "scan_elements n d (w # acc) (json_ws r3) = Got v r" by (auto split: if_splits)
    from "8.IH"(2) [OF r2 r3 False y m] l length_json_ws [of r3] show ?thesis by simp
  qed
qed simp_all

lemma scan_fuel:
  "2 * length s < n \<Longrightarrow> scan_value n d s \<noteq> OutOfFuel"
  "2 * length s < n \<Longrightarrow> scan_members n d acc s \<noteq> OutOfFuel"
  "2 * length s + 1 < n \<Longrightarrow> scan_elements n d els s \<noteq> OutOfFuel"
proof (induction n d s and n d acc s and n d els s
    rule: scan_value_scan_members_scan_elements.induct)
  case (3 n d c cs)
  show ?case
  proof (cases "(c = 123 \<or> c = 91) \<and> d \<noteq> 0 \<and> json_ws cs \<noteq> []")
    case True
    then obtain x xs where x: "json_ws cs = x # xs" by (cases "json_ws cs") auto
    have "length (x # xs) \<le> length cs" using length_json_ws [of cs] x by simp
    with "3.prems" True x "3.IH"(1) [OF _ _ _ x] "3.IH"(2) [OF _ _ _ _ x]
    show ?thesis by auto
  next
    case False
    then show ?thesis by (auto split: option.splits)
  qed
next
  case (6 n d acc c cs)
  show ?case
  proof (cases "c = 34")
    case c: True
    show ?thesis
    proof (cases "\<exists>k t r1. scan_string [] cs = Some (k, t) \<and> json_ws t = 58 # r1")
      case False
      with c show ?thesis by (auto split: option.splits list.splits)
    next
      case True
      then obtain k t r1 where k: "scan_string [] cs = Some (k, t)" and r1: "json_ws t = 58 # r1"
        by blast
      have l: "length r1 < length cs"
        using json_ws_Cons_length [OF r1] scan_string_length [OF k] by simp
      have v: "scan_value n d (json_ws r1) \<noteq> OutOfFuel"
        using "6.IH"(1) [OF _ k refl r1] c l "6.prems" length_json_ws [of r1] by simp
      have m: "scan_members n d (dict_set acc k w) (json_ws r3) \<noteq> OutOfFuel"
        if "scan_value n d (json_ws r1) = Got w r2" "json_ws r2 = 44 # r3" for w r2 r3
      proof -
        have "length (json_ws r3) < length cs"
          using scan_lengths(1) [OF that(1)] json_ws_Cons_length [OF that(2)]
            length_json_ws [of r1] length_json_ws [of r3] l by simp
        then show ?thesis
          using "6.IH"(2) [OF _ k refl r1 _ that] c "6.prems" by simp
      qed
      show ?thesis
      proof (cases "scan_value n d (json_ws r1)")
        case (Got w r)
        with m k c r1 show ?thesis by (cases "json_ws r") auto
      qed (use v k c r1 in simp_all)
    qed
  qed simp
next
  case (8 n d acc s)
  have v: "scan_value n d s \<noteq> OutOfFuel" using 8 by simp
  have m: "scan_elements n d (w # acc) (json_ws r1) \<noteq> OutOfFuel"
    if "scan_value n d s = Got w r" "json_ws r = 44 # r1" for w r r1
    using "8.IH"(2) [OF that] "8.prems" scan_lengths(1) [OF that(1)]
      json_ws_Cons_length [OF that(2)] length_json_ws [of r1] by simp
  show ?case
  proof (cases "scan_value n d s")
    case (Got w r)
    with m show ?thesis by (cases "json_ws r") auto
  qed (use v in simp_all)
qed simp_all

lemma json_loads_fuel: "scan_value (json_fuel s) d (json_ws s) \<noteq> OutOfFuel"
  using scan_fuel(1) length_json_ws [of s] by (simp add: json_fuel_def)

text \<open>
  An integer literal with more digits than \<open>int\<close> converts is not a decode error.
\<close>

lemma loads_long_integer:
  assumes d: "\<forall>x \<in> set (c # cs). is_digit x" and c: "c \<noteq> 48"
    and long: "max_str_digits < length (c # cs)"
  shows "json_loads n (c # cs) = Inl IntegerTooLong"
proof -
  have dc: "48 \<le> c" "c \<le> 57" using d by (simp_all add: is_digit_def)
  have ws: "json_ws (c # cs) = c # cs" using dc by (simp add: json_ws_def)
  have "takeWhile is_digit cs = cs" "dropWhile is_digit cs = []" using d by simp_all
  then have "int_part (c # cs) = Some (c # cs, [])" using d c by (simp add: int_part_def)
  then have "scan_number (c # cs) = Bad IntegerTooLong"
    using dc long by (simp add: scan_number_def frac_part_def exp_part_def)
  moreover obtain k where "json_fuel (c # cs) = Suc k" by (simp add: json_fuel_def)
  moreover have "\<not> starts_with (lit ''-Infinity'') (c # cs)" "\<not> starts_with [0xFEFF] (c # cs)"
    using dc by (simp_all add: lit_def)
  ultimately show ?thesis using dc by (simp add: json_loads_def ws)
qed

text \<open>Running the scanner on a concrete text by simplification.\<close>

lemmas json_eval = json_loads_def json_fuel_def json_ws_def lit_def
  scan_value.simps(2,3) [where n = "pred_numeral k" for k, folded numeral_eq_Suc]
  scan_members.simps(2,3) [where n = "pred_numeral k" for k, folded numeral_eq_Suc]
  scan_elements.simps(2) [where n = "pred_numeral k" for k, folded numeral_eq_Suc]

end
