(* ===== verification/WsProtocol.thy ===== *)
theory WsProtocol
  imports PyText
begin

text \<open>
  The constants of the WebSocket protocol: \<open>websocket/protocol.py\<close> (version, path,
  message types and the three allowlists, delivery statuses) and \<open>websocket/errors.py\<close>
  (error codes, their fixed descriptions, close codes).
\<close>

section \<open>Version, path and message types\<close>

definition PROTOCOL_VERSION :: ustr where
  "PROTOCOL_VERSION = lit ''1''"

definition WEBSOCKET_PATH :: ustr where
  "WEBSOCKET_PATH = lit ''/ws/v1''"

datatype message_type =
    CONNECTION_READY
  | MESSAGE_RECEIPT
  | MESSAGE_DELIVERY_ACK
  | HEARTBEAT_PONG
  | PROTOCOL_ERROR
  | AUTH_READY
  | MESSAGE_SEND
  | HEARTBEAT_PING
  | AUTH_AUTHENTICATE
  | QUEUE_STATUS

text \<open>
  Iterating over the enumeration class yields its members in the order of declaration, which
  the library class \<open>enum\<close> states for a finite type.
\<close>

instantiation message_type :: enum
begin

definition enum_message_type :: "message_type list" where
  "enum_message_type = [CONNECTION_READY, MESSAGE_RECEIPT, MESSAGE_DELIVERY_ACK, HEARTBEAT_PONG,
     PROTOCOL_ERROR, AUTH_READY, MESSAGE_SEND, HEARTBEAT_PING, AUTH_AUTHENTICATE, QUEUE_STATUS]"

definition enum_all_message_type :: "(message_type \<Rightarrow> bool) \<Rightarrow> bool" where
  "enum_all_message_type P \<longleftrightarrow> list_all P Enum.enum"

definition enum_ex_message_type :: "(message_type \<Rightarrow> bool) \<Rightarrow> bool" where
  "enum_ex_message_type P \<longleftrightarrow> list_ex P Enum.enum"

lemma message_type_in_enum: "(t :: message_type) \<in> set Enum.enum"
  by (cases t) (simp_all add: enum_message_type_def)

instance
proof
  show u: "(UNIV :: message_type set) = set Enum.enum"
    using message_type_in_enum by blast
  show "distinct (Enum.enum :: message_type list)"
    by (simp add: enum_message_type_def)
  show "Enum.enum_all P = Ball UNIV P" for P :: "message_type \<Rightarrow> bool"
    by (simp add: enum_all_message_type_def list_all_iff u)
  show "Enum.enum_ex P = Bex UNIV P" for P :: "message_type \<Rightarrow> bool"
    by (simp add: enum_ex_message_type_def list_ex_iff u)
qed

end

fun message_type_value :: "message_type \<Rightarrow> ustr" where
  "message_type_value CONNECTION_READY = lit ''connection.ready''"
| "message_type_value MESSAGE_RECEIPT = lit ''message.receipt''"
| "message_type_value MESSAGE_DELIVERY_ACK = lit ''message.delivery_ack''"
| "message_type_value HEARTBEAT_PONG = lit ''heartbeat.pong''"
| "message_type_value PROTOCOL_ERROR = lit ''protocol.error''"
| "message_type_value AUTH_READY = lit ''auth.ready''"
| "message_type_value MESSAGE_SEND = lit ''message.send''"
| "message_type_value HEARTBEAT_PING = lit ''heartbeat.ping''"
| "message_type_value AUTH_AUTHENTICATE = lit ''auth.authenticate''"
| "message_type_value QUEUE_STATUS = lit ''queue.status''"

text \<open>
  \<open>MessageType(raw)\<close> together with the preceding membership test \<open>raw in
  set(MessageType)\<close>: \<open>None\<close> when no member has this value.
\<close>

definition message_type_of :: "ustr \<Rightarrow> message_type option" where
  "message_type_of raw = find (\<lambda>t. message_type_value t = raw) Enum.enum"

definition CLIENT_SENDABLE_TYPES :: "message_type set" where
  "CLIENT_SENDABLE_TYPES = {AUTH_AUTHENTICATE, MESSAGE_SEND, HEARTBEAT_PING, QUEUE_STATUS}"

definition UNAUTHENTICATED_SENDABLE_TYPES :: "message_type set" where
  "UNAUTHENTICATED_SENDABLE_TYPES = {AUTH_AUTHENTICATE, HEARTBEAT_PING}"

definition PRIVILEGED_TYPES :: "message_type set" where
  "PRIVILEGED_TYPES = {MESSAGE_SEND, QUEUE_STATUS}"

lemma message_type_value_inj [simp]:
  "message_type_value s = message_type_value t \<longleftrightarrow> s = t"
  by (cases s; cases t) simp_all

lemma message_type_of_Some_iff: "message_type_of raw = Some t \<longleftrightarrow> raw = message_type_value t"
proof
  show "raw = message_type_value t" if "message_type_of raw = Some t"
    using that by (auto simp: message_type_of_def find_Some_iff)
  show "message_type_of raw = Some t" if "raw = message_type_value t"
    unfolding that message_type_of_def by (cases t) (simp_all add: enum_message_type_def)
qed

lemma message_type_of_value [simp]: "message_type_of (message_type_value t) = Some t"
  by (simp add: message_type_of_Some_iff)

text \<open>The dispatch of the receive loop covers every type a client may send.\<close>

lemma client_sendable_cases:
  "t \<in> CLIENT_SENDABLE_TYPES \<longleftrightarrow> t = AUTH_AUTHENTICATE \<or> t = HEARTBEAT_PING \<or> t \<in> PRIVILEGED_TYPES"
  by (auto simp: CLIENT_SENDABLE_TYPES_def PRIVILEGED_TYPES_def)

lemma unauthenticated_iff:
  "t \<in> CLIENT_SENDABLE_TYPES \<Longrightarrow> t \<in> UNAUTHENTICATED_SENDABLE_TYPES \<longleftrightarrow> t \<notin> PRIVILEGED_TYPES"
  by (auto simp: CLIENT_SENDABLE_TYPES_def UNAUTHENTICATED_SENDABLE_TYPES_def PRIVILEGED_TYPES_def)

section \<open>Delivery statuses\<close>

datatype delivery_status = DELIVERED | QUEUED | RECIPIENT_UNAVAILABLE | REJECTED

fun delivery_status_value :: "delivery_status \<Rightarrow> ustr" where
  "delivery_status_value DELIVERED = lit ''delivered''"
| "delivery_status_value QUEUED = lit ''queued''"
| "delivery_status_value RECIPIENT_UNAVAILABLE = lit ''recipient_unavailable''"
| "delivery_status_value REJECTED = lit ''rejected''"

lemma delivery_status_value_inj [simp]:
  "delivery_status_value s = delivery_status_value t \<longleftrightarrow> s = t"
  by (cases s; cases t) simp_all

section \<open>Error codes and close codes\<close>

datatype protocol_error_code =
    WS_INVALID_JSON
  | WS_SCHEMA_VALIDATION_FAILED
  | WS_UNKNOWN_MESSAGE_TYPE
  | WS_UNSUPPORTED_PROTOCOL_VERSION
  | WS_INVALID_RECIPIENT
  | WS_RECIPIENT_UNAVAILABLE
  | WS_SENDER_MISMATCH
  | WS_MESSAGE_TOO_LARGE
  | WS_RATE_LIMITED
  | WS_ORIGIN_REJECTED
  | WS_CONNECTION_LIMIT
  | WS_INTERNAL_PROTOCOL_ERROR
  | WS_IDLE_TIMEOUT
  | WS_QUEUE_OVERFLOW
  | WS_INVALID_CLIENT_ID
  | WS_AUTH_REQUIRED
  | WS_AUTH_FAILED
  | WS_ALREADY_AUTHENTICATED

fun protocol_error_value :: "protocol_error_code \<Rightarrow> ustr" where
  "protocol_error_value WS_INVALID_JSON = lit ''WS_1001_INVALID_JSON''"
| "protocol_error_value WS_SCHEMA_VALIDATION_FAILED = lit ''WS_1002_SCHEMA_VALIDATION_FAILED''"
| "protocol_error_value WS_UNKNOWN_MESSAGE_TYPE = lit ''WS_1003_UNKNOWN_MESSAGE_TYPE''"
| "protocol_error_value WS_UNSUPPORTED_PROTOCOL_VERSION = lit ''WS_1004_UNSUPPORTED_PROTOCOL_VERSION''"
| "protocol_error_value WS_INVALID_RECIPIENT = lit ''WS_1005_INVALID_RECIPIENT''"
| "protocol_error_value WS_RECIPIENT_UNAVAILABLE = lit ''WS_1006_RECIPIENT_UNAVAILABLE''"
| "protocol_error_value WS_SENDER_MISMATCH = lit ''WS_1007_SENDER_MISMATCH''"
| "protocol_error_value WS_MESSAGE_TOO_LARGE = lit ''WS_1008_MESSAGE_TOO_LARGE''"
| "protocol_error_value WS_RATE_LIMITED = lit ''WS_1009_RATE_LIMITED''"
| "protocol_error_value WS_ORIGIN_REJECTED = lit ''WS_1010_ORIGIN_REJECTED''"
| "protocol_error_value WS_CONNECTION_LIMIT = lit ''WS_1011_CONNECTION_LIMIT''"
| "protocol_error_value WS_INTERNAL_PROTOCOL_ERROR = lit ''WS_1012_INTERNAL_PROTOCOL_ERROR''"
| "protocol_error_value WS_IDLE_TIMEOUT = lit ''WS_1013_IDLE_TIMEOUT''"
| "protocol_error_value WS_QUEUE_OVERFLOW = lit ''WS_1014_QUEUE_OVERFLOW''"
| "protocol_error_value WS_INVALID_CLIENT_ID = lit ''WS_1015_INVALID_CLIENT_ID''"
| "protocol_error_value WS_AUTH_REQUIRED = lit ''WS_1016_AUTH_REQUIRED''"
| "protocol_error_value WS_AUTH_FAILED = lit ''WS_1017_AUTH_FAILED''"
| "protocol_error_value WS_ALREADY_AUTHENTICATED = lit ''WS_1018_ALREADY_AUTHENTICATED''"

text \<open>\<open>describe(code)\<close>, the look-up in \<open>ERROR_DESCRIPTIONS\<close>\<close>

fun describe :: "protocol_error_code \<Rightarrow> ustr" where
  "describe WS_INVALID_JSON = lit ''Message was not valid JSON.''"
| "describe WS_SCHEMA_VALIDATION_FAILED = lit ''Message failed schema validation.''"
| "describe WS_UNKNOWN_MESSAGE_TYPE = lit ''Message type is not supported.''"
| "describe WS_UNSUPPORTED_PROTOCOL_VERSION = lit ''Protocol version is not supported.''"
| "describe WS_INVALID_RECIPIENT = lit ''Recipient identifier is missing or malformed.''"
| "describe WS_RECIPIENT_UNAVAILABLE = lit ''Recipient is not currently reachable.''"
| "describe WS_SENDER_MISMATCH = lit ''Sender does not match the connection identity.''"
| "describe WS_MESSAGE_TOO_LARGE = lit ''Message exceeds the maximum allowed size.''"
| "describe WS_RATE_LIMITED = lit ''Message rate limit exceeded.''"
| "describe WS_ORIGIN_REJECTED = lit ''Origin is not allowed.''"
| "describe WS_CONNECTION_LIMIT = lit ''Connection limit reached.''"
| "describe WS_INTERNAL_PROTOCOL_ERROR = lit ''Internal protocol error.''"
| "describe WS_IDLE_TIMEOUT = lit ''Connection idle for too long.''"
| "describe WS_QUEUE_OVERFLOW = lit ''Outgoing queue is full.''"
| "describe WS_INVALID_CLIENT_ID = lit ''Transport client identifier is malformed.''"
| "describe WS_AUTH_REQUIRED = lit ''Authentication is required for this action.''"
| "describe WS_AUTH_FAILED = lit ''Authentication failed.''"
| "describe WS_ALREADY_AUTHENTICATED = lit ''Connection is already authenticated.''"

lemma protocol_error_value_inj [simp]:
  "protocol_error_value a = protocol_error_value b \<longleftrightarrow> a = b"
  by (cases a; cases b) simp_all

definition CLOSE_NORMAL :: int where "CLOSE_NORMAL = 1000"
definition CLOSE_POLICY_VIOLATION :: int where "CLOSE_POLICY_VIOLATION = 1008"
definition CLOSE_ORIGIN_REJECTED :: int where "CLOSE_ORIGIN_REJECTED = 4403"
definition CLOSE_CONNECTION_LIMIT :: int where "CLOSE_CONNECTION_LIMIT = 4429"
definition CLOSE_IDLE_TIMEOUT :: int where "CLOSE_IDLE_TIMEOUT = 4408"
definition CLOSE_AUTH_REQUIRED :: int where "CLOSE_AUTH_REQUIRED = 4401"

lemmas close_codes = CLOSE_NORMAL_def CLOSE_POLICY_VIOLATION_def CLOSE_ORIGIN_REJECTED_def
  CLOSE_CONNECTION_LIMIT_def CLOSE_IDLE_TIMEOUT_def CLOSE_AUTH_REQUIRED_def

end
