(* ===== verification/Schemas.thy ===== *)
theory Schemas
  imports Json WsProtocol
begin

text \<open>
  \<open>websocket/schemas.py\<close>: the identifier pattern, the strict inbound envelope, the
  outbound messages and their JSON form, and the UUIDs they carry. What pydantic itself does
  (reading a UUID or a date out of a JSON value, writing a date, whether its regular-expression
  engine lets \<open>$\<close> match before a final newline, what it makes of a \<open>dict[str, Any]\<close>)
  is a parameter, the record \<open>pydantic\<close>.
\<close>

section \<open>UUIDs\<close>

text \<open>The 128-bit value of a \<open>uuid.UUID\<close>.\<close>

type_synonym uuid = nat

definition uuid_valid :: "uuid \<Rightarrow> bool" where
  "uuid_valid v \<longleftrightarrow> v < 2 ^ 128"

text \<open>\<open>str(u)\<close>: hexadecimal, grouped 8-4-4-4-12; \<open>u.hex\<close> is the same without hyphens.\<close>

definition uuid_hex :: "uuid \<Rightarrow> ustr" where
  "uuid_hex v = hex_digits 32 v"

definition uuid_str :: "uuid \<Rightarrow> ustr" where
  "uuid_str v = (let h = uuid_hex v in
     take 8 h @ [45] @ take 4 (drop 8 h) @ [45] @ take 4 (drop 12 h) @ [45]
     @ take 4 (drop 16 h) @ [45] @ drop 20 h)"

text \<open>\<open>int(s, 16)\<close>: optional sign and \<open>0x\<close>, underscores between digits.\<close>

definition hex_or_decimal :: "unicode_db \<Rightarrow> nat \<Rightarrow> nat option" where
  "hex_or_decimal U c = (case hex_value c of Some d \<Rightarrow> Some d | None \<Rightarrow> decimal U c)"

definition drop_0x :: "ustr \<Rightarrow> ustr" where
  "drop_0x s = (case s of
     a # b # r \<Rightarrow> if a = 48 \<and> (b = 120 \<or> b = 88)
                then (case r of c # r' \<Rightarrow> if c = 95 then r' else r | [] \<Rightarrow> r) else s
   | _ \<Rightarrow> s)"

definition py_int16 :: "unicode_db \<Rightarrow> ustr \<Rightarrow> int option" where
  "py_int16 U s =
     (let (sg, r) = split_sign (py_strip (is_space U) s)
      in map_option (\<lambda>ds. sg * digits_value 16 ds) (us_digits (hex_or_decimal U) (drop_0x r)))"

text \<open>\<open>UUID(s)\<close>; \<open>None\<close> is the \<open>ValueError\<close>.\<close>

definition uuid_of_str :: "unicode_db \<Rightarrow> ustr \<Rightarrow> uuid option" where
  "uuid_of_str U s =
     (let h1 = py_delete (lit ''uuid:'') (py_delete (lit ''urn:'') s);
          h2 = py_delete (lit ''-'') (py_strip (\<lambda>c. c = 123 \<or> c = 125) h1)
      in if length h2 \<noteq> 32 then None
         else (case py_int16 U h2 of None \<Rightarrow> None
               | Some v \<Rightarrow> if 0 \<le> v \<and> v < 2 ^ 128 then Some (nat v) else None))"

section \<open>Identifiers\<close>

definition id_start :: "nat \<Rightarrow> bool" where
  "id_start c \<longleftrightarrow> 97 \<le> c \<and> c \<le> 122 \<or> 48 \<le> c \<and> c \<le> 57"

definition id_char :: "nat \<Rightarrow> bool" where
  "id_char c \<longleftrightarrow> id_start c \<or> c = 46 \<or> c = 95 \<or> c = 45"

text \<open>The pattern \<open>[a-z0-9][a-z0-9._-]{lo,hi}\<close> matched against a whole string.\<close>

definition id_pattern :: "nat \<Rightarrow> nat \<Rightarrow> ustr \<Rightarrow> bool" where
  "id_pattern lo hi s = (case s of [] \<Rightarrow> False
     | c # cs \<Rightarrow> id_start c \<and> list_all id_char cs \<and> lo \<le> length cs \<and> length cs \<le> hi)"

definition MAX_IDENTIFIER_LENGTH :: nat where
  "MAX_IDENTIFIER_LENGTH = 64"

definition is_valid_identifier :: "ustr \<Rightarrow> bool" where
  "is_valid_identifier value = id_pattern 0 63 value"

section \<open>Pydantic\<close>

record pydantic =
  pyd_uuid :: "json \<Rightarrow> uuid option"
  pyd_datetime :: "json \<Rightarrow> datetime option"
  pyd_show_datetime :: "datetime \<Rightarrow> ustr"
  pyd_dollar_newline :: bool
  pyd_any_dict :: "(ustr, json) dict \<Rightarrow> (ustr, json) dict"

text \<open>
  The constrained string type \<open>TransportIdentifier\<close>: length between 1 and 64 and the
  pattern with its anchors.
\<close>

definition transport_identifier :: "pydantic \<Rightarrow> ustr \<Rightarrow> bool" where
  "transport_identifier P s \<longleftrightarrow> 1 \<le> length s \<and> length s \<le> MAX_IDENTIFIER_LENGTH \<and>
     (is_valid_identifier s \<or>
      pyd_dollar_newline P \<and> s \<noteq> [] \<and> last s = 10 \<and> is_valid_identifier (butlast s))"

section \<open>The inbound envelope\<close>

record envelope =
  message_id :: uuid
  msg_type :: message_type
  sender :: ustr
  recipient :: "ustr option"
  timestamp :: datetime
  payload :: "(ustr, json) dict"

definition envelope_fields :: "ustr list" where
  "envelope_fields = map lit [''version'', ''message_id'', ''type'', ''sender'', ''recipient'',
     ''timestamp'', ''payload'']"

fun json_str :: "json \<Rightarrow> ustr option" where
  "json_str (JStr s) = Some s"
| "json_str _ = None"

fun json_obj :: "json \<Rightarrow> (ustr, json) dict option" where
  "json_obj (JObj d) = Some d"
| "json_obj _ = None"

definition identifier_field :: "pydantic \<Rightarrow> json \<Rightarrow> ustr option" where
  "identifier_field P j = (case json_str j of
     Some s \<Rightarrow> if transport_identifier P s then Some s else None | None \<Rightarrow> None)"

text \<open>An absent or null recipient is \<open>None\<close>; the outer option is validation failure.\<close>

definition recipient_field :: "pydantic \<Rightarrow> json option \<Rightarrow> ustr option option" where
  "recipient_field P j = (case j of None \<Rightarrow> Some None
     | Some JNull \<Rightarrow> Some None
     | Some v \<Rightarrow> map_option Some (identifier_field P v))"

definition require_timezone :: "datetime \<Rightarrow> datetime option" where
  "require_timezone value = (if tzoff value = None then None else Some value)"

definition payload_field :: "json option \<Rightarrow> (ustr, json) dict option" where
  "payload_field j = (case j of None \<Rightarrow> Some [] | Some v \<Rightarrow> json_obj v)"

text \<open>\<open>InboundEnvelope.model_validate\<close>; \<open>None\<close> is the \<open>ValidationError\<close>.\<close>

definition validate_envelope :: "pydantic \<Rightarrow> (ustr, json) dict \<Rightarrow> envelope option" where
  "validate_envelope P d =
     (if \<not> set (map fst d) \<subseteq> set envelope_fields then None
      else if dict_get d (lit ''version'') \<noteq> Some (JStr PROTOCOL_VERSION) then None
      else (case (Option.bind (dict_get d (lit ''message_id'')) (pyd_uuid P),
                  Option.bind (Option.bind (dict_get d (lit ''type'')) json_str) message_type_of,
                  Option.bind (dict_get d (lit ''sender'')) (identifier_field P),
                  recipient_field P (dict_get d (lit ''recipient'')),
                  Option.bind (Option.bind (dict_get d (lit ''timestamp'')) (pyd_datetime P))
                    require_timezone,
                  payload_field (dict_get d (lit ''payload'')))
            of (Some i, Some t, Some s, Some r, Some ts, Some pl) \<Rightarrow>
                 Some \<lparr>message_id = i, msg_type = t, sender = s, recipient = r, timestamp = ts,
                       payload = pl\<rparr>
             | _ \<Rightarrow> None))"

lemma transport_identifier_length: "transport_identifier P s \<Longrightarrow> 1 \<le> length s \<and> length s \<le> 64"
  by (simp add: transport_identifier_def MAX_IDENTIFIER_LENGTH_def)

lemma identifier_field_Some: "identifier_field P j = Some s \<longleftrightarrow> j = JStr s \<and> transport_identifier P s"
  by (cases j) (auto simp: identifier_field_def)

lemma recipient_field_Some:
  "recipient_field P j = Some (Some s) \<Longrightarrow> transport_identifier P s"
  by (auto simp: recipient_field_def identifier_field_Some split: option.splits json.splits)

lemma require_timezone_Some [simp]: "require_timezone v = Some w \<longleftrightarrow> w = v \<and> tzoff v \<noteq> None"
  by (auto simp: require_timezone_def)

lemma validate_envelope_sound:
  assumes "validate_envelope P d = Some e"
  shows "set (map fst d) \<subseteq> set envelope_fields"
    and "dict_get d (lit ''version'') = Some (JStr PROTOCOL_VERSION)"
    and "Option.bind (dict_get d (lit ''message_id'')) (pyd_uuid P) = Some (message_id e)"
    and "dict_get d (lit ''type'') = Some (JStr (message_type_value (msg_type e)))"
    and "dict_get d (lit ''sender'') = Some (JStr (sender e))"
    and "transport_identifier P (sender e)"
    and "recipient e = Some r \<Longrightarrow> transport_identifier P r"
    and "tzoff (timestamp e) \<noteq> None"
    and "payload_field (dict_get d (lit ''payload'')) = Some (payload e)"
proof -
  note a = assms [unfolded validate_envelope_def]
  show "set (map fst d) \<subseteq> set envelope_fields"
    and "dict_get d (lit ''version'') = Some (JStr PROTOCOL_VERSION)"
    using a by (auto split: if_splits)
  from a obtain i t s r' ts pl where f:
    "Option.bind (dict_get d (lit ''message_id'')) (pyd_uuid P) = Some i"
    "Option.bind (Option.bind (dict_get d (lit ''type'')) json_str) message_type_of = Some t"
    "Option.bind (dict_get d (lit ''sender'')) (identifier_field P) = Some s"
    "recipient_field P (dict_get d (lit ''recipient'')) = Some r'"
    "Option.bind (Option.bind (dict_get d (lit ''timestamp'')) (pyd_datetime P)) require_timezone
       = Some ts"
    "payload_field (dict_get d (lit ''payload'')) = Some pl"
    and e: "e = \<lparr>message_id = i, msg_type = t, sender = s, recipient = r', timestamp = ts,
                 payload = pl\<rparr>"
    by (auto split: if_splits option.splits)
  show "Option.bind (dict_get d (lit ''message_id'')) (pyd_uuid P) = Some (message_id e)"
    using f(1) e by simp
  obtain j where "dict_get d (lit ''type'') = Some j" and "json_str j = Some (message_type_value t)"
    using f(2) by (auto simp: bind_eq_Some_conv message_type_of_Some_iff)
  then show "dict_get d (lit ''type'') = Some (JStr (message_type_value (msg_type e)))"
    using e by (cases j) auto
  show "dict_get d (lit ''sender'') = Some (JStr (sender e))"
    and "transport_identifier P (sender e)"
    using f(3) e by (auto simp: bind_eq_Some_conv identifier_field_Some)
  show "recipient e = Some r \<Longrightarrow> transport_identifier P r"
    using f(4) e recipient_field_Some by auto
  show "tzoff (timestamp e) \<noteq> None"
    using f(5) e by (auto simp: bind_eq_Some_conv)
  show "payload_field (dict_get d (lit ''payload'')) = Some (payload e)"
    using f(6) e by simp
qed

section \<open>Outbound messages\<close>

datatype outbound =
    ConnectionReady ustr pyfloat pyfloat pyfloat int
  | AuthReady uuid ustr ustr ustr
  | MessageReceipt uuid ustr ustr datetime "(ustr, json) dict"
  | DeliveryAck uuid delivery_status
  | HeartbeatPong uuid datetime
  | QueueStatus uuid int
  | ProtocolError ustr ustr "uuid option"

fun outbound_type :: "outbound \<Rightarrow> message_type" where
  "outbound_type (ConnectionReady _ _ _ _ _) = CONNECTION_READY"
| "outbound_type (AuthReady _ _ _ _) = AUTH_READY"
| "outbound_type (MessageReceipt _ _ _ _ _) = MESSAGE_RECEIPT"
| "outbound_type (DeliveryAck _ _) = MESSAGE_DELIVERY_ACK"
| "outbound_type (HeartbeatPong _ _) = HEARTBEAT_PONG"
| "outbound_type (QueueStatus _ _) = QUEUE_STATUS"
| "outbound_type (ProtocolError _ _ _) = PROTOCOL_ERROR"

definition opt_uuid_json :: "uuid option \<Rightarrow> json" where
  "opt_uuid_json i = (case i of None \<Rightarrow> JNull | Some v \<Rightarrow> JStr (uuid_str v))"

text \<open>The fields a subclass adds after \<open>version\<close> and \<open>type\<close>, in declaration order.\<close>

fun outbound_fields :: "pydantic \<Rightarrow> outbound \<Rightarrow> (ustr, json) dict" where
  "outbound_fields P (ConnectionReady cid deadline heartbeat idle mbytes) =
     [(lit ''connection_id'', JStr cid),
      (lit ''authenticated'', JBool False),
      (lit ''identity_status'', JStr (lit ''UNAUTHENTICATED'')),
      (lit ''protocol_version'', JStr PROTOCOL_VERSION),
      (lit ''authentication_required'', JBool True),
      (lit ''authentication_deadline_seconds'', JFloat deadline),
      (lit ''heartbeat_interval_seconds'', JFloat heartbeat),
      (lit ''idle_timeout_seconds'', JFloat idle),
      (lit ''max_message_bytes'', JInt mbytes)]"
| "outbound_fields P (AuthReady mid user_id username session_id) =
     [(lit ''message_id'', JStr (uuid_str mid)),
      (lit ''authenticated'', JBool True),
      (lit ''user_id'', JStr user_id),
      (lit ''username'', JStr username),
      (lit ''session_id'', JStr session_id),
      (lit ''identity_verification_status'', JStr (lit ''not_implemented'')),
      (lit ''encryption_status'', JStr (lit ''not_implemented''))]"
| "outbound_fields P (MessageReceipt mid snd_id rcp ts pl) =
     [(lit ''message_id'', JStr (uuid_str mid)),
      (lit ''sender'', JStr snd_id),
      (lit ''recipient'', JStr rcp),
      (lit ''timestamp'', JStr (pyd_show_datetime P ts)),
      (lit ''payload'', JObj (pyd_any_dict P pl))]"
| "outbound_fields P (DeliveryAck mid status) =
     [(lit ''message_id'', JStr (uuid_str mid)),
      (lit ''status'', JStr (delivery_status_value status))]"
| "outbound_fields P (HeartbeatPong mid server_time) =
     [(lit ''message_id'', JStr (uuid_str mid)),
      (lit ''server_time'', JStr (pyd_show_datetime P server_time))]"
| "outbound_fields P (QueueStatus mid n) =
     [(lit ''message_id'', JStr (uuid_str mid)),
      (lit ''queued_message_count'', JInt n)]"
| "outbound_fields P (ProtocolError code detail mid) =
     [(lit ''code'', JStr code),
      (lit ''detail'', JStr detail),
      (lit ''message_id'', opt_uuid_json mid)]"

text \<open>\<open>_dump(model)\<close>, the model's \<open>model_dump(mode="json")\<close>\<close>

definition dump :: "pydantic \<Rightarrow> outbound \<Rightarrow> json" where
  "dump P m = JObj ((lit ''version'', JStr PROTOCOL_VERSION)
     # (lit ''type'', JStr (message_type_value (outbound_type m))) # outbound_fields P m)"

definition jfield :: "json \<Rightarrow> string \<Rightarrow> json option" where
  "jfield j k = (case j of JObj d \<Rightarrow> dict_get d (lit k) | _ \<Rightarrow> None)"

lemma jfield_type [simp]:
  "jfield (dump P m) ''type'' = Some (JStr (message_type_value (outbound_type m)))"
  by (simp add: dump_def jfield_def)

lemma jfield_receipt [simp]:
  "jfield (dump P (MessageReceipt i s r ts pl)) ''sender'' = Some (JStr s)"
  "jfield (dump P (MessageReceipt i s r ts pl)) ''recipient'' = Some (JStr r)"
  "jfield (dump P (MessageReceipt i s r ts pl)) ''payload'' = Some (JObj (pyd_any_dict P pl))"
  by (simp_all add: dump_def jfield_def)

text \<open>A queued JSON object that is a message on its way to a recipient.\<close>

definition is_receipt :: "json \<Rightarrow> bool" where
  "is_receipt j \<longleftrightarrow> jfield j ''type'' = Some (JStr (message_type_value MESSAGE_RECEIPT))"

lemma is_receipt_dump [simp]: "is_receipt (dump P m) \<longleftrightarrow> outbound_type m = MESSAGE_RECEIPT"
  by (simp only: is_receipt_def jfield_type option.inject json.inject message_type_value_inj)

text \<open>The server never sends a type that only a client may send.\<close>

lemma outbound_type_not_request:
  "outbound_type m \<notin> {MESSAGE_SEND, HEARTBEAT_PING, AUTH_AUTHENTICATE}"
  by (cases m) simp_all

end
