(* ===== verification/TransportLimits.thy ===== *)
theory TransportLimits
  imports PyText
begin

text \<open>
  \<open>websocket/limits.py\<close>: the transport limits and how they are read from the
  environment, the Origin policy, and the fixed-window rate limiter of a connection. An
  environment is the look-up function of \<open>os.environ\<close>.
\<close>

named_theorems limits_env \<open>values read from the environment\<close>

type_synonym environ = "ustr \<Rightarrow> ustr option"

section \<open>Reading the environment\<close>

definition default_origins :: "ustr list" where
  "default_origins = [lit ''http://localhost:5173'', lit ''http://127.0.0.1:5173'']"

definition int_env :: "unicode_db \<Rightarrow> environ \<Rightarrow> ustr \<Rightarrow> int \<Rightarrow> int" where
  "int_env U env name dflt =
     (case env name of
        None \<Rightarrow> dflt
      | Some raw \<Rightarrow>
          if py_strip (is_space U) raw = [] then dflt
          else (case py_int U raw of
                  None \<Rightarrow> dflt
                | Some v \<Rightarrow> if v > 0 then v else dflt))"

definition float_env :: "unicode_db \<Rightarrow> environ \<Rightarrow> ustr \<Rightarrow> pyfloat \<Rightarrow> pyfloat" where
  "float_env U env name dflt =
     (case env name of
        None \<Rightarrow> dflt
      | Some raw \<Rightarrow>
          if py_strip (is_space U) raw = [] then dflt
          else (case py_float U raw of
                  None \<Rightarrow> dflt
                | Some v \<Rightarrow> if fl_lt (Fin 0) v then v else dflt))"

definition origins_env :: "unicode_db \<Rightarrow> environ \<Rightarrow> ustr \<Rightarrow> ustr list \<Rightarrow> ustr list" where
  "origins_env U env name dflt =
     (case env name of
        None \<Rightarrow> dflt
      | Some raw \<Rightarrow>
          if py_strip (is_space U) raw = [] then dflt
          else (let parsed = map (py_strip (is_space U))
                      (filter (\<lambda>item. py_strip (is_space U) item \<noteq> []
                          \<and> py_strip (is_space U) item \<noteq> lit ''*'') (py_split 44 raw))
                in if parsed = [] then dflt else parsed))"

lemma int_env_pos [limits_env]: "0 < dflt \<Longrightarrow> 0 < int_env U env name dflt"
  by (simp add: int_env_def split: option.split)

lemma float_env_pos [limits_env]: "fl_lt (Fin 0) dflt \<Longrightarrow> fl_lt (Fin 0) (float_env U env name dflt)"
  by (simp add: float_env_def split: option.split)

lemma origins_env_no_wildcard [limits_env]:
  "lit ''*'' \<notin> set dflt \<Longrightarrow> lit ''*'' \<notin> set (origins_env U env name dflt)"
  by (auto simp: origins_env_def Let_def split: option.splits)

lemma origins_env_nonempty [limits_env]:
  "dflt \<noteq> [] \<Longrightarrow> origins_env U env name dflt \<noteq> []"
  by (auto simp: origins_env_def Let_def split: option.splits)

lemma origins_env_no_blank [limits_env]:
  "[] \<notin> set dflt \<Longrightarrow> [] \<notin> set (origins_env U env name dflt)"
  by (auto simp: origins_env_def Let_def split: option.splits)

section \<open>The limits\<close>

record transport_limits =
  max_message_bytes :: int
  max_identifier_length :: int
  max_total_connections :: int
  max_connections_per_client :: int
  max_messages_per_window :: int
  rate_limit_window_seconds :: pyfloat
  max_pending_outbound :: int
  max_queued_per_recipient :: int
  max_queued_recipients :: int
  idle_timeout_seconds :: pyfloat
  heartbeat_interval_seconds :: pyfloat
  unauthenticated_timeout_seconds :: pyfloat
  allowed_origins :: "ustr list"
  allow_missing_origin :: bool

text \<open>The dataclass defaults.\<close>

definition transport_limits_defaults :: transport_limits where
  "transport_limits_defaults = \<lparr>
     max_message_bytes = 64 * 1024,
     max_identifier_length = 64,
     max_total_connections = 500,
     max_connections_per_client = 3,
     max_messages_per_window = 30,
     rate_limit_window_seconds = Fin 1,
     max_pending_outbound = 100,
     max_queued_per_recipient = 50,
     max_queued_recipients = 500,
     idle_timeout_seconds = Fin 60,
     heartbeat_interval_seconds = Fin 20,
     unauthenticated_timeout_seconds = Fin 15,
     allowed_origins = default_origins,
     allow_missing_origin = True\<rparr>"

definition is_origin_allowed :: "transport_limits \<Rightarrow> ustr option \<Rightarrow> bool" where
  "is_origin_allowed l origin = (case origin of
     None \<Rightarrow> allow_missing_origin l
   | Some value \<Rightarrow> value \<in> set (allowed_origins l))"

definition default_limits :: "unicode_db \<Rightarrow> environ \<Rightarrow> transport_limits" where
  "default_limits U env = transport_limits_defaults\<lparr>
     max_message_bytes := int_env U env (lit ''WS_MAX_MESSAGE_BYTES'') (64 * 1024),
     max_identifier_length := int_env U env (lit ''WS_MAX_IDENTIFIER_LENGTH'') 64,
     max_total_connections := int_env U env (lit ''WS_MAX_TOTAL_CONNECTIONS'') 500,
     max_connections_per_client := int_env U env (lit ''WS_MAX_CONNECTIONS_PER_CLIENT'') 3,
     max_messages_per_window := int_env U env (lit ''WS_MAX_MESSAGES_PER_WINDOW'') 30,
     rate_limit_window_seconds := float_env U env (lit ''WS_RATE_LIMIT_WINDOW_SECONDS'') (Fin 1),
     max_pending_outbound := int_env U env (lit ''WS_MAX_PENDING_OUTBOUND'') 100,
     max_queued_per_recipient := int_env U env (lit ''WS_MAX_QUEUED_PER_RECIPIENT'') 50,
     max_queued_recipients := int_env U env (lit ''WS_MAX_QUEUED_RECIPIENTS'') 500,
     idle_timeout_seconds := float_env U env (lit ''WS_IDLE_TIMEOUT_SECONDS'') (Fin 60),
     unauthenticated_timeout_seconds :=
       float_env U env (lit ''WS_UNAUTHENTICATED_TIMEOUT_SECONDS'') (Fin 15),
     heartbeat_interval_seconds := float_env U env (lit ''WS_HEARTBEAT_INTERVAL_SECONDS'') (Fin 20),
     allowed_origins := origins_env U env (lit ''WS_ALLOWED_ORIGINS'') default_origins\<rparr>"

text \<open>What every bound of the transport relies on.\<close>

definition limits_ok :: "transport_limits \<Rightarrow> bool" where
  "limits_ok l \<longleftrightarrow> 0 < max_message_bytes l \<and> 0 < max_identifier_length l
     \<and> 0 < max_total_connections l \<and> 0 < max_connections_per_client l
     \<and> 0 < max_messages_per_window l \<and> fl_lt (Fin 0) (rate_limit_window_seconds l)
     \<and> 0 < max_pending_outbound l \<and> 0 < max_queued_per_recipient l
     \<and> 0 < max_queued_recipients l \<and> fl_lt (Fin 0) (idle_timeout_seconds l)
     \<and> fl_lt (Fin 0) (heartbeat_interval_seconds l)
     \<and> fl_lt (Fin 0) (unauthenticated_timeout_seconds l)
     \<and> allowed_origins l \<noteq> [] \<and> [] \<notin> set (allowed_origins l)
     \<and> lit ''*'' \<notin> set (allowed_origins l)"

lemma default_limits_ok: "limits_ok (default_limits U env)"
  by (simp add: limits_ok_def default_limits_def transport_limits_defaults_def
      default_origins_def limits_env)

section \<open>The rate limiter\<close>

record rate_limiter =
  max_messages :: int
  window_seconds :: pyfloat
  window_started_at :: rat
  msg_count :: int

definition new_limiter :: "int \<Rightarrow> pyfloat \<Rightarrow> rate_limiter" where
  "new_limiter n w = \<lparr>max_messages = n, window_seconds = w, window_started_at = 0, msg_count = 0\<rparr>"

definition allow :: "rate_limiter \<Rightarrow> rat \<Rightarrow> rate_limiter \<times> bool" where
  "allow r now =
     (let r1 = (if fl_le (window_seconds r) (Fin (now - window_started_at r))
                then r\<lparr>window_started_at := now, msg_count := 0\<rparr> else r);
          r2 = r1\<lparr>msg_count := msg_count r1 + 1\<rparr>
      in (r2, msg_count r2 \<le> max_messages r2))"

text \<open>The verdicts on a series of messages.\<close>

fun allow_run :: "rate_limiter \<Rightarrow> rat list \<Rightarrow> (rat \<times> bool) list" where
  "allow_run r [] = []"
| "allow_run r (t # ts) = (case allow r t of (r', ok) \<Rightarrow> (t, ok) # allow_run r' ts)"

definition passed_before :: "rat \<Rightarrow> (rat \<times> bool) list \<Rightarrow> int" where
  "passed_before b vs = int (length (filter (\<lambda>(x, ok). ok \<and> x < b) vs))"

definition passed_between :: "rat \<Rightarrow> rat \<Rightarrow> (rat \<times> bool) list \<Rightarrow> int" where
  "passed_between a b vs = int (length (filter (\<lambda>(x, ok). ok \<and> a \<le> x \<and> x < b) vs))"

lemma allow_fixed [simp]:
  "max_messages (fst (allow r t)) = max_messages r"
  "window_seconds (fst (allow r t)) = window_seconds r"
  by (simp_all add: allow_def Let_def)

lemma allow_cases:
  assumes "window_seconds r = Fin w"
  shows "allow r t =
    (if t < window_started_at r + w
     then (r\<lparr>msg_count := msg_count r + 1\<rparr>, msg_count r + 1 \<le> max_messages r)
     else (r\<lparr>window_started_at := t, msg_count := 1\<rparr>, 1 \<le> max_messages r))"
  using assms by (auto simp: allow_def Let_def algebra_simps not_le not_less)

lemma passed_Nil [simp]: "passed_before b [] = 0" "passed_between a b [] = 0"
  by (simp_all add: passed_before_def passed_between_def)

lemma passed_Cons [simp]:
  "passed_before b ((x, ok) # vs) = (if ok \<and> x < b then 1 else 0) + passed_before b vs"
  "passed_between a b ((x, ok) # vs) = (if ok \<and> a \<le> x \<and> x < b then 1 else 0) + passed_between a b vs"
  by (simp_all add: passed_before_def passed_between_def)

lemma passed_before_mono: "b \<le> c \<Longrightarrow> passed_before b vs \<le> passed_before c vs"
  by (induction vs) (auto simp: passed_before_def)

lemma passed_before_none: "\<forall>t \<in> set ts. b \<le> t \<Longrightarrow> passed_before b (allow_run r ts) = 0"
  by (induction ts arbitrary: r) (auto split: prod.splits)

lemma passed_between_le: "passed_between a b vs \<le> passed_before b vs"
  by (induction vs) (auto simp: passed_between_def passed_before_def)

text \<open>Until the current window ends, only what is left of its budget passes.\<close>

lemma passed_in_window:
  assumes "sorted ts" and "window_seconds r = Fin w"
  shows "passed_before (window_started_at r + w) (allow_run r ts) \<le> max 0 (max_messages r - msg_count r)"
  using assms
proof (induction ts arbitrary: r)
  case Nil
  then show ?case by simp
next
  case (Cons t ts)
  show ?case
  proof (cases "t < window_started_at r + w")
    case True
    with Cons.IH [of "r\<lparr>msg_count := msg_count r + 1\<rparr>"] Cons.prems show ?thesis
      by (auto simp: allow_cases)
  next
    case False
    with Cons.prems have "\<forall>x \<in> set (t # ts). window_started_at r + w \<le> x" by auto
    then show ?thesis using passed_before_none by (metis max.cobounded1)
  qed
qed

text \<open>From \<open>t0\<close> on, at most one new window opens in a stretch of one window length.\<close>

lemma passed_in_stretch:
  assumes "sorted ts" and "window_seconds r = Fin w" and "\<forall>t \<in> set ts. t0 \<le> t"
  shows "passed_before (t0 + w) (allow_run r ts)
    \<le> max 0 (max_messages r - msg_count r) + max 0 (max_messages r)"
  using assms
proof (induction ts arbitrary: r)
  case Nil
  then show ?case by simp
next
  case (Cons t ts)
  show ?case
  proof (cases "t < window_started_at r + w")
    case True
    with Cons.IH [of "r\<lparr>msg_count := msg_count r + 1\<rparr>"] Cons.prems show ?thesis
      by (auto simp: allow_cases)
  next
    case False
    let ?r = "r\<lparr>window_started_at := t, msg_count := 1\<rparr>"
    have "passed_before (t0 + w) (allow_run ?r ts) \<le> passed_before (t + w) (allow_run ?r ts)"
      using Cons.prems(3) by (intro passed_before_mono) simp
    also have "\<dots> \<le> max 0 (max_messages r - 1)"
      using passed_in_window [of ts ?r w] Cons.prems by simp
    finally show ?thesis using False Cons.prems by (auto simp: allow_cases)
  qed
qed

lemma passed_sliding:
  assumes "sorted ts" and "window_seconds r = Fin w" and "0 \<le> msg_count r"
  shows "passed_between t0 (t0 + w) (allow_run r ts) \<le> 2 * max 0 (max_messages r)"
  using assms
proof (induction ts arbitrary: r)
  case Nil
  then show ?case by simp
next
  case (Cons t ts)
  show ?case
  proof (cases "t < t0")
    case True
    with Cons.prems Cons.IH [of "r\<lparr>msg_count := msg_count r + 1\<rparr>"]
      Cons.IH [of "r\<lparr>window_started_at := t, msg_count := 1\<rparr>"]
    show ?thesis by (simp add: allow_cases)
  next
    case False
    with Cons.prems(1) have "\<forall>x \<in> set (t # ts). t0 \<le> x" by auto
    from passed_in_stretch [OF Cons.prems(1,2) this] Cons.prems(3)
      passed_between_le [of t0 "t0 + w" "allow_run r (t # ts)"]
    show ?thesis by linarith
  qed
qed

end
