(* ===== verification/AuthConfig.thy ===== *)
theory AuthConfig
  imports TransportLimits Logging
begin

text \<open>
  \<open>auth/config.py\<close>: the authentication settings and how they are read from the
  environment. The ephemeral secret \<open>secrets.token_urlsafe(64)\<close> is an argument, drawn by
  the caller.
\<close>

definition MIN_SIGNING_SECRET_LENGTH :: nat where
  "MIN_SIGNING_SECRET_LENGTH = 32"

definition auth_int_env :: "unicode_db \<Rightarrow> environ \<Rightarrow> ustr \<Rightarrow> int \<Rightarrow> int \<Rightarrow> int" where
  "auth_int_env U env name dflt minimum =
     (case env name of
        None \<Rightarrow> dflt
      | Some raw \<Rightarrow>
          if py_strip (is_space U) raw = [] then dflt
          else (case py_int U raw of
                  None \<Rightarrow> dflt
                | Some v \<Rightarrow> if v \<ge> minimum then v else dflt))"

text \<open>The secret and the warnings logged on the way.\<close>

definition load_signing_secret ::
  "unicode_db \<Rightarrow> environ \<Rightarrow> ustr \<Rightarrow> ustr \<times> log_record list" where
  "load_signing_secret U env ephemeral =
     (let configured = py_strip (is_space U)
            (case env (lit ''AUTH_SIGNING_SECRET'') of None \<Rightarrow> [] | Some s \<Rightarrow> s)
      in if configured = []
         then (ephemeral, [[(lit ''event'', LStr (lit ''auth_signing_secret_missing'')),
            (lit ''detail'', LStr (lit ''AUTH_SIGNING_SECRET is not set; generated an ephemeral per-process secret. All sessions become invalid on restart. Set it explicitly outside development.''))]])
         else if length configured < MIN_SIGNING_SECRET_LENGTH
         then (configured, [[(lit ''event'', LStr (lit ''auth_signing_secret_weak'')),
            (lit ''minimum_length'', LInt (int MIN_SIGNING_SECRET_LENGTH))]])
         else (configured, []))"

record auth_config =
  signing_secret :: ustr
  algorithm :: ustr
  issuer :: ustr
  audience :: ustr
  access_token_ttl_minutes :: int
  refresh_session_ttl_days :: int
  min_password_length :: int
  max_password_length :: int
  min_username_length :: int
  max_username_length :: int
  max_failed_logins_per_account :: int
  failed_login_window_seconds :: rat
  argon2_time_cost :: int
  argon2_memory_cost_kib :: int
  argon2_parallelism :: int

text \<open>\<open>AuthConfig(signing_secret=secret)\<close> with the dataclass defaults.\<close>

definition auth_config_defaults :: "ustr \<Rightarrow> auth_config" where
  "auth_config_defaults secret = \<lparr>
     signing_secret = secret,
     algorithm = lit ''HS256'',
     issuer = lit ''encrypted-chat-app'',
     audience = lit ''encrypted-chat-app-client'',
     access_token_ttl_minutes = 15,
     refresh_session_ttl_days = 14,
     min_password_length = 12,
     max_password_length = 1024,
     min_username_length = 3,
     max_username_length = 32,
     max_failed_logins_per_account = 10,
     failed_login_window_seconds = 300,
     argon2_time_cost = 3,
     argon2_memory_cost_kib = 65536,
     argon2_parallelism = 4\<rparr>"

definition default_auth_config ::
  "unicode_db \<Rightarrow> environ \<Rightarrow> ustr \<Rightarrow> auth_config \<times> log_record list" where
  "default_auth_config U env ephemeral =
     (case load_signing_secret U env ephemeral of (secret, warnings) \<Rightarrow>
       ((auth_config_defaults secret)\<lparr>
          access_token_ttl_minutes := auth_int_env U env (lit ''ACCESS_TOKEN_TTL_MINUTES'') 15 1,
          refresh_session_ttl_days := auth_int_env U env (lit ''REFRESH_SESSION_TTL_DAYS'') 14 1,
          min_password_length := auth_int_env U env (lit ''AUTH_MIN_PASSWORD_LENGTH'') 12 8,
          max_failed_logins_per_account := auth_int_env U env (lit ''AUTH_MAX_FAILED_LOGINS'') 10 1,
          failed_login_window_seconds :=
            of_int (auth_int_env U env (lit ''AUTH_FAILED_LOGIN_WINDOW_SECONDS'') 300 1),
          argon2_time_cost := auth_int_env U env (lit ''ARGON2_TIME_COST'') 3 1,
          argon2_memory_cost_kib := auth_int_env U env (lit ''ARGON2_MEMORY_COST_KIB'') 65536 1,
          argon2_parallelism := auth_int_env U env (lit ''ARGON2_PARALLELISM'') 4 1\<rparr>, warnings))"

lemma auth_int_env_min: "minimum \<le> dflt \<Longrightarrow> minimum \<le> auth_int_env U env name dflt minimum"
  by (simp add: auth_int_env_def split: option.split)

definition auth_config_ok :: "auth_config \<Rightarrow> bool" where
  "auth_config_ok c \<longleftrightarrow> 1 \<le> access_token_ttl_minutes c \<and> 1 \<le> refresh_session_ttl_days c \<and>
     8 \<le> min_password_length c \<and> 1 \<le> max_failed_logins_per_account c \<and>
     1 \<le> failed_login_window_seconds c \<and> 1 \<le> argon2_time_cost c \<and>
     1 \<le> argon2_memory_cost_kib c \<and> 1 \<le> argon2_parallelism c \<and> signing_secret c \<noteq> []"

lemma load_signing_secret_nonempty:
  "ephemeral \<noteq> [] \<Longrightarrow> fst (load_signing_secret U env ephemeral) \<noteq> []"
  by (simp add: load_signing_secret_def Let_def)

text \<open>A weak or missing secret never passes silently.\<close>

lemma load_signing_secret_warns:
  assumes "load_signing_secret U env ephemeral = (secret, [])"
  shows "MIN_SIGNING_SECRET_LENGTH \<le> length secret"
    and "\<exists>raw. env (lit ''AUTH_SIGNING_SECRET'') = Some raw \<and> secret = py_strip (is_space U) raw"
  using assms
  by (auto simp: load_signing_secret_def Let_def py_strip_def split: option.splits if_splits)

lemma default_auth_config_ok:
  assumes "ephemeral \<noteq> []"
  shows "auth_config_ok (fst (default_auth_config U env ephemeral))"
proof -
  obtain s w where s: "load_signing_secret U env ephemeral = (s, w)" by fastforce
  have "s \<noteq> []" using load_signing_secret_nonempty [OF assms, of U env] s by simp
  moreover have "(1 :: rat) \<le> of_int (auth_int_env U env (lit ''AUTH_FAILED_LOGIN_WINDOW_SECONDS'') 300 1)"
    using auth_int_env_min [of 1 300] by simp
  ultimately show ?thesis
    by (simp add: auth_config_ok_def default_auth_config_def auth_config_defaults_def s
        auth_int_env_min)
qed

end
