(* ===== verification/Password.thy ===== *)
theory Password
  imports AuthConfig AuthErrors
begin

text \<open>
  \<open>auth/password.py\<close>: the password policy and the Argon2id wrapper. The library
  \<open>argon2-cffi\<close> is a parameter, the record \<open>argon2\<close>; \<open>argon2_ok\<close> is what its
  documentation promises. Hashing salts are arguments.
\<close>

record a2_params =
  time_cost :: int
  memory_cost :: int
  parallelism :: int

datatype a2_verdict = A2Match | VerifyMismatchError | VerificationError | InvalidHashError

record argon2 =
  a2_hash :: "a2_params \<Rightarrow> nat \<Rightarrow> ustr \<Rightarrow> ustr"
  a2_verify :: "ustr \<Rightarrow> ustr \<Rightarrow> a2_verdict"
  a2_extract :: "ustr \<Rightarrow> a2_params option"

text \<open>
  A hash verifies exactly the password it was made from, whatever the parameters and the
  salt, and carries its parameters.
\<close>

definition argon2_ok :: "argon2 \<Rightarrow> bool" where
  "argon2_ok A \<longleftrightarrow> (\<forall>p salt pw. a2_extract A (a2_hash A p salt pw) = Some p) \<and>
     (\<forall>p salt pw pw'. a2_verify A (a2_hash A p salt pw) pw' =
        (if pw' = pw then A2Match else VerifyMismatchError))"

datatype password_policy_error =
  PasswordEmpty | PasswordTooShort int | PasswordTooLong int | PasswordNotEncodable

definition hasher_params :: "auth_config \<Rightarrow> a2_params" where
  "hasher_params c = \<lparr>time_cost = argon2_time_cost c, memory_cost = argon2_memory_cost_kib c,
     parallelism = argon2_parallelism c\<rparr>"

text \<open>
  \<open>validate_policy\<close>: the length is counted in UTF-8 bytes; a password that has none
  raises the \<open>UnicodeEncodeError\<close> of \<open>encode\<close>.
\<close>

definition validate_policy :: "auth_config \<Rightarrow> ustr \<Rightarrow> password_policy_error option" where
  "validate_policy c password =
     (if password = [] then Some PasswordEmpty
      else (case utf8_encode password of
              None \<Rightarrow> Some PasswordNotEncodable
            | Some bytes \<Rightarrow>
                if int (length bytes) < min_password_length c
                then Some (PasswordTooShort (min_password_length c))
                else if int (length bytes) > max_password_length c
                then Some (PasswordTooLong (max_password_length c))
                else None))"

fun policy_reason :: "password_policy_error \<Rightarrow> ustr" where
  "policy_reason PasswordEmpty = lit ''password must not be empty''"
| "policy_reason (PasswordTooShort n) =
     lit ''password must be at least '' @ int_str n @ lit '' bytes''"
| "policy_reason (PasswordTooLong n) =
     lit ''password must be at most '' @ int_str n @ lit '' bytes''"
| "policy_reason PasswordNotEncodable = []"

definition normalize_password :: "unicode_db \<Rightarrow> ustr \<Rightarrow> ustr" where
  "normalize_password U password = nfkc U password"

definition hash_password :: "argon2 \<Rightarrow> unicode_db \<Rightarrow> auth_config \<Rightarrow> nat \<Rightarrow> ustr \<Rightarrow> ustr" where
  "hash_password A U c salt password = a2_hash A (hasher_params c) salt (normalize_password U password)"

definition verify_password :: "argon2 \<Rightarrow> unicode_db \<Rightarrow> ustr \<Rightarrow> ustr \<Rightarrow> bool" where
  "verify_password A U stored_hash password =
     (case a2_verify A stored_hash (normalize_password U password) of
        VerifyMismatchError \<Rightarrow> False
      | VerificationError \<Rightarrow> False
      | InvalidHashError \<Rightarrow> False
      | A2Match \<Rightarrow> True)"

definition needs_rehash :: "argon2 \<Rightarrow> auth_config \<Rightarrow> ustr \<Rightarrow> bool" where
  "needs_rehash A c stored_hash =
     (case a2_extract A stored_hash of None \<Rightarrow> True | Some p \<Rightarrow> p \<noteq> hasher_params c)"

text \<open>The module constant \<open>_DUMMY_HASH\<close>; its parameters are literals, not the configured ones.\<close>

definition dummy_params :: a2_params where
  "dummy_params = \<lparr>time_cost = 3, memory_cost = 65536, parallelism = 4\<rparr>"

definition DUMMY_HASH :: "argon2 \<Rightarrow> nat \<Rightarrow> ustr" where
  "DUMMY_HASH A salt = a2_hash A dummy_params salt (lit ''dummy-password-for-timing-equalization'')"

lemma verify_own_hash:
  assumes "argon2_ok A"
  shows "verify_password A U (hash_password A U c salt pw) pw' \<longleftrightarrow>
    normalize_password U pw' = normalize_password U pw"
  using assms by (simp add: argon2_ok_def verify_password_def hash_password_def)

lemma fresh_hash_no_rehash:
  assumes "argon2_ok A"
  shows "\<not> needs_rehash A c (hash_password A U c salt pw)"
  using assms by (simp add: argon2_ok_def needs_rehash_def hash_password_def)

text \<open>A policy-conforming password is never longer, in characters, than the byte bound.\<close>

lemma validate_policy_bounds:
  assumes "validate_policy c pw = None"
  obtains bytes where "utf8_encode pw = Some bytes"
    and "min_password_length c \<le> int (length bytes)" and "int (length bytes) \<le> max_password_length c"
    and "int (length pw) \<le> max_password_length c" and "min_password_length c \<le> 4 * int (length pw)"
proof -
  obtain bytes where b: "utf8_encode pw = Some bytes"
    "min_password_length c \<le> int (length bytes)" "int (length bytes) \<le> max_password_length c"
    using assms by (auto simp: validate_policy_def split: if_splits option.splits)
  from utf8_encode_length [OF b(1)] have "int (length pw) \<le> int (length bytes)"
    and "int (length bytes) \<le> 4 * int (length pw)" by linarith+
  with b show thesis by (intro that [of bytes]) auto
qed

end
