(* ===== verification/Tokens.thy ===== *)
theory Tokens
  imports Schemas Password
begin

text \<open>
  \<open>auth/tokens.py\<close>: JWT access tokens and opaque refresh tokens. PyJWT is a parameter,
  the record \<open>jwt_lib\<close>, with \<open>jwt_ok\<close> for its documented behaviour; SHA-256 is the
  function \<open>sha256\<close> of the service's environment. Clock readings, the \<open>jti\<close> and the
  random bytes are arguments.
\<close>

section \<open>PyJWT\<close>

text \<open>
  What \<open>jwt.decode\<close> does with a token. \<open>TokenNotEncodable\<close> is the \<open>UnicodeEncodeError\<close> of a token
  with a lone surrogate, which is none of PyJWT's own errors.
\<close>

datatype jwt_verdict =
    JwtClaims "(ustr, json) dict" | ExpiredSignatureError | InvalidTokenError ustr | TokenNotEncodable

record jwt_lib =
  jwt_encode :: "(ustr, json) dict \<Rightarrow> ustr \<Rightarrow> ustr \<Rightarrow> ustr"
  jwt_decode :: "ustr \<Rightarrow> ustr \<Rightarrow> ustr \<Rightarrow> ustr \<Rightarrow> ustr \<Rightarrow> ustr list \<Rightarrow> datetime \<Rightarrow> jwt_verdict"

text \<open>Whether PyJWT accepts a set of claims at this moment.\<close>

definition claims_present :: "ustr list \<Rightarrow> (ustr, json) dict \<Rightarrow> bool" where
  "claims_present req claims \<longleftrightarrow> (\<forall>k \<in> set req. dict_get claims k \<noteq> None)"

fun plain_claim :: "json \<Rightarrow> bool" where
  "plain_claim (JStr _) = True"
| "plain_claim (JInt _) = True"
| "plain_claim _ = False"

text \<open>
  Decoding an \<open>HS256\<close> token that was encoded with the same key, a key PyJWT takes as an
  HMAC secret: when the claims are strings and integers under distinct names, issuer and
  audience match, the required ones are there, subject and token id are strings, none sets
  \<open>nbf\<close> and the token was not issued in the future, the claims come back until the second
  \<open>exp\<close> is reached, and \<open>ExpiredSignatureError\<close> from then on.
\<close>

definition jwt_ok :: "jwt_lib \<Rightarrow> ustr \<Rightarrow> bool" where
  "jwt_ok J key \<longleftrightarrow> (\<forall>claims iss aud sub jti req now iat ex.
     dict_ok claims \<longrightarrow> list_all (\<lambda>(k, v). plain_claim v) claims \<longrightarrow>
     dict_get claims (lit ''nbf'') = None \<longrightarrow>
     dict_get claims (lit ''sub'') = Some (JStr sub) \<longrightarrow>
     dict_get claims (lit ''jti'') = Some (JStr jti) \<longrightarrow>
     claims_present req claims \<longrightarrow> dict_get claims (lit ''iss'') = Some (JStr iss) \<longrightarrow>
     dict_get claims (lit ''aud'') = Some (JStr aud) \<longrightarrow>
     dict_get claims (lit ''iat'') = Some (JInt iat) \<longrightarrow> dict_get claims (lit ''exp'') = Some (JInt ex) \<longrightarrow>
     iat \<le> int_timestamp now \<longrightarrow>
     jwt_decode J (jwt_encode J claims key (lit ''HS256'')) key (lit ''HS256'') iss aud req now =
       (if ex \<le> int_timestamp now then ExpiredSignatureError else JwtClaims claims))"

section \<open>Claims\<close>

record access_token_claims =
  c_user_id :: ustr
  c_session_id :: ustr
  c_token_id :: ustr
  c_issued_at :: datetime
  c_expires_at :: datetime

definition TOKEN_ACCESS :: ustr where
  "TOKEN_ACCESS = lit ''access''"

definition minutes_us :: "int \<Rightarrow> int" where
  "minutes_us n = n * 60 * 1000000"

definition days_us :: "int \<Rightarrow> int" where
  "days_us n = n * 86400 * 1000000"

definition access_claims :: "auth_config \<Rightarrow> ustr \<Rightarrow> ustr \<Rightarrow> ustr \<Rightarrow> datetime \<Rightarrow> (ustr, json) dict" where
  "access_claims c uid sid jti issued_at =
     (let expires_at = dt_add issued_at (minutes_us (access_token_ttl_minutes c))
      in [(lit ''sub'', JStr uid),
          (lit ''sid'', JStr sid),
          (lit ''jti'', JStr jti),
          (lit ''iat'', JInt (int_timestamp issued_at)),
          (lit ''exp'', JInt (int_timestamp expires_at)),
          (lit ''iss'', JStr (issuer c)),
          (lit ''aud'', JStr (audience c)),
          (lit ''token_type'', JStr TOKEN_ACCESS)])"

definition issue_access_token ::
  "jwt_lib \<Rightarrow> auth_config \<Rightarrow> ustr \<Rightarrow> ustr \<Rightarrow> ustr \<Rightarrow> datetime \<Rightarrow> ustr" where
  "issue_access_token J c uid sid jti now =
     jwt_encode J (access_claims c uid sid jti now) (signing_secret c) (algorithm c)"

text \<open>
  \<open>int(v)\<close> of a claim and \<open>datetime.fromtimestamp(n, tz=UTC)\<close>, which is defined for the
  years 1 to 9999.
\<close>

definition claim_int :: "unicode_db \<Rightarrow> json \<Rightarrow> exn + int" where
  "claim_int U j = (case j of
     JInt i \<Rightarrow> Inr i
   | JBool b \<Rightarrow> Inr (if b then 1 else 0)
   | JFloat (Fin r) \<Rightarrow> Inr (if r \<ge> 0 then \<lfloor>r\<rfloor> else \<lceil>r\<rceil>)
   | JFloat _ \<Rightarrow> Inl ValueError
   | JStr s \<Rightarrow> (case py_int U s of Some i \<Rightarrow> Inr i | None \<Rightarrow> Inl ValueError)
   | _ \<Rightarrow> Inl TypeError)"

definition claim_time :: "unicode_db \<Rightarrow> json option \<Rightarrow> exn + datetime" where
  "claim_time U j = (case j of
     None \<Rightarrow> Inl KeyError
   | Some v \<Rightarrow> (case claim_int U v of
        Inl e \<Rightarrow> Inl e
      | Inr n \<Rightarrow> if -62135596800 \<le> n \<and> n < 253402300800 then Inr (from_timestamp n)
                else Inl ValueError))"

definition required_claims :: "ustr list" where
  "required_claims = map lit [''exp'', ''iat'', ''sub'', ''iss'', ''aud'']"

definition decode_access_token ::
  "jwt_lib \<Rightarrow> unicode_db \<Rightarrow> auth_config \<Rightarrow> datetime \<Rightarrow> ustr \<Rightarrow> exn + access_token_claims" where
  "decode_access_token J U c now token =
     (case jwt_decode J token (signing_secret c) (algorithm c) (issuer c) (audience c)
             required_claims now of
        ExpiredSignatureError \<Rightarrow> Inl (auth_raise AUTH_TOKEN_EXPIRED (lit ''access token expired''))
      | InvalidTokenError name \<Rightarrow> Inl (auth_raise AUTH_TOKEN_INVALID (lit ''invalid token: '' @ name))
      | TokenNotEncodable \<Rightarrow> Inl UnicodeEncodeError
      | JwtClaims pl \<Rightarrow>
          if dict_get pl (lit ''token_type'') \<noteq> Some (JStr TOKEN_ACCESS)
          then Inl (auth_raise AUTH_TOKEN_INVALID (lit ''wrong token type presented''))
          else (case (Option.bind (dict_get pl (lit ''sub'')) json_str,
                      Option.bind (dict_get pl (lit ''sid'')) json_str,
                      Option.bind (dict_get pl (lit ''jti'')) json_str) of
                  (Some uid, Some sid, Some jti) \<Rightarrow>
                    (case claim_time U (dict_get pl (lit ''iat'')) of
                       Inl e \<Rightarrow> Inl e
                     | Inr iat \<Rightarrow>
                         (case claim_time U (dict_get pl (lit ''exp'')) of
                            Inl e \<Rightarrow> Inl e
                          | Inr ex \<Rightarrow> Inr \<lparr>c_user_id = uid, c_session_id = sid, c_token_id = jti,
                                           c_issued_at = iat, c_expires_at = ex\<rparr>))
                | _ \<Rightarrow> Inl (auth_raise AUTH_TOKEN_INVALID (lit ''token claims malformed''))))"

definition refresh_expiry :: "auth_config \<Rightarrow> datetime \<Rightarrow> datetime" where
  "refresh_expiry c now = dt_add now (days_us (refresh_session_ttl_days c))"

text \<open>
  \<open>hash_refresh_token\<close>: the SHA-256 hex digest of the UTF-8 bytes; \<open>encode\<close> raises on
  a token with a lone surrogate.
\<close>

definition hash_refresh_token :: "(nat list \<Rightarrow> ustr) \<Rightarrow> ustr \<Rightarrow> exn + ustr" where
  "hash_refresh_token sha256 token =
     (case utf8_encode token of None \<Rightarrow> Inl UnicodeEncodeError | Some b \<Rightarrow> Inr (sha256 b))"

lemma int_timestamp_utc:
  "int_timestamp (utc t) = (if t \<ge> 0 then t div 1000000 else - ((- t) div 1000000))"
  by (simp add: int_timestamp_def utc_def Let_def)

lemma claim_time_int:
  assumes "-62135596800 \<le> n" and "n < 253402300800"
  shows "claim_time U (Some (JInt n)) = Inr (from_timestamp n)"
  using assms by (simp add: claim_time_def claim_int_def)

text \<open>Issuing and then decoding, before and after the expiry second.\<close>

lemma decode_issued:
  assumes J: "jwt_ok J (signing_secret c)" and alg: "algorithm c = lit ''HS256''"
    and t: "0 \<le> t" "t \<le> now" "0 \<le> access_token_ttl_minutes c"
    and range: "t + minutes_us (access_token_ttl_minutes c) < 253402300800 * 1000000"
  shows "decode_access_token J U c (utc now) (issue_access_token J c uid sid jti (utc t)) =
    (if (t + minutes_us (access_token_ttl_minutes c)) div 1000000 \<le> now div 1000000
     then Inl (auth_raise AUTH_TOKEN_EXPIRED (lit ''access token expired''))
     else Inr \<lparr>c_user_id = uid, c_session_id = sid, c_token_id = jti,
            c_issued_at = from_timestamp (t div 1000000),
            c_expires_at = from_timestamp ((t + minutes_us (access_token_ttl_minutes c)) div 1000000)\<rparr>)"
proof -
  let ?e = "t + minutes_us (access_token_ttl_minutes c)"
  let ?cl = "access_claims c uid sid jti (utc t)"
  have e: "0 \<le> ?e" using t by (simp add: minutes_us_def)
  have ts: "int_timestamp (utc t) = t div 1000000" "int_timestamp (utc ?e) = ?e div 1000000"
    "int_timestamp (utc now) = now div 1000000"
    using t e by (simp_all add: int_timestamp_utc)
  have cl: "claims_present required_claims ?cl" "dict_get ?cl (lit ''iss'') = Some (JStr (issuer c))"
    "dict_get ?cl (lit ''aud'') = Some (JStr (audience c))"
    "dict_get ?cl (lit ''iat'') = Some (JInt (t div 1000000))"
    "dict_get ?cl (lit ''exp'') = Some (JInt (?e div 1000000))"
    "dict_get ?cl (lit ''sub'') = Some (JStr uid)" "dict_get ?cl (lit ''sid'') = Some (JStr sid)"
    "dict_get ?cl (lit ''jti'') = Some (JStr jti)"
    "dict_get ?cl (lit ''token_type'') = Some (JStr TOKEN_ACCESS)"
    using ts by (simp_all add: access_claims_def Let_def claims_present_def required_claims_def)
  have plain: "dict_ok ?cl" "list_all (\<lambda>(k, v). plain_claim v) ?cl" "dict_get ?cl (lit ''nbf'') = None"
    by (simp_all add: access_claims_def Let_def)
  have "t div 1000000 \<le> now div 1000000" using t by (simp add: zdiv_mono1)
  then have dec: "jwt_decode J (issue_access_token J c uid sid jti (utc t)) (signing_secret c)
      (algorithm c) (issuer c) (audience c) required_claims (utc now) =
     (if ?e div 1000000 \<le> now div 1000000 then ExpiredSignatureError else JwtClaims ?cl)"
    using J cl ts plain unfolding jwt_ok_def issue_access_token_def alg by simp
  have r: "-62135596800 \<le> t div 1000000" "t div 1000000 < 253402300800"
    "-62135596800 \<le> ?e div 1000000" "?e div 1000000 < 253402300800"
    using t e range by (simp_all add: div_less_iff_less_mult minutes_us_def)
  show ?thesis
    unfolding decode_access_token_def dec
    using cl r by (simp add: claim_time_int)
qed

end
