(* ===== verification/FailedLogins.thy ===== *)
theory FailedLogins
  imports Prelude
begin

text \<open>
  \<open>auth/rate_limit.py\<close>: the per-account sliding window of failed logins. The clock
  reading is an argument; a deque of the readings is a list, oldest first.
\<close>

record tracker =
  max_failures :: int
  window_seconds :: rat
  failures :: "(ustr, rat list) dict"

definition new_tracker :: "int \<Rightarrow> rat \<Rightarrow> tracker" where
  "new_tracker n w = \<lparr>max_failures = n, window_seconds = w, failures = []\<rparr>"

text \<open>
  \<open>_prune\<close>: a missing window is created first, then the expired readings are popped from
  the left, and an empty window is dropped again.
\<close>

definition prune :: "tracker \<Rightarrow> ustr \<Rightarrow> rat \<Rightarrow> tracker \<times> rat list" where
  "prune t identifier now =
     (let window = (case dict_get (failures t) identifier of None \<Rightarrow> [] | Some w \<Rightarrow> w);
          fs = (case dict_get (failures t) identifier of
                  None \<Rightarrow> dict_set (failures t) identifier [] | Some w \<Rightarrow> failures t);
          cutoff = now - window_seconds t;
          live = dropWhile (\<lambda>x. x \<le> cutoff) window
      in (t\<lparr>failures := (if live = [] then dict_del fs identifier else dict_set fs identifier live)\<rparr>,
          live))"

definition is_blocked :: "tracker \<Rightarrow> ustr \<Rightarrow> rat \<Rightarrow> tracker \<times> bool" where
  "is_blocked t identifier now =
     (case prune t identifier now of (t', w) \<Rightarrow> (t', int (length w) \<ge> max_failures t))"

definition record_failure :: "tracker \<Rightarrow> ustr \<Rightarrow> rat \<Rightarrow> tracker \<times> int" where
  "record_failure t identifier now =
     (case prune t identifier now of
        (t', w) \<Rightarrow> (t'\<lparr>failures := dict_set (failures t') identifier (w @ [now])\<rparr>,
                    int (length (w @ [now]))))"

definition reset_failures :: "tracker \<Rightarrow> ustr \<Rightarrow> tracker" where
  "reset_failures t identifier = t\<lparr>failures := dict_del (failures t) identifier\<rparr>"

definition failure_count :: "tracker \<Rightarrow> ustr \<Rightarrow> rat \<Rightarrow> tracker \<times> int" where
  "failure_count t identifier now =
     (case prune t identifier now of (t', w) \<Rightarrow> (t', int (length w)))"

definition tracked_identifiers :: "tracker \<Rightarrow> int" where
  "tracked_identifiers t = int (length (failures t))"

definition clear_tracker :: "tracker \<Rightarrow> tracker" where
  "clear_tracker t = t\<lparr>failures := []\<rparr>"

section \<open>The window of an identifier\<close>

definition window_of :: "tracker \<Rightarrow> ustr \<Rightarrow> rat list" where
  "window_of t i = (case dict_get (failures t) i of None \<Rightarrow> [] | Some w \<Rightarrow> w)"

definition live_window :: "tracker \<Rightarrow> ustr \<Rightarrow> rat \<Rightarrow> rat list" where
  "live_window t i now = dropWhile (\<lambda>x. x \<le> now - window_seconds t) (window_of t i)"

definition tracker_ok :: "tracker \<Rightarrow> bool" where
  "tracker_ok t \<longleftrightarrow> dict_ok (failures t) \<and>
     (\<forall>i w. dict_get (failures t) i = Some w \<longrightarrow> w \<noteq> [])"

lemma prune_snd [simp]: "snd (prune t i now) = live_window t i now"
  by (simp add: prune_def live_window_def window_of_def Let_def)

lemma prune_window [simp]:
  "window_of (fst (prune t i now)) j = (if j = i then live_window t i now else window_of t j)"
  by (auto simp: prune_def live_window_def window_of_def Let_def split: option.splits if_splits)
     (metis dropWhile_eq_Nil_conv)+

lemma prune_fixed [simp]:
  "max_failures (fst (prune t i now)) = max_failures t"
  "window_seconds (fst (prune t i now)) = window_seconds t"
  by (simp_all add: prune_def Let_def)

lemma prune_ok: "tracker_ok t \<Longrightarrow> tracker_ok (fst (prune t i now))"
  by (auto simp: tracker_ok_def prune_def Let_def split: option.splits if_splits)

lemma is_blocked_snd: "snd (is_blocked t i now) \<longleftrightarrow> int (length (live_window t i now)) \<ge> max_failures t"
  by (simp add: is_blocked_def split_beta)

lemma is_blocked_fst: "fst (is_blocked t i now) = fst (prune t i now)"
  by (simp add: is_blocked_def split_beta)

lemma record_failure_window:
  "window_of (fst (record_failure t i now)) j =
     (if j = i then live_window t i now @ [now] else window_of t j)"
  using prune_window [of t i now j]
  by (auto simp: record_failure_def split_beta window_of_def)

lemma record_failure_fixed [simp]:
  "max_failures (fst (record_failure t i now)) = max_failures t"
  "window_seconds (fst (record_failure t i now)) = window_seconds t"
  by (simp_all add: record_failure_def split_beta)

lemma record_failure_ok: "tracker_ok t \<Longrightarrow> tracker_ok (fst (record_failure t i now))"
  using prune_ok [of t i now] by (auto simp: record_failure_def split_beta tracker_ok_def)

lemma reset_failures_window: "window_of (reset_failures t i) j = (if j = i then [] else window_of t j)"
  by (simp add: reset_failures_def window_of_def)

lemma reset_failures_ok: "tracker_ok t \<Longrightarrow> tracker_ok (reset_failures t i)"
  by (auto simp: tracker_ok_def reset_failures_def)

section \<open>The failures of one identifier over time\<close>

text \<open>The readings within one window length after \<open>lo\<close>.\<close>

definition in_span :: "rat \<Rightarrow> rat \<Rightarrow> rat list \<Rightarrow> rat list" where
  "in_span lo w ts = filter (\<lambda>t. lo < t \<and> t \<le> lo + w) ts"

text \<open>
  \<open>tracks t i now R\<close>: the window of \<open>i\<close> is what is left of the recorded failures
  \<open>R\<close> after dropping some that had expired by \<open>now\<close>.
\<close>

definition tracks :: "tracker \<Rightarrow> ustr \<Rightarrow> rat \<Rightarrow> rat list \<Rightarrow> bool" where
  "tracks t i now R \<longleftrightarrow> sorted R \<and> (\<forall>x \<in> set R. x \<le> now) \<and>
     (\<exists>c. (R = [] \<or> c \<le> now - window_seconds t) \<and> window_of t i = filter (\<lambda>x. c < x) R)"

definition good :: "int \<Rightarrow> rat \<Rightarrow> rat list \<Rightarrow> bool" where
  "good n w R \<longleftrightarrow> (\<forall>lo. int (length (in_span lo w R)) \<le> n)"

lemma dropWhile_le_sorted:
  "sorted xs \<Longrightarrow> dropWhile (\<lambda>x. x \<le> c) xs = filter (\<lambda>x. c < x) xs" for xs :: "rat list"
proof (induction xs)
  case (Cons x xs)
  show ?case
  proof (cases "x \<le> c")
    case False
    with Cons.prems have "\<forall>y \<in> set xs. c < y" by fastforce
    with False show ?thesis by (simp add: not_le)
  qed (use Cons in simp)
qed simp

lemma live_window_tracks:
  assumes "tracks t i now R" and "now \<le> now'"
  shows "live_window t i now' = filter (\<lambda>x. now' - window_seconds t < x) R"
proof -
  from assms obtain c where s: "sorted R" and c: "R = [] \<or> c \<le> now - window_seconds t"
    and w: "window_of t i = filter (\<lambda>x. c < x) R" by (auto simp: tracks_def)
  have "sorted (filter (\<lambda>x. c < x) R)" using s by (simp add: sorted_wrt_filter)
  then have "live_window t i now' = filter (\<lambda>x. now' - window_seconds t < x) (filter (\<lambda>x. c < x) R)"
    unfolding live_window_def w by (rule dropWhile_le_sorted)
  also have "\<dots> = filter (\<lambda>x. now' - window_seconds t < x) R"
    using c assms(2) by (auto intro!: filter_cong)
  finally show ?thesis .
qed

lemma good_snoc:
  assumes "good n w R" and "sorted (R @ [t2])" and "t1 \<le> t2" and "0 < w"
    and "int (length (filter (\<lambda>x. t1 - w < x) R)) < n"
  shows "good n w (R @ [t2])"
  unfolding good_def
proof
  fix lo
  show "int (length (in_span lo w (R @ [t2]))) \<le> n"
  proof (cases "lo < t2 \<and> t2 \<le> lo + w")
    case True
    with assms(3) have "in_span lo w R = filter (\<lambda>x. lo < x \<and> x \<le> lo + w) (filter (\<lambda>x. t1 - w < x) R)"
      by (auto simp: in_span_def intro!: filter_cong)
    then have "length (in_span lo w R) \<le> length (filter (\<lambda>x. t1 - w < x) R)"
      by (simp only: length_filter_le)
    with assms(5) True show ?thesis by (simp add: in_span_def)
  next
    case False
    with assms(1) show ?thesis by (auto simp: in_span_def good_def)
  qed
qed

lemma tracks_prune:
  assumes "tracks t i now R" and "now \<le> now'"
  shows "tracks (fst (prune t j now')) i now' R"
proof (cases "j = i")
  case True
  with live_window_tracks [OF assms] assms show ?thesis by (fastforce simp: tracks_def)
next
  case False
  with assms show ?thesis by (auto simp: tracks_def) (metis diff_right_mono order_trans)
qed

lemma tracks_later:
  assumes "tracks t i now R" and "now \<le> now'"
  shows "tracks t i now' R"
  using assms by (auto simp: tracks_def) (metis diff_right_mono order_trans)

lemma tracks_record:
  assumes "tracks t i now R" and "now \<le> now'" and "0 < window_seconds t"
  shows "tracks (fst (record_failure t i now')) i now' (R @ [now'])"
proof -
  note tr = assms(1) [unfolded tracks_def]
  have sorted: "sorted (R @ [now'])" using tr assms(2) by (auto simp: sorted_append)
  have "window_of (fst (record_failure t i now')) i = filter (\<lambda>x. now' - window_seconds t < x) (R @ [now'])"
    using live_window_tracks [OF assms(1,2)] assms(3) by (simp add: record_failure_window)
  with sorted tr assms(2) show ?thesis
    unfolding tracks_def by (intro conjI exI [of _ "now' - window_seconds t"]) auto
qed

lemma tracks_other:
  assumes "window_of t' i = window_of t i" and "window_seconds t' = window_seconds t"
  shows "tracks t' i now R = tracks t i now R"
  using assms by (simp add: tracks_def)

text \<open>A failure that was admitted leaves no window too full.\<close>

lemma good_admitted:
  assumes "tracks t i now R" and "good (max_failures t) (window_seconds t) R"
    and "now \<le> t1" "t1 \<le> t2" and "0 < window_seconds t"
    and "\<not> snd (is_blocked t i t1)"
  shows "good (max_failures t) (window_seconds t) (R @ [t2])"
proof (rule good_snoc [OF assms(2) _ assms(4,5)])
  show "sorted (R @ [t2])" using assms(1,3,4) by (auto simp: tracks_def sorted_append)
  show "int (length (filter (\<lambda>x. t1 - window_seconds t < x) R)) < max_failures t"
    using assms(6) live_window_tracks [OF assms(1,3)] by (simp add: is_blocked_snd)
qed

text \<open>Recording a failure of one identifier never drops another.\<close>

lemma dict_keys_record:
  "dict_get (failures (fst (record_failure t i now))) j = None \<longleftrightarrow>
     j \<noteq> i \<and> dict_get (failures t) j = None"
  by (auto simp: record_failure_def split_beta prune_def Let_def split: option.splits)

end
