(* ===== verification/Identifiers.thy ===== *)
theory Identifiers
  imports Schemas
begin

text \<open>
  \<open>auth/identifiers.py\<close>: normalisation and validation of account names. The error is the
  reason of the \<open>InvalidUsernameError\<close>.
\<close>

definition MIN_USERNAME_LENGTH :: nat where
  "MIN_USERNAME_LENGTH = 3"

definition MAX_USERNAME_LENGTH :: nat where
  "MAX_USERNAME_LENGTH = 32"

definition username_pattern :: "ustr \<Rightarrow> bool" where
  "username_pattern s = id_pattern 2 31 s"

definition normalize_username :: "unicode_db \<Rightarrow> ustr \<Rightarrow> ustr" where
  "normalize_username U raw = casefold U (py_strip (is_space U) (nfkc U raw))"

definition validate_username :: "unicode_db \<Rightarrow> ustr \<Rightarrow> ustr + ustr" where
  "validate_username U raw =
     (if raw = [] \<or> py_strip (is_space U) raw = [] then Inl (lit ''username must not be empty'')
      else (let normalized = normalize_username U raw
            in if length normalized < MIN_USERNAME_LENGTH
               then Inl (lit ''username must be at least 3 characters'')
               else if length normalized > MAX_USERNAME_LENGTH
               then Inl (lit ''username must be at most 32 characters'')
               else if \<not> username_pattern normalized
               then Inl (lit ''username may contain only lowercase letters, digits, dot, dash and underscore, and must start with a letter or digit'')
               else Inr normalized))"

definition is_valid_username :: "unicode_db \<Rightarrow> ustr \<Rightarrow> bool" where
  "is_valid_username U raw = (case validate_username U raw of Inl _ \<Rightarrow> False | Inr _ \<Rightarrow> True)"

lemma validate_username_Inr:
  "validate_username U raw = Inr n \<longleftrightarrow>
     n = normalize_username U raw \<and> py_strip (is_space U) raw \<noteq> [] \<and>
     3 \<le> length n \<and> length n \<le> 32 \<and> username_pattern n"
  by (auto simp: validate_username_def MIN_USERNAME_LENGTH_def MAX_USERNAME_LENGTH_def Let_def
      py_strip_def)

text \<open>Every canonical account name is a transport identifier.\<close>

lemma username_is_identifier:
  "validate_username U raw = Inr n \<Longrightarrow> is_valid_identifier n"
  by (auto simp: validate_username_Inr username_pattern_def is_valid_identifier_def id_pattern_def
      split: list.splits)

lemma id_char_ascii: "id_char c \<Longrightarrow> c < 128"
  by (auto simp: id_char_def id_start_def)

lemma id_pattern_chars: "id_pattern lo hi s \<Longrightarrow> \<forall>c \<in> set s. id_char c"
  by (auto simp: id_pattern_def id_char_def list_all_iff split: list.splits)

lemma id_char_not_space: "id_char c \<Longrightarrow> \<not> ascii_space c"
  by (auto simp: id_char_def id_start_def ascii_space_def)

lemma id_char_lower: "id_char c \<Longrightarrow> ascii_lower c = c"
  by (auto simp: id_char_def id_start_def ascii_lower_def)

text \<open>Normalisation is the identity on a canonical name, so validation is idempotent.\<close>

lemma normalize_canonical:
  assumes U: "unicode_ok U" and c: "\<forall>c \<in> set s. id_char c"
  shows "normalize_username U s = s"
proof -
  have asc: "ascii s" using c id_char_ascii by (auto simp: ascii_def)
  have "\<not> is_space U x" if "x \<in> set s" for x
    using U c that id_char_ascii id_char_not_space by (auto simp: unicode_ok_def)
  then have "py_strip (is_space U) s = s" by (intro py_strip_id) blast
  moreover have "map ascii_lower s = s" using c id_char_lower by (simp add: map_idI)
  ultimately show ?thesis using U asc by (simp add: normalize_username_def unicode_ok_def)
qed

end
