(* ===== verification/AuthService.thy ===== *)
theory AuthService
  imports Repository Tokens FailedLogins Identifiers
begin

text \<open>
  \<open>auth/service.py\<close>: registration, login, refresh, logout, account deletion and the
  resolution of an access token. The service's state is the database, the failed-login
  tracker, the log and the Argon2 verifications done so far: \<open>a_work\<close> lists the stored
  hashes that were verified against, which is what a login attempt costs. Fresh values (ids,
  tokens, salts) and clock readings are arguments; a function that reads the clock twice has
  two. An operation gives the new state and either the exception or the result.
\<close>

record auth_env =
  e_config :: auth_config
  e_unicode :: unicode_db
  e_argon2 :: argon2
  e_jwt :: jwt_lib
  e_sha256 :: "nat list \<Rightarrow> ustr"
  e_dummy_salt :: nat
  e_load :: "datetime \<Rightarrow> datetime"

record auth_state =
  a_db :: database
  a_failed_logins :: tracker
  a_work :: "ustr list"
  a_log :: "log_record list"

definition new_service :: "auth_config \<Rightarrow> database \<Rightarrow> auth_state" where
  "new_service c db = \<lparr>a_db = db,
     a_failed_logins = new_tracker (max_failed_logins_per_account c) (failed_login_window_seconds c),
     a_work = [], a_log = []\<rparr>"

record authenticated_identity =
  ai_user_id :: ustr
  ai_username :: ustr
  ai_session_id :: ustr

record issued_credentials =
  ic_access_token :: ustr
  ic_refresh_token :: ustr
  ic_expires_in_seconds :: int
  ic_user_id :: ustr
  ic_username :: ustr
  ic_created_at :: datetime
  ic_session_id :: ustr

text \<open>The fresh values a new session or a refresh draws.\<close>

record fresh =
  f_session_id :: ustr
  f_refresh_token :: ustr
  f_token_id :: ustr
  f_now :: datetime

definition log_auth :: "auth_state \<Rightarrow> string \<Rightarrow> (string \<times> logval) list \<Rightarrow> auth_state" where
  "log_auth st event fs = st\<lparr>a_log := a_log st @ [auth_log event fs]\<rparr>"

text \<open>One Argon2 verification, counted.\<close>

definition verify_with :: "auth_env \<Rightarrow> auth_state \<Rightarrow> ustr \<Rightarrow> ustr \<Rightarrow> auth_state \<times> bool" where
  "verify_with E st stored_hash password =
     (st\<lparr>a_work := a_work st @ [stored_hash]\<rparr>,
      verify_password (e_argon2 E) (e_unicode E) stored_hash password)"

definition dummy_verify :: "auth_env \<Rightarrow> auth_state \<Rightarrow> auth_state" where
  "dummy_verify E st = fst (verify_with E st (DUMMY_HASH (e_argon2 E) (e_dummy_salt E)) (lit ''not-the-password''))"

definition note_failure :: "auth_state \<Rightarrow> ustr \<Rightarrow> rat \<Rightarrow> auth_state" where
  "note_failure st normalized t =
     st\<lparr>a_failed_logins := fst (record_failure (a_failed_logins st) normalized t)\<rparr>"

section \<open>Registration\<close>

definition service_register ::
  "auth_env \<Rightarrow> auth_state \<Rightarrow> ustr \<Rightarrow> ustr \<Rightarrow> ustr \<Rightarrow> nat \<Rightarrow> datetime \<Rightarrow> auth_state \<times> (exn + user_row)" where
  "service_register E st username password new_id salt now =
     (case validate_username (e_unicode E) username of
        Inl reason \<Rightarrow> (st, Inl (auth_raise_status AUTH_VALIDATION_FAILED 400 (lit ''invalid username: '' @ reason)))
      | Inr normalized \<Rightarrow>
         (case validate_policy (e_config E) password of
            Some PasswordNotEncodable \<Rightarrow> (st, Inl UnicodeEncodeError)
          | Some err \<Rightarrow> (st, Inl (auth_raise_status AUTH_VALIDATION_FAILED 400
                               (lit ''invalid password: '' @ policy_reason err)))
          | None \<Rightarrow>
             (let password_hash = hash_password (e_argon2 E) (e_unicode E) (e_config E) salt password
              in case user_create (a_db st) new_id (py_strip (is_space (e_unicode E)) username)
                        normalized password_hash now of
                   (db', Inl UsernameTakenError) \<Rightarrow>
                     (log_auth (st\<lparr>a_db := db'\<rparr>) ''registration_rejected''
                        [(''reason'', LStr (lit ''identifier_taken''))],
                      Inl (auth_raise_status AUTH_REGISTRATION_REJECTED 409
                            (lit ''identifier already registered'')))
                 | (db', Inl e) \<Rightarrow> (st\<lparr>a_db := db'\<rparr>, Inl e)
                 | (db', Inr u) \<Rightarrow>
                     (log_auth (st\<lparr>a_db := db'\<rparr>) ''registration_success'' [(''user_id'', LStr (u_id u))],
                      Inr u))))"

section \<open>Login\<close>

definition credentials_for :: "auth_env \<Rightarrow> user_row \<Rightarrow> ustr \<Rightarrow> fresh \<Rightarrow> issued_credentials" where
  "credentials_for E u sid f = \<lparr>
     ic_access_token = issue_access_token (e_jwt E) (e_config E) (u_id u) sid (f_token_id f) (f_now f),
     ic_refresh_token = f_refresh_token f,
     ic_expires_in_seconds = access_token_ttl_minutes (e_config E) * 60,
     ic_user_id = u_id u,
     ic_username = u_username u,
     ic_created_at = u_created_at u,
     ic_session_id = sid\<rparr>"

definition open_session :: "auth_env \<Rightarrow> auth_state \<Rightarrow> user_row \<Rightarrow> fresh \<Rightarrow> auth_state \<times> (exn + issued_credentials)" where
  "open_session E st u f =
     (case hash_refresh_token (e_sha256 E) (f_refresh_token f) of
        Inl e \<Rightarrow> (st, Inl e)
      | Inr h \<Rightarrow>
         (case session_create (a_db st) (f_session_id f) (u_id u) h (f_now f)
                 (refresh_expiry (e_config E) (f_now f)) of
            (db', Inl e) \<Rightarrow> (st\<lparr>a_db := db'\<rparr>, Inl e)
          | (db', Inr s) \<Rightarrow>
              (log_auth (st\<lparr>a_db := db'\<rparr>) ''session_created''
                 [(''user_id'', LStr (u_id u)), (''session_id'', LStr (f_session_id f))],
               Inr (credentials_for E u (f_session_id f) f))))"

text \<open>
  \<open>login\<close> up to the first \<open>await\<close>: the identifier is validated and the failure window
  looked at, at time \<open>t\<close>.
\<close>

definition login_begin :: "auth_env \<Rightarrow> auth_state \<Rightarrow> ustr \<Rightarrow> rat \<Rightarrow> auth_state \<times> (exn + ustr)" where
  "login_begin E st username t =
     (case validate_username (e_unicode E) username of
        Inl _ \<Rightarrow> (dummy_verify E st, Inl (auth_raise AUTH_INVALID_CREDENTIALS (lit ''malformed identifier'')))
      | Inr normalized \<Rightarrow>
         (case is_blocked (a_failed_logins st) normalized t of
            (tr, True) \<Rightarrow>
              (log_auth (st\<lparr>a_failed_logins := tr\<rparr>) ''authentication_rate_limited''
                 [(''scope'', LStr (lit ''account''))],
               Inl (auth_raise_status AUTH_RATE_LIMITED 429 (lit ''per-account failure threshold reached'')))
          | (tr, False) \<Rightarrow> (st\<lparr>a_failed_logins := tr\<rparr>, Inr normalized)))"

text \<open>The opportunistic rehash of a verified password.\<close>

definition maybe_rehash :: "auth_env \<Rightarrow> auth_state \<Rightarrow> user_row \<Rightarrow> ustr \<Rightarrow> nat \<Rightarrow> datetime \<Rightarrow> auth_state" where
  "maybe_rehash E st u password salt now =
     (if needs_rehash (e_argon2 E) (e_config E) (u_password_hash u)
      then log_auth (st\<lparr>a_db := user_update (a_db st) (u_id u)
               (\<lambda>r. r\<lparr>u_password_hash :=
                        hash_password (e_argon2 E) (e_unicode E) (e_config E) salt password,
                      u_updated_at := now\<rparr>)\<rparr>)
             ''password_rehashed'' [(''user_id'', LStr (u_id u))]
      else st)"

text \<open>The rest of \<open>login\<close>, once the account has been looked up; a failure is recorded at \<open>t\<close>.\<close>

definition login_finish ::
  "auth_env \<Rightarrow> auth_state \<Rightarrow> ustr \<Rightarrow> ustr \<Rightarrow> rat \<Rightarrow> nat \<Rightarrow> datetime \<Rightarrow> fresh \<Rightarrow>
    auth_state \<times> (exn + issued_credentials)" where
  "login_finish E st normalized password t salt rehash_now f =
     (case get_by_normalized_username (e_load E) (a_db st) normalized of
        Inl e \<Rightarrow> (st, Inl e)
      | Inr None \<Rightarrow>
          (log_auth (note_failure (dummy_verify E st) normalized t) ''authentication_failure''
             [(''reason'', LStr (lit ''unknown_account''))],
           Inl (auth_raise AUTH_INVALID_CREDENTIALS (lit ''unknown account'')))
      | Inr (Some u) \<Rightarrow>
         (case verify_with E st (u_password_hash u) password of
            (st1, False) \<Rightarrow>
              (log_auth (note_failure st1 normalized t) ''authentication_failure''
                 [(''reason'', LStr (lit ''password_mismatch'')), (''user_id'', LStr (u_id u))],
               Inl (auth_raise AUTH_INVALID_CREDENTIALS (lit ''password mismatch'')))
          | (st1, True) \<Rightarrow>
              if \<not> is_active u
              then (log_auth (note_failure st1 normalized t) ''authentication_failure''
                      [(''reason'', LStr (lit ''account_disabled'')), (''user_id'', LStr (u_id u))],
                    Inl (auth_raise AUTH_INVALID_CREDENTIALS (lit ''account disabled'')))
              else (let st2 = maybe_rehash E st1 u password salt rehash_now;
                        st3 = st2\<lparr>a_failed_logins := reset_failures (a_failed_logins st2) normalized\<rparr>
                    in case open_session E st3 u f of
                         (st4, Inl e) \<Rightarrow> (st4, Inl e)
                       | (st4, Inr c) \<Rightarrow>
                           (log_auth st4 ''authentication_success''
                              [(''user_id'', LStr (u_id u)), (''session_id'', LStr (ic_session_id c))],
                            Inr c))))"

definition service_login ::
  "auth_env \<Rightarrow> auth_state \<Rightarrow> ustr \<Rightarrow> ustr \<Rightarrow> rat \<Rightarrow> rat \<Rightarrow> nat \<Rightarrow> datetime \<Rightarrow> fresh \<Rightarrow>
    auth_state \<times> (exn + issued_credentials)" where
  "service_login E st username password t t' salt rehash_now f =
     (case login_begin E st username t of
        (st1, Inl e) \<Rightarrow> (st1, Inl e)
      | (st1, Inr normalized) \<Rightarrow> login_finish E st1 normalized password t' salt rehash_now f)"

section \<open>Access tokens\<close>

text \<open>
  \<open>resolve_access_token\<close> reads only; \<open>t\<close> is PyJWT's clock reading and \<open>now\<close> the one
  the session's expiry is compared with.
\<close>

definition revoked_reason :: "session_row \<Rightarrow> ustr" where
  "revoked_reason s = (if s_revoked_at s \<noteq> None then lit ''session revoked'' else lit ''session expired'')"

definition resolve_access_token ::
  "auth_env \<Rightarrow> database \<Rightarrow> datetime \<Rightarrow> datetime \<Rightarrow> ustr \<Rightarrow> exn + authenticated_identity" where
  "resolve_access_token E db t now token =
     (case decode_access_token (e_jwt E) (e_unicode E) (e_config E) t token of
        Inl e \<Rightarrow> Inl e
      | Inr claims \<Rightarrow>
     (case session_get (e_load E) db (c_session_id claims) of
        Inl e \<Rightarrow> Inl e
      | Inr None \<Rightarrow> Inl (auth_raise AUTH_SESSION_REVOKED (lit ''session no longer exists''))
      | Inr (Some s) \<Rightarrow>
     (case is_usable s now of
        Inl e \<Rightarrow> Inl e
      | Inr False \<Rightarrow> Inl (auth_raise AUTH_SESSION_REVOKED (revoked_reason s))
      | Inr True \<Rightarrow>
     (case get_by_id (e_load E) db (c_user_id claims) of
        Inl e \<Rightarrow> Inl e
      | Inr None \<Rightarrow> Inl (auth_raise AUTH_SESSION_REVOKED (lit ''account no longer exists''))
      | Inr (Some u) \<Rightarrow>
          if \<not> is_active u
          then Inl (auth_raise_status AUTH_ACCOUNT_UNAVAILABLE 403 (lit ''account disabled''))
          else if s_user_id s \<noteq> u_id u
          then Inl (auth_raise AUTH_TOKEN_INVALID (lit ''session/user mismatch''))
          else Inr \<lparr>ai_user_id = u_id u, ai_username = u_username u, ai_session_id = s_id s\<rparr>))))"

section \<open>Refresh\<close>

definition service_refresh ::
  "auth_env \<Rightarrow> auth_state \<Rightarrow> ustr \<Rightarrow> fresh \<Rightarrow> auth_state \<times> (exn + issued_credentials)" where
  "service_refresh E st refresh_token f =
     (case hash_refresh_token (e_sha256 E) refresh_token of
        Inl e \<Rightarrow> (st, Inl e)
      | Inr h \<Rightarrow>
     (case get_by_refresh_hash (e_load E) (a_db st) h of
        Inl e \<Rightarrow> (st, Inl e)
      | Inr None \<Rightarrow> (st, Inl (auth_raise AUTH_SESSION_REVOKED (lit ''refresh token not recognized'')))
      | Inr (Some s) \<Rightarrow>
     (case is_usable s (f_now f) of
        Inl e \<Rightarrow> (st, Inl e)
      | Inr False \<Rightarrow> (st, Inl (auth_raise AUTH_SESSION_REVOKED (revoked_reason s)))
      | Inr True \<Rightarrow>
     (case get_by_id (e_load E) (a_db st) (s_user_id s) of
        Inl e \<Rightarrow> (st, Inl e)
      | Inr None \<Rightarrow> (st, Inl (auth_raise AUTH_SESSION_REVOKED (lit ''account unavailable'')))
      | Inr (Some u) \<Rightarrow>
          if \<not> is_active u
          then (st, Inl (auth_raise AUTH_SESSION_REVOKED (lit ''account unavailable'')))
          else (case hash_refresh_token (e_sha256 E) (f_refresh_token f) of
                  Inl e \<Rightarrow> (st, Inl e)
                | Inr h' \<Rightarrow>
                    (log_auth (st\<lparr>a_db := rotate_refresh_token (a_db st) s h'
                                 (refresh_expiry (e_config E) (f_now f))\<rparr>) ''session_refreshed''
                       [(''user_id'', LStr (u_id u)), (''session_id'', LStr (s_id s))],
                     Inr (credentials_for E u (s_id s) f)))))))"

section \<open>Logout and deletion\<close>

definition service_logout :: "auth_env \<Rightarrow> auth_state \<Rightarrow> ustr \<Rightarrow> datetime \<Rightarrow> auth_state \<times> (exn + unit)" where
  "service_logout E st sid now =
     (case session_get (e_load E) (a_db st) sid of
        Inl e \<Rightarrow> (st, Inl e)
      | Inr None \<Rightarrow> (st, Inr ())
      | Inr (Some s) \<Rightarrow>
         (let fs = [(''session_id'', LStr sid), (''user_id'', LStr (s_user_id s))];
              st1 = st\<lparr>a_db := revoke (a_db st) s now\<rparr>
          in (log_auth (log_auth st1 ''session_revoked'' fs) ''logout'' fs, Inr ())))"

definition service_delete_account ::
  "auth_env \<Rightarrow> auth_state \<Rightarrow> authenticated_identity \<Rightarrow> ustr \<Rightarrow> datetime \<Rightarrow> auth_state \<times> (exn + unit)" where
  "service_delete_account E st identity password now =
     (case get_by_id (e_load E) (a_db st) (ai_user_id identity) of
        Inl e \<Rightarrow> (st, Inl e)
      | Inr None \<Rightarrow> (st, Inl (auth_raise AUTH_SESSION_REVOKED (lit ''account no longer exists'')))
      | Inr (Some u) \<Rightarrow>
         (case verify_with E st (u_password_hash u) password of
            (st1, False) \<Rightarrow>
              (log_auth st1 ''account_deletion_rejected''
                 [(''reason'', LStr (lit ''reauthentication_failed'')), (''user_id'', LStr (u_id u))],
               Inl (auth_raise AUTH_INVALID_CREDENTIALS (lit ''re-authentication failed'')))
          | (st1, True) \<Rightarrow>
             (case revoke_all_for_user (a_db st1) (u_id u) now of
                (db1, revoked) \<Rightarrow>
                  (log_auth (st1\<lparr>a_db := user_delete db1 (u_id u)\<rparr>) ''account_deleted''
                     [(''user_id'', LStr (u_id u)), (''sessions_revoked'', LInt revoked)], Inr ()))))"

section \<open>Transactions\<close>

text \<open>
  \<open>get_db\<close> and \<open>session_scope\<close>: the code that runs with the database session they
  provide is one transaction. When it raises, the tables go back to what they were and the
  exception goes on; the service's own state in memory is not a part of it.
\<close>

definition transaction :: "auth_state \<Rightarrow> auth_state \<times> ('e + 'a) \<Rightarrow> auth_state \<times> ('e + 'a)" where
  "transaction st r = (case r of
     (st', Inl e) \<Rightarrow> (st'\<lparr>a_db := a_db st\<rparr>, Inl e) | (st', Inr x) \<Rightarrow> (st', Inr x))"

lemma transaction_snd [simp]: "snd (transaction st r) = snd r"
  by (simp add: transaction_def split: prod.split sum.split)

lemma transaction_db:
  "a_db (fst (transaction st r)) = (case snd r of Inl e \<Rightarrow> a_db st | Inr x \<Rightarrow> a_db (fst r))"
  by (cases r) (simp add: transaction_def split: sum.split)

lemma transaction_memory [simp]:
  "a_failed_logins (fst (transaction st r)) = a_failed_logins (fst r)"
  "a_work (fst (transaction st r)) = a_work (fst r)"
  "a_log (fst (transaction st r)) = a_log (fst r)"
  by (cases r; simp add: transaction_def split: sum.split)+

text \<open>A transaction leaves the tables as they were or as its code left them.\<close>

lemma transaction_either:
  assumes "P (a_db st)" and "P (a_db (fst r))"
  shows "P (a_db (fst (transaction st r)))"
  using assms by (simp add: transaction_db split: sum.split)

end
