(* ===== verification/AuthInv.thy ===== *)
theory AuthInv
  imports AuthService
begin

text \<open>
  What every operation of the authentication service keeps: the integrity of the tables, and
  that a session once revoked or deleted never becomes usable again. The latter is stated for
  any service in the locale \<open>revocable\<close> and interpreted for sessions and for accounts.
\<close>

section \<open>Operations as steps\<close>

text \<open>
  One operation of the service with its arguments, in the transaction of its request.
  \<open>login\<close> is two steps, because the coroutine awaits the database between them and other
  requests can run there.
\<close>

datatype auth_op =
    OpRegister ustr ustr ustr nat datetime
  | OpLoginBegin ustr rat
  | OpLoginFinish ustr ustr rat nat datetime fresh
  | OpRefresh ustr fresh
  | OpLogout ustr datetime
  | OpDelete authenticated_identity ustr datetime

fun auth_step :: "auth_env \<Rightarrow> auth_op \<Rightarrow> auth_state \<Rightarrow> auth_state" where
  "auth_step E (OpRegister username password new_id salt now) st =
     fst (transaction st (service_register E st username password new_id salt now))"
| "auth_step E (OpLoginBegin username t) st = fst (login_begin E st username t)"
| "auth_step E (OpLoginFinish normalized password t salt rehash_now f) st =
     fst (transaction st (login_finish E st normalized password t salt rehash_now f))"
| "auth_step E (OpRefresh token f) st = fst (transaction st (service_refresh E st token f))"
| "auth_step E (OpLogout sid now) st = fst (transaction st (service_logout E st sid now))"
| "auth_step E (OpDelete i password now) st =
     fst (transaction st (service_delete_account E st i password now))"

definition auth_run :: "auth_env \<Rightarrow> auth_op list \<Rightarrow> auth_state \<Rightarrow> auth_state" where
  "auth_run E ops st = fold (auth_step E) ops st"

section \<open>The database an operation leaves\<close>

lemma log_auth_fields [simp]:
  "a_db (log_auth st ev fs) = a_db st"
  "a_failed_logins (log_auth st ev fs) = a_failed_logins st"
  "a_work (log_auth st ev fs) = a_work st"
  by (simp_all add: log_auth_def)

lemma verify_with_fields [simp]:
  "a_db (fst (verify_with E st h pw)) = a_db st"
  "a_failed_logins (fst (verify_with E st h pw)) = a_failed_logins st"
  "a_work (fst (verify_with E st h pw)) = a_work st @ [h]"
  "a_log (fst (verify_with E st h pw)) = a_log st"
  "snd (verify_with E st h pw) = verify_password (e_argon2 E) (e_unicode E) h pw"
  by (simp_all add: verify_with_def)

lemma dummy_verify_fields [simp]:
  "a_db (dummy_verify E st) = a_db st"
  "a_failed_logins (dummy_verify E st) = a_failed_logins st"
  "a_work (dummy_verify E st) = a_work st @ [DUMMY_HASH (e_argon2 E) (e_dummy_salt E)]"
  "a_log (dummy_verify E st) = a_log st"
  by (simp_all add: dummy_verify_def)

lemma note_failure_fields [simp]:
  "a_db (note_failure st n t) = a_db st"
  "a_work (note_failure st n t) = a_work st"
  "a_log (note_failure st n t) = a_log st"
  "a_failed_logins (note_failure st n t) = fst (record_failure (a_failed_logins st) n t)"
  by (simp_all add: note_failure_def)

lemma login_begin_db [simp]: "a_db (fst (login_begin E st username t)) = a_db st"
  by (simp add: login_begin_def split: sum.split prod.split bool.split)

lemma maybe_rehash_db_ok: "db_ok (a_db st) \<Longrightarrow> db_ok (a_db (maybe_rehash E st u pw salt now))"
  by (simp add: maybe_rehash_def user_update_ok)

lemma maybe_rehash_sessions [simp]:
  "session_table (a_db (maybe_rehash E st u pw salt now)) = session_table (a_db st)"
  by (simp add: maybe_rehash_def)

lemma maybe_rehash_users:
  "user_at (a_db (maybe_rehash E st u pw salt now)) k = None \<longleftrightarrow> user_at (a_db st) k = None"
  by (simp add: maybe_rehash_def user_at_update)

lemma open_session_db:
  "a_db (fst (open_session E st u f)) = a_db st \<or>
   (\<exists>h. hash_refresh_token (e_sha256 E) (f_refresh_token f) = Inr h \<and>
     a_db (fst (open_session E st u f)) =
       fst (session_create (a_db st) (f_session_id f) (u_id u) h (f_now f)
             (refresh_expiry (e_config E) (f_now f))))"
  by (auto simp: open_session_def split: sum.splits prod.splits)

lemma loaded_user [simp]:
  "u_id (load_user load u) = u_id u" "u_normalized (load_user load u) = u_normalized u"
  "u_password_hash (load_user load u) = u_password_hash u"
  "u_username (load_user load u) = u_username u" "is_active (load_user load u) = is_active u"
  by (simp_all add: load_user_def is_active_def)

lemma loaded_session [simp]:
  "s_id (load_session load s) = s_id s" "s_user_id (load_session load s) = s_user_id s"
  "s_refresh_hash (load_session load s) = s_refresh_hash s"
  "s_revoked_at (load_session load s) = None \<longleftrightarrow> s_revoked_at s = None"
  by (simp_all add: load_session_def)

text \<open>The cases of \<open>login_finish\<close>.\<close>

lemma login_finish_cases [consumes 1, case_names unknown refused accepted]:
  fixes E st n pw t salt rnow f
  defines "r \<equiv> login_finish E st n pw t salt rnow f"
  assumes ok: "db_ok (a_db st)"
  obtains
    (unknown) "user_named (a_db st) n = None"
      and "r = (log_auth (note_failure (dummy_verify E st) n t) ''authentication_failure''
                  [(''reason'', LStr (lit ''unknown_account''))],
                Inl (auth_raise AUTH_INVALID_CREDENTIALS (lit ''unknown account'')))"
  | (refused) u ev reason where "user_named (a_db st) n = Some u"
      and "\<not> verify_password (e_argon2 E) (e_unicode E) (u_password_hash u) pw \<or> \<not> is_active u"
      and "r = (log_auth (note_failure (fst (verify_with E st (u_password_hash u) pw)) n t)
                  ''authentication_failure'' ev, Inl (auth_raise AUTH_INVALID_CREDENTIALS reason))"
  | (accepted) u st1 where "user_named (a_db st) n = Some u"
      and "verify_password (e_argon2 E) (e_unicode E) (u_password_hash u) pw" and "is_active u"
      and "st1 = maybe_rehash E (fst (verify_with E st (u_password_hash u) pw))
                   (load_user (e_load E) u) pw salt rnow"
      and "r = (case open_session E (st1\<lparr>a_failed_logins := reset_failures (a_failed_logins st1) n\<rparr>)
                       (load_user (e_load E) u) f of
                  (st4, Inl e) \<Rightarrow> (st4, Inl e)
                | (st4, Inr c) \<Rightarrow> (log_auth st4 ''authentication_success''
                     [(''user_id'', LStr (u_id u)), (''session_id'', LStr (ic_session_id c))], Inr c))"
proof (cases "user_named (a_db st) n")
  case None
  then show thesis using ok by (intro unknown) (simp_all add: r_def login_finish_def)
next
  case (Some u)
  let ?v = "verify_password (e_argon2 E) (e_unicode E) (u_password_hash u) pw"
  consider "\<not> ?v" | "?v" "\<not> is_active u" | "?v" "is_active u" by blast
  then show thesis
  proof cases
    case 1
    show thesis
      by (rule refused [OF Some, of "[(''reason'', LStr (lit ''password_mismatch'')), (''user_id'', LStr (u_id u))]"])
         (use 1 Some ok in \<open>simp_all add: r_def login_finish_def verify_with_def\<close>)
  next
    case 2
    show thesis
      by (rule refused [OF Some, of "[(''reason'', LStr (lit ''account_disabled'')), (''user_id'', LStr (u_id u))]"])
         (use 2 Some ok in \<open>simp_all add: r_def login_finish_def verify_with_def\<close>)
  next
    case 3
    show thesis
      by (rule accepted [OF Some 3 refl])
         (use 3 Some ok in \<open>simp add: r_def login_finish_def verify_with_def Let_def
            cong: sum.case_cong prod.case_cong\<close>)
  qed
qed

lemma register_db:
  "a_db (fst (service_register E st username pw new_id salt now)) = a_db st \<or>
   (\<exists>name n h. a_db (fst (service_register E st username pw new_id salt now)) =
      fst (user_create (a_db st) new_id name n h now))"
  by (auto simp: service_register_def Let_def user_create_def
      split: sum.split option.split password_policy_error.split prod.split exn.split)

lemma register_db_ok:
  "db_ok (a_db st) \<Longrightarrow> db_ok (a_db (fst (service_register E st username pw new_id salt now)))"
  using register_db [of E st username pw new_id salt now] by (auto simp: user_create_ok)

lemma open_session_db_ok:
  assumes "db_ok (a_db st)" and "user_at (a_db st) (u_id u) \<noteq> None"
  shows "db_ok (a_db (fst (open_session E st u f)))"
  using open_session_db [of E st u f] assms by (auto simp: session_create_ok)

lemma named_user_at: "db_ok db \<Longrightarrow> user_named db n = Some u \<Longrightarrow> user_at db (u_id u) = Some u"
  by (auto simp: db_ok_def intro: row_at_in dest: row_at_Some_in)

text \<open>The state in which an accepted login opens its session.\<close>

lemma finish_open_state:
  assumes "db_ok (a_db st)" and "user_named (a_db st) n = Some u"
    and "st1 = maybe_rehash E (fst (verify_with E st (u_password_hash u) pw)) v pw salt rnow"
  shows "db_ok (a_db st1)" and "user_at (a_db st1) (u_id u) \<noteq> None"
    and "session_table (a_db st1) = session_table (a_db st)"
  using assms maybe_rehash_db_ok [of "fst (verify_with E st (u_password_hash u) pw)"]
    named_user_at [OF assms(1,2)]
  by (simp_all add: maybe_rehash_users del: not_None_eq)

lemma finish_result_db:
  "a_db (fst (case open_session E st u f of (st4, Inl e) \<Rightarrow> (st4, Inl e)
     | (st4, Inr c) \<Rightarrow> (log_auth st4 ev (fs c), Inr c))) = a_db (fst (open_session E st u f))"
  by (simp split: prod.split sum.split)

lemma login_finish_db_ok:
  assumes ok: "db_ok (a_db st)"
  shows "db_ok (a_db (fst (login_finish E st n pw t salt rnow f)))"
  using ok
proof (cases rule: login_finish_cases [where n = n and E = E and pw = pw and t = t and salt = salt
      and rnow = rnow and f = f])
  case (accepted u st1)
  from finish_open_state [OF ok accepted(1,4)] show ?thesis
    unfolding accepted(5) finish_result_db by (intro open_session_db_ok) simp_all
qed (use ok in simp_all)

lemma service_login_db_ok:
  assumes "db_ok (a_db st)"
  shows "db_ok (a_db (fst (service_login E st username pw t t' salt rnow f)))"
proof (cases "login_begin E st username t")
  case (Pair st1 x)
  then have "db_ok (a_db st1)" using login_begin_db [of E st username t] assms by simp
  then show ?thesis using Pair
    by (auto simp: service_login_def intro: login_finish_db_ok split: sum.split)
qed

lemma refresh_db:
  assumes ok: "db_ok (a_db st)"
  shows "a_db (fst (service_refresh E st tok f)) = a_db st \<or>
    (\<exists>s h ex. a_db (fst (service_refresh E st tok f)) = rotate_refresh_token (a_db st) s h ex)"
  using ok by (auto simp: service_refresh_def split: sum.split option.split bool.split)

lemma logout_db:
  assumes ok: "db_ok (a_db st)"
  shows "a_db (fst (service_logout E st sid now)) = (case session_at (a_db st) sid of
     None \<Rightarrow> a_db st | Some s \<Rightarrow> revoke (a_db st) (load_session (e_load E) s) now)"
  using ok by (simp add: service_logout_def Let_def split: option.split)

lemma delete_db:
  assumes ok: "db_ok (a_db st)"
  shows "a_db (fst (service_delete_account E st i pw now)) =
    (case user_at (a_db st) (ai_user_id i) of None \<Rightarrow> a_db st
     | Some u \<Rightarrow> if verify_password (e_argon2 E) (e_unicode E) (u_password_hash u) pw
         then user_delete (fst (revoke_all_for_user (a_db st) (u_id u) now)) (u_id u) else a_db st)"
  using ok by (simp add: service_delete_account_def verify_with_def split_beta split: option.split)

text \<open>Every operation keeps the tables consistent, and so does every run of them.\<close>

lemma service_db_ok:
  assumes "db_ok (a_db st)"
  shows "db_ok (a_db (fst (service_refresh E st tok f)))"
    and "db_ok (a_db (fst (service_logout E st sid now)))"
    and "db_ok (a_db (fst (service_delete_account E st i pw now)))"
  using assms refresh_db [of st E tok f]
  by (auto simp: rotate_ok logout_db delete_db revoke_ok revoke_all_ok user_delete_ok split: option.split)

lemmas operations_db_ok = register_db_ok login_finish_db_ok service_login_db_ok service_db_ok

lemma auth_step_db_ok: "db_ok (a_db st) \<Longrightarrow> db_ok (a_db (auth_step E op st))"
  by (cases op) (simp_all add: operations_db_ok transaction_either [where P = db_ok])

section \<open>Revocation is permanent\<close>

text \<open>
  A service whose steps never bring a dead key to life unless they create it: a key that is
  dead stays dead through every run that does not create it.
\<close>

locale revocable =
  fixes step :: "'op \<Rightarrow> 'st \<Rightarrow> 'st"
    and ok :: "'st \<Rightarrow> bool"
    and live :: "'st \<Rightarrow> 'k \<Rightarrow> bool"
    and creates :: "'op \<Rightarrow> 'k \<Rightarrow> bool"
  assumes step_ok: "ok st \<Longrightarrow> ok (step op st)"
    and step_live: "ok st \<Longrightarrow> live (step op st) k \<Longrightarrow> live st k \<or> creates op k"
begin

lemma run_ok: "ok st \<Longrightarrow> ok (fold step ops st)"
  by (induction ops arbitrary: st) (simp_all add: step_ok)

lemma dead_stays_dead:
  assumes "ok st" and "\<not> live st k" and "\<And>op. op \<in> set ops \<Longrightarrow> \<not> creates op k"
  shows "\<not> live (fold step ops st) k"
  using assms
proof (induction ops arbitrary: st)
  case (Cons op ops)
  then have "\<not> live (step op st) k" using step_live [of st op k] by auto
  with Cons show ?case by (simp add: step_ok)
qed simp

end

definition session_live :: "auth_state \<Rightarrow> ustr \<Rightarrow> bool" where
  "session_live st sid \<longleftrightarrow> (case session_at (a_db st) sid of None \<Rightarrow> False | Some s \<Rightarrow> s_revoked_at s = None)"

definition account_exists :: "auth_state \<Rightarrow> ustr \<Rightarrow> bool" where
  "account_exists st uid \<longleftrightarrow> user_at (a_db st) uid \<noteq> None"

fun opens_session :: "auth_op \<Rightarrow> ustr \<Rightarrow> bool" where
  "opens_session (OpLoginFinish _ _ _ _ _ f) sid = (f_session_id f = sid)"
| "opens_session _ _ = False"

fun registers :: "auth_op \<Rightarrow> ustr \<Rightarrow> bool" where
  "registers (OpRegister _ _ new_id _ _) uid = (new_id = uid)"
| "registers _ _ = False"

definition row_live :: "database \<Rightarrow> ustr \<Rightarrow> bool" where
  "row_live db sid \<longleftrightarrow> (case session_at db sid of None \<Rightarrow> False | Some s \<Rightarrow> s_revoked_at s = None)"

lemma session_live_row: "session_live st sid \<longleftrightarrow> row_live (a_db st) sid"
  by (simp add: session_live_def row_live_def)

lemma row_live_update:
  assumes "\<And>s. s_id (g s) = s_id s" and "\<And>s. s_revoked_at (g s) = None \<Longrightarrow> s_revoked_at s = None"
    and "row_live (session_update db i g) sid"
  shows "row_live db sid"
  using assms
  by (auto simp: row_live_def session_at_update split: option.splits if_splits)

lemma row_live_revoke: "row_live (revoke db s now) sid \<Longrightarrow> row_live db sid"
  by (auto simp: revoke_def split: if_splits elim!: row_live_update [rotated 2])

lemma row_live_rotate: "row_live (rotate_refresh_token db s h ex) sid \<Longrightarrow> row_live db sid"
  by (auto simp: rotate_refresh_token_def elim!: row_live_update [rotated 2])

lemma row_live_create:
  "row_live (fst (session_create db i uid h now ex)) sid \<Longrightarrow> row_live db sid \<or> i = sid"
  by (auto simp: row_live_def session_at_create split: option.splits if_splits)

lemma row_live_delete:
  assumes "db_ok db" and "row_live (user_delete (fst (revoke_all_for_user db uid now)) uid) sid"
  shows "row_live db sid"
  using assms
  by (auto simp: row_live_def session_at_delete session_at_revoke_all revoke_all_ok
      split: option.splits if_splits)

lemma row_live_same_sessions: "session_table db = session_table db' \<Longrightarrow> row_live db sid = row_live db' sid"
  by (simp add: row_live_def)

lemma finish_sessions:
  assumes ok: "db_ok (a_db st)"
  shows "session_table (a_db (fst (login_finish E st n pw t salt rnow f))) = session_table (a_db st) \<or>
    (\<exists>db uid h. session_table db = session_table (a_db st) \<and>
       a_db (fst (login_finish E st n pw t salt rnow f)) =
         fst (session_create db (f_session_id f) uid h (f_now f) (refresh_expiry (e_config E) (f_now f))))"
  using ok
proof (cases rule: login_finish_cases [where n = n and E = E and pw = pw and t = t and salt = salt
      and rnow = rnow and f = f])
  case (accepted u st1)
  let ?st3 = "st1\<lparr>a_failed_logins := reset_failures (a_failed_logins st1) n\<rparr>"
  from finish_open_state(3) [OF ok accepted(1,4)] have "session_table (a_db ?st3) = session_table (a_db st)"
    by simp
  with open_session_db [of E ?st3 "load_user (e_load E) u" f] show ?thesis
    unfolding accepted(5) finish_result_db by metis
qed simp_all

lemma finish_live:
  assumes ok: "db_ok (a_db st)" and l: "row_live (a_db (fst (login_finish E st n pw t salt rnow f))) sid"
  shows "row_live (a_db st) sid \<or> f_session_id f = sid"
  using finish_sessions [OF ok, of E n pw t salt rnow f]
proof (elim disjE exE conjE)
  assume "session_table (a_db (fst (login_finish E st n pw t salt rnow f))) = session_table (a_db st)"
  from row_live_same_sessions [OF this] l show ?thesis by simp
next
  fix db uid h
  assume same: "session_table db = session_table (a_db st)" and new:
    "a_db (fst (login_finish E st n pw t salt rnow f)) =
      fst (session_create db (f_session_id f) uid h (f_now f) (refresh_expiry (e_config E) (f_now f)))"
  have "row_live db sid \<or> f_session_id f = sid" using l unfolding new by (rule row_live_create)
  then show ?thesis using row_live_same_sessions [OF same] by simp
qed

lemma session_step_live:
  assumes ok: "db_ok (a_db st)" and live: "session_live (auth_step E op st) sid"
  shows "session_live st sid \<or> opens_session op sid"
proof (cases op)
  case (OpRegister username pw new_id salt now)
  have "session_table (a_db (auth_step E op st)) = session_table (a_db st)"
    using register_db [of E st username pw new_id salt now] OpRegister
    by (auto simp: transaction_db split: sum.split)
  with live show ?thesis by (simp add: session_live_def)
next
  case (OpLoginFinish n pw t salt rnow f)
  with live finish_live [OF ok, of E n pw t salt rnow f sid] show ?thesis
    by (auto simp: session_live_row transaction_db split: sum.splits)
next
  case (OpRefresh tok f)
  with live refresh_db [OF ok, of E tok f] show ?thesis
    by (auto simp: session_live_row transaction_db split: sum.splits dest: row_live_rotate)
next
  case (OpLogout sid' now)
  with live ok show ?thesis
    by (auto simp: session_live_row logout_db transaction_db split: option.splits sum.splits
        dest: row_live_revoke)
next
  case (OpDelete i pw now)
  with live ok show ?thesis
    by (auto simp: session_live_row delete_db transaction_db split: option.splits if_splits sum.splits
        dest: row_live_delete)
qed (use live in \<open>simp add: session_live_def transaction_db split: sum.splits\<close>)

lemma finish_accounts:
  assumes ok: "db_ok (a_db st)"
  shows "user_at (a_db (fst (login_finish E st n pw t salt rnow f))) uid = None \<longleftrightarrow> user_at (a_db st) uid = None"
  using ok
proof (cases rule: login_finish_cases [where n = n and E = E and pw = pw and t = t and salt = salt
      and rnow = rnow and f = f])
  case (accepted u st1)
  let ?st3 = "st1\<lparr>a_failed_logins := reset_failures (a_failed_logins st1) n\<rparr>"
  have "user_at (a_db (fst (open_session E ?st3 (load_user (e_load E) u) f))) uid = user_at (a_db st1) uid"
    using open_session_db [of E ?st3 "load_user (e_load E) u" f] by auto
  then show ?thesis unfolding accepted(5) finish_result_db by (simp add: accepted(4) maybe_rehash_users)
qed simp_all

lemma account_step_exists:
  assumes ok: "db_ok (a_db st)" and ex: "account_exists (auth_step E op st) uid"
  shows "account_exists st uid \<or> registers op uid"
proof (cases op)
  case (OpRegister username pw new_id salt now)
  with ex register_db [of E st username pw new_id salt now] show ?thesis
    by (auto simp: account_exists_def user_create_def Let_def row_at_append transaction_db
        split: option.splits if_splits sum.splits)
next
  case (OpLoginFinish n pw t salt rnow f)
  with ex finish_accounts [OF ok, of E n pw t salt rnow f uid] show ?thesis
    by (cases "user_at (a_db st) uid") (auto simp: account_exists_def transaction_db split: sum.splits)
next
  case (OpRefresh tok f)
  with ex refresh_db [OF ok, of E tok f] show ?thesis
    by (auto simp: account_exists_def transaction_db split: sum.splits)
next
  case (OpLogout sid' now)
  with ex ok show ?thesis
    by (auto simp: account_exists_def logout_db transaction_db split: option.splits sum.splits)
next
  case (OpDelete i pw now)
  with ex ok show ?thesis
    by (auto simp: account_exists_def delete_db user_at_delete revoke_all_ok transaction_db
        split: option.splits if_splits sum.splits)
qed (use ex in \<open>simp add: account_exists_def transaction_db split: sum.splits\<close>)

interpretation sess: revocable "auth_step E" "\<lambda>st. db_ok (a_db st)" session_live opens_session for E
  by unfold_locales (auto simp: auth_step_db_ok dest: session_step_live)

interpretation acct: revocable "auth_step E" "\<lambda>st. db_ok (a_db st)" account_exists registers for E
  by unfold_locales (auto simp: auth_step_db_ok dest: account_step_exists)

end
