(* ===== verification/Samples.thy ===== *)
theory Samples
  imports AuthService
begin

text \<open>
  Concrete instances of the library parameters, on which the theorems are applied: a token
  format, a password hash and a digest that satisfy the documented laws without any
  cryptography, ASCII as the Unicode database, and a service over them.
\<close>

section \<open>A token format\<close>

definition put_int :: "int \<Rightarrow> ustr" where
  "put_int i = (if i \<ge> 0 then [0, nat i] else [1, nat (- i)])"

fun get_int :: "ustr \<Rightarrow> (int \<times> ustr) option" where
  "get_int (s # n # rest) = Some (if s = 0 then int n else - int n, rest)"
| "get_int _ = None"

definition put_str :: "ustr \<Rightarrow> ustr" where
  "put_str s = length s # s"

fun get_str :: "ustr \<Rightarrow> (ustr \<times> ustr) option" where
  "get_str [] = None"
| "get_str (n # r) = (if length r < n then None else Some (take n r, drop n r))"

fun put_claims :: "(ustr, json) dict \<Rightarrow> ustr" where
  "put_claims [] = []"
| "put_claims ((k, JStr s) # d) = put_str k @ 0 # put_str s @ put_claims d"
| "put_claims ((k, JInt i) # d) = put_str k @ 1 # put_int i @ put_claims d"
| "put_claims ((k, _) # d) = put_claims d"

fun get_claims :: "nat \<Rightarrow> ustr \<Rightarrow> (ustr, json) dict option" where
  "get_claims 0 r = (if r = [] then Some [] else None)"
| "get_claims (Suc n) r = (if r = [] then Some [] else
     case get_str r of None \<Rightarrow> None | Some (k, []) \<Rightarrow> None
     | Some (k, tag # r1) \<Rightarrow>
        if tag = 0
        then (case get_str r1 of None \<Rightarrow> None
              | Some (s, r2) \<Rightarrow> map_option ((#) (k, JStr s)) (get_claims n r2))
        else (case get_int r1 of None \<Rightarrow> None
              | Some (i, r2) \<Rightarrow> map_option ((#) (k, JInt i)) (get_claims n r2)))"

lemma get_put_str [simp]: "get_str (put_str s @ r) = Some (s, r)"
  by (simp add: put_str_def)

lemma get_put_int [simp]: "get_int (put_int i @ r) = Some (i, r)"
  by (simp add: put_int_def)

lemma put_str_not_Nil [simp]: "put_str s @ r \<noteq> []"
  by (simp add: put_str_def)

lemma get_put_claims:
  "list_all (\<lambda>(k, v). plain_claim v) d \<Longrightarrow> length d \<le> n \<Longrightarrow> get_claims n (put_claims d) = Some d"
proof (induction d arbitrary: n rule: put_claims.induct)
  case (1 n)
  then show ?case by (cases n) simp_all
next
  case (2 k s d)
  then show ?case by (cases n) simp_all
next
  case (3 k i d)
  then show ?case by (cases n) simp_all
qed simp_all

lemma put_claims_length:
  "list_all (\<lambda>(k, v). plain_claim v) d \<Longrightarrow> length d \<le> length (put_claims d)"
  by (induction d rule: put_claims.induct) (simp_all add: put_str_def)

text \<open>The token carries the key it was made with; decoding compares it.\<close>

definition sample_encode :: "(ustr, json) dict \<Rightarrow> ustr \<Rightarrow> ustr \<Rightarrow> ustr" where
  "sample_encode claims key alg = put_str alg @ put_str key @ put_claims claims"

definition sample_verdict :: "(ustr, json) dict \<Rightarrow> ustr \<Rightarrow> ustr \<Rightarrow> ustr list \<Rightarrow> datetime \<Rightarrow> jwt_verdict" where
  "sample_verdict claims iss aud req now =
     (if \<not> list_all (\<lambda>k. dict_get claims k \<noteq> None) req
      then InvalidTokenError (lit ''MissingRequiredClaimError'')
      else if dict_get claims (lit ''iss'') \<noteq> Some (JStr iss)
      then InvalidTokenError (lit ''InvalidIssuerError'')
      else if dict_get claims (lit ''aud'') \<noteq> Some (JStr aud)
      then InvalidTokenError (lit ''InvalidAudienceError'')
      else (case (dict_get claims (lit ''iat''), dict_get claims (lit ''exp'')) of
              (Some (JInt iat), Some (JInt ex)) \<Rightarrow>
                 if iat > int_timestamp now then InvalidTokenError (lit ''ImmatureSignatureError'')
                 else if ex \<le> int_timestamp now then ExpiredSignatureError else JwtClaims claims
            | _ \<Rightarrow> InvalidTokenError (lit ''DecodeError'')))"

definition sample_decode ::
  "ustr \<Rightarrow> ustr \<Rightarrow> ustr \<Rightarrow> ustr \<Rightarrow> ustr \<Rightarrow> ustr list \<Rightarrow> datetime \<Rightarrow> jwt_verdict" where
  "sample_decode token key alg iss aud req now =
     (case get_str token of None \<Rightarrow> InvalidTokenError (lit ''DecodeError'')
      | Some (a, r1) \<Rightarrow>
         (case get_str r1 of None \<Rightarrow> InvalidTokenError (lit ''DecodeError'')
          | Some (k, r2) \<Rightarrow>
              if a \<noteq> alg \<or> k \<noteq> key then InvalidTokenError (lit ''InvalidSignatureError'')
              else (case get_claims (length r2) r2 of
                      None \<Rightarrow> InvalidTokenError (lit ''DecodeError'')
                    | Some claims \<Rightarrow> sample_verdict claims iss aud req now)))"

definition sample_jwt :: jwt_lib where
  "sample_jwt = \<lparr>jwt_encode = sample_encode, jwt_decode = sample_decode\<rparr>"

lemma sample_jwt_ok: "jwt_ok sample_jwt key"
  unfolding jwt_ok_def
  by (simp add: sample_jwt_def sample_encode_def sample_decode_def get_put_claims put_claims_length
      sample_verdict_def claims_present_def list_all_iff)

section \<open>A password hash\<close>

definition sample_hash :: "a2_params \<Rightarrow> nat \<Rightarrow> ustr \<Rightarrow> ustr" where
  "sample_hash p salt pw =
     put_int (time_cost p) @ put_int (memory_cost p) @ put_int (parallelism p) @ salt # pw"

definition sample_extract :: "ustr \<Rightarrow> a2_params option" where
  "sample_extract h = (case get_int h of None \<Rightarrow> None | Some (a, r1) \<Rightarrow>
     (case get_int r1 of None \<Rightarrow> None | Some (b, r2) \<Rightarrow>
     (case get_int r2 of None \<Rightarrow> None
      | Some (c, r3) \<Rightarrow> Some \<lparr>time_cost = a, memory_cost = b, parallelism = c\<rparr>)))"

definition sample_verify :: "ustr \<Rightarrow> ustr \<Rightarrow> a2_verdict" where
  "sample_verify h pw = (if length h < 7 then InvalidHashError
     else if drop 7 h = pw then A2Match else VerifyMismatchError)"

definition sample_argon2 :: argon2 where
  "sample_argon2 = \<lparr>a2_hash = sample_hash, a2_verify = sample_verify, a2_extract = sample_extract\<rparr>"

lemma put_int_shape: "\<exists>a b. put_int i = [a, b]"
  by (simp add: put_int_def)

lemma sample_argon2_ok: "argon2_ok sample_argon2"
proof -
  have "sample_extract (sample_hash p salt pw) = Some p" for p salt pw
    by (simp add: sample_extract_def sample_hash_def)
  moreover have "sample_verify (sample_hash p salt pw) pw' = (if pw' = pw then A2Match else VerifyMismatchError)"
    for p salt pw pw'
    by (auto simp: sample_verify_def sample_hash_def put_int_def)
  ultimately show ?thesis by (simp add: argon2_ok_def sample_argon2_def)
qed

section \<open>A service\<close>

definition sample_env :: auth_env where
  "sample_env = \<lparr>e_config = auth_config_defaults (lit ''0123456789abcdef0123456789abcdef''),
     e_unicode = ascii_unicode, e_argon2 = sample_argon2, e_jwt = sample_jwt, e_sha256 = (\<lambda>b. b),
     e_dummy_salt = 0, e_load = (\<lambda>d. d)\<rparr>"

definition sample_state :: auth_state where
  "sample_state = new_service (e_config sample_env) empty_db"

definition sample_fresh :: "string \<Rightarrow> string \<Rightarrow> int \<Rightarrow> fresh" where
  "sample_fresh sid tok t = \<lparr>f_session_id = lit sid, f_refresh_token = lit tok,
     f_token_id = lit ''jti'', f_now = utc t\<rparr>"

text \<open>A registered account and the state holding it.\<close>

definition alice_row :: user_row where
  "alice_row = \<lparr>u_id = lit ''u1'', u_username = lit ''Alice'', u_normalized = lit ''alice'',
     u_password_hash = hash_password sample_argon2 ascii_unicode (e_config sample_env) 7
       (lit ''correct horse battery''),
     u_status = lit ''active'', u_created_at = utc 0, u_updated_at = utc 0\<rparr>"

definition alice_state :: auth_state where
  "alice_state = log_auth (sample_state\<lparr>a_db := \<lparr>user_table = [alice_row], session_table = []\<rparr>\<rparr>)
     ''registration_success'' [(''user_id'', LStr (lit ''u1''))]"

lemma alice_names:
  "validate_username ascii_unicode (lit ''Alice'') = Inr (lit ''alice'')"
  "validate_username ascii_unicode (lit ''alice'') = Inr (lit ''alice'')"
  "py_strip (is_space ascii_unicode) (lit ''Alice'') = lit ''Alice''"
  by code_simp+

lemma alice_password: "validate_policy (e_config sample_env) (lit ''correct horse battery'') = None"
  by code_simp

lemma sample_env_sel [simp]:
  "e_unicode sample_env = ascii_unicode" "e_argon2 sample_env = sample_argon2"
  "e_jwt sample_env = sample_jwt" "e_sha256 sample_env = (\<lambda>b. b)" "e_load sample_env = (\<lambda>d. d)"
  "algorithm (e_config sample_env) = lit ''HS256''"
  "access_token_ttl_minutes (e_config sample_env) = 15"
  "refresh_session_ttl_days (e_config sample_env) = 14"
  "max_failed_logins_per_account (e_config sample_env) = 10"
  by (simp_all add: sample_env_def auth_config_defaults_def)

lemma sample_fresh_sel [simp]:
  "f_session_id (sample_fresh sid tok t) = lit sid" "f_refresh_token (sample_fresh sid tok t) = lit tok"
  "f_token_id (sample_fresh sid tok t) = lit ''jti''" "f_now (sample_fresh sid tok t) = utc t"
  by (simp_all add: sample_fresh_def)

lemma alice_registers:
  "service_register sample_env sample_state (lit ''Alice'') (lit ''correct horse battery'') (lit ''u1'') 7
     (utc 0) = (alice_state, Inr alice_row)"
  by (simp add: service_register_def alice_names alice_password user_create_def sample_state_def
      new_service_def empty_db_def alice_state_def alice_row_def Let_def)

lemma sample_db_ok [simp]: "db_ok (a_db sample_state)" "db_ok (a_db alice_state)"
  by (simp_all add: sample_state_def new_service_def empty_db_def alice_state_def log_auth_def db_ok_def)

lemma alice_lookup [simp]:
  "user_named (a_db alice_state) (lit ''alice'') = Some alice_row"
  "user_at (a_db alice_state) (lit ''u1'') = Some alice_row"
  "session_table (a_db alice_state) = []"
  by (simp_all add: alice_state_def log_auth_def alice_row_def row_at_def)

lemma alice_row_sel [simp]:
  "u_id alice_row = lit ''u1''" "u_username alice_row = lit ''Alice''"
  "u_normalized alice_row = lit ''alice''" "is_active alice_row"
  "load_user (\<lambda>d. d) alice_row = alice_row"
  by (simp_all add: alice_row_def is_active_def load_user_def)

lemma alice_verify [simp]:
  "verify_password sample_argon2 ascii_unicode (u_password_hash alice_row) pw \<longleftrightarrow>
     pw = lit ''correct horse battery''"
  "\<not> needs_rehash sample_argon2 (e_config sample_env) (u_password_hash alice_row)"
  by (simp_all add: alice_row_def verify_own_hash [OF sample_argon2_ok]
      fresh_hash_no_rehash [OF sample_argon2_ok] normalize_password_def ascii_unicode_def)

lemma alice_window [simp]:
  "window_of (a_failed_logins alice_state) i = []" "max_failures (a_failed_logins alice_state) = 10"
  by (simp_all add: alice_state_def log_auth_def sample_state_def new_service_def new_tracker_def
      window_of_def)

lemma alice_not_blocked [simp]: "\<not> snd (is_blocked (a_failed_logins alice_state) i t)"
  by (simp add: is_blocked_snd live_window_def)

lemma sample_hash_token [simp]:
  "hash_refresh_token (\<lambda>b. b) (lit ''t1'') = Inr [116, 49]"
  "hash_refresh_token (\<lambda>b. b) (lit ''t2'') = Inr [116, 50]"
  by code_simp+

text \<open>The account after a login at 5 microseconds.\<close>

definition alice_login :: "auth_state \<times> (exn + issued_credentials)" where
  "alice_login = service_login sample_env alice_state (lit ''alice'') (lit ''correct horse battery'')
     0 1 8 (utc 0) (sample_fresh ''s1'' ''t1'' 5)"

definition alice_online :: auth_state where
  "alice_online = fst alice_login"

definition alice_session :: session_row where
  "alice_session = \<lparr>s_id = lit ''s1'', s_user_id = lit ''u1'', s_refresh_hash = [116, 49],
     s_created_at = utc 5, s_expires_at = refresh_expiry (e_config sample_env) (utc 5),
     s_revoked_at = None\<rparr>"

definition alice_credentials :: issued_credentials where
  "alice_credentials = credentials_for sample_env alice_row (lit ''s1'') (sample_fresh ''s1'' ''t1'' 5)"

lemma alice_logs_in:
  "snd alice_login = Inr alice_credentials"
  "a_db alice_online = \<lparr>user_table = [alice_row], session_table = [alice_session]\<rparr>"
proof -
  have b: "login_begin sample_env alice_state (lit ''alice'') 0 =
     (alice_state\<lparr>a_failed_logins := fst (is_blocked (a_failed_logins alice_state) (lit ''alice'') 0)\<rparr>,
      Inr (lit ''alice''))"
    by (simp add: login_begin_def alice_names split_beta)
  have db: "a_db alice_state = \<lparr>user_table = [alice_row], session_table = []\<rparr>"
    by (simp add: alice_state_def log_auth_def)
  show "snd alice_login = Inr alice_credentials"
    and "a_db alice_online = \<lparr>user_table = [alice_row], session_table = [alice_session]\<rparr>"
    unfolding alice_online_def alice_login_def service_login_def b
    by (simp_all add: login_finish_def verify_with_def maybe_rehash_def open_session_def
        session_create_def Let_def alice_credentials_def alice_session_def credentials_for_def db
        get_by_normalized_username_def scalar_one_or_none_def log_auth_def)
qed

lemma alice_online_sel [simp]:
  "db_ok (a_db alice_online)" "session_at (a_db alice_online) (lit ''s1'') = Some alice_session"
  "user_at (a_db alice_online) (lit ''u1'') = Some alice_row"
  "s_revoked_at alice_session = None" "s_id alice_session = lit ''s1''"
  "s_user_id alice_session = lit ''u1''" "s_refresh_hash alice_session = [116, 49]"
  "s_expires_at alice_session = refresh_expiry (e_config sample_env) (utc 5)"
  "load_session (\<lambda>d. d) alice_session = alice_session"
  by (simp_all add: alice_logs_in db_ok_def row_at_def alice_session_def load_session_def)

lemma alice_token_decodes:
  "decode_access_token sample_jwt ascii_unicode (e_config sample_env) (utc 6)
     (ic_access_token alice_credentials) =
   Inr \<lparr>c_user_id = lit ''u1'', c_session_id = lit ''s1'', c_token_id = lit ''jti'',
     c_issued_at = utc 0, c_expires_at = utc 900000000\<rparr>"
  using decode_issued [OF sample_jwt_ok, of "e_config sample_env" 5 6 ascii_unicode "lit ''u1''"
      "lit ''s1''" "lit ''jti''"]
  by (simp add: alice_credentials_def credentials_for_def minutes_us_def from_timestamp_def)

end
