(* ===== verification/AuthProps.thy ===== *)
theory AuthProps
  imports AuthInv Samples
begin

text \<open>
  What the authentication service promises, over the operations of \<open>AuthService\<close>: the
  exact conditions under which a token resolves, the uniform answer to failed logins, the
  round trips register/login and login/resolve, rotation, and the finality of logout and
  deletion.
\<close>

section \<open>Resolving a token\<close>

lemma is_usable_True: "is_usable s now = Inr True \<longleftrightarrow>
    s_revoked_at s = None \<and> dt_gt (s_expires_at s) now = Some True"
  by (auto simp: is_usable_def split: option.split)

lemma resolve_Inr:
  assumes "db_ok db"
  shows "resolve_access_token E db t now token = Inr i \<longleftrightarrow>
    (\<exists>claims s u. decode_access_token (e_jwt E) (e_unicode E) (e_config E) t token = Inr claims \<and>
       session_at db (c_session_id claims) = Some s \<and> s_revoked_at s = None \<and>
       dt_gt (e_load E (s_expires_at s)) now = Some True \<and>
       user_at db (c_user_id claims) = Some u \<and> is_active u \<and> s_user_id s = u_id u \<and>
       i = \<lparr>ai_user_id = u_id u, ai_username = u_username u, ai_session_id = s_id s\<rparr>)"
  (is "?l \<longleftrightarrow> ?r")
proof
  assume ?l
  with assms show ?r
    by (auto simp: resolve_access_token_def is_usable_True load_session_def
        split: sum.splits option.splits bool.splits if_splits)
next
  assume ?r
  then obtain claims s u where r:
    "decode_access_token (e_jwt E) (e_unicode E) (e_config E) t token = Inr claims"
    "session_at db (c_session_id claims) = Some s" "s_revoked_at s = None"
    "dt_gt (e_load E (s_expires_at s)) now = Some True"
    "user_at db (c_user_id claims) = Some u" "is_active u" "s_user_id s = u_id u"
    "i = \<lparr>ai_user_id = u_id u, ai_username = u_username u, ai_session_id = s_id s\<rparr>" by blast
  then have "is_usable (load_session (e_load E) s) now = Inr True"
    by (simp add: is_usable_True load_session_def)
  with r assms show ?l by (simp add: resolve_access_token_def)
qed

lemma resolve_live:
  assumes "db_ok (a_db st)" and "resolve_access_token E (a_db st) t now token = Inr i"
  shows "session_live st (ai_session_id i)" and "account_exists st (ai_user_id i)"
proof -
  from assms obtain sid uid s u where "session_at (a_db st) sid = Some s" "s_revoked_at s = None"
    "user_at (a_db st) uid = Some u" and i: "ai_user_id i = u_id u" "ai_session_id i = s_id s"
    by (auto simp: resolve_Inr)
  moreover from this have "s_id s = sid" "u_id u = uid" by (auto dest: row_at_Some_in)
  ultimately show "session_live st (ai_session_id i)" and "account_exists st (ai_user_id i)"
    by (simp_all add: session_live_def account_exists_def)
qed

lemma hash_lookup_live:
  assumes ok: "db_ok (a_db st)" and "get_by_refresh_hash load (a_db st) h = Inr (Some s)"
    and "s_revoked_at s = None"
  shows "session_live st (s_id s)"
proof -
  obtain r where r: "r \<in> set (session_table (a_db st))" "s = load_session load r"
    using assms(2) by (auto simp: get_by_refresh_hash_def scalar_one_or_none_def filter_eq_Cons_iff
        map_eq_Cons_conv split: list.splits)
  then have "session_at (a_db st) (s_id r) = Some r" using ok by (simp add: db_ok_def row_at_in)
  with r assms(3) show ?thesis by (simp add: session_live_def)
qed

lemma refresh_live:
  assumes ok: "db_ok (a_db st)" and "snd (service_refresh E st token f) = Inr c"
  shows "session_live st (ic_session_id c)"
  using assms(2)
  by (auto simp: service_refresh_def credentials_for_def is_usable_True
      split: sum.splits option.splits bool.splits if_splits intro: hash_lookup_live [OF ok])

text \<open>
  C6: an access token resolves to an identity exactly when it decodes, names a session that
  is neither revoked nor expired, and an active account that owns the session; the identity
  is that account's.
\<close>

theorem resolve_exactly:
  assumes "db_ok db"
  shows "resolve_access_token E db t now token = Inr i \<longleftrightarrow>
    (\<exists>claims s u. decode_access_token (e_jwt E) (e_unicode E) (e_config E) t token = Inr claims \<and>
       session_at db (c_session_id claims) = Some s \<and> s_revoked_at s = None \<and>
       dt_gt (e_load E (s_expires_at s)) now = Some True \<and>
       user_at db (c_user_id claims) = Some u \<and> is_active u \<and> s_user_id s = u_id u \<and>
       i = \<lparr>ai_user_id = u_id u, ai_username = u_username u, ai_session_id = s_id s\<rparr>)"
  by (rule resolve_Inr [OF assms])

theorem resolve_exactly_witness:
  "resolve_access_token sample_env (a_db alice_online) (utc 6) (utc 6) (ic_access_token alice_credentials) =
     Inr \<lparr>ai_user_id = lit ''u1'', ai_username = lit ''Alice'', ai_session_id = lit ''s1''\<rparr>"
  by (subst resolve_exactly) (simp_all add: alice_token_decodes refresh_expiry_def days_us_def)

text \<open>
  C9: logout is final. Whatever the service does afterwards, in any interleaving, and
  whatever token or refresh token is presented at whatever time, the session never again
  authenticates anyone, unless its id is drawn anew.
\<close>

theorem logout_is_final:
  assumes ok: "db_ok (a_db st)"
    and st': "st' = auth_run E ops (fst (service_logout E st sid now))"
    and new: "\<And>op. op \<in> set ops \<Longrightarrow> \<not> opens_session op sid"
  shows "(\<forall>t now' token i. resolve_access_token E (a_db st') t now' token = Inr i \<longrightarrow> ai_session_id i \<noteq> sid) \<and>
    (\<forall>rtoken f c. snd (service_refresh E st' rtoken f) = Inr c \<longrightarrow> ic_session_id c \<noteq> sid)"
proof -
  let ?s0 = "fst (service_logout E st sid now)"
  have dead: "\<not> session_live ?s0 sid"
    using ok by (auto simp: session_live_row logout_db row_live_def revoke_def session_at_update
        split: option.split dest: row_at_Some_in)
  have ok0: "db_ok (a_db ?s0)" using ok by (rule service_db_ok)
  from sess.dead_stays_dead [OF ok0 dead new] have "\<not> session_live st' sid"
    by (simp add: st' auth_run_def)
  moreover have "db_ok (a_db st')"
    using sess.run_ok [OF ok0] by (simp add: st' auth_run_def)
  ultimately show ?thesis using resolve_live(1) refresh_live by metis
qed

theorem logout_is_final_witness:
  "\<not> (\<exists>t now token i. resolve_access_token sample_env
     (a_db (auth_run sample_env [OpLoginBegin (lit ''alice'') 9, OpRefresh (lit ''t1'') (sample_fresh ''s1'' ''t2'' 9)]
        (fst (service_logout sample_env alice_online (lit ''s1'') (utc 8))))) t now token = Inr i \<and>
     ai_session_id i = lit ''s1'')"
proof -
  have new: "\<not> opens_session op (lit ''s1'')" if "op \<in> set [OpLoginBegin (lit ''alice'') 9,
      OpRefresh (lit ''t1'') (sample_fresh ''s1'' ''t2'' 9)]" for op
    using that by auto
  show ?thesis using logout_is_final [OF alice_online_sel(1) refl new] by blast
qed

text \<open>
  So is account deletion. Re-authenticated with the right password it removes the account
  and every session of it, and no later run of operations that does not register the same id
  again lets any token resolve to the account.
\<close>

lemma deletion_is_final:
  assumes ok: "db_ok (a_db st)" and u: "user_at (a_db st) (ai_user_id who) = Some u"
    and pw: "verify_password (e_argon2 E) (e_unicode E) (u_password_hash u) password"
    and st': "st' = auth_run E ops (fst (service_delete_account E st who password now))"
    and new: "\<And>op. op \<in> set ops \<Longrightarrow> \<not> registers op (ai_user_id who)"
  shows "(\<forall>t now' token i. resolve_access_token E (a_db st') t now' token = Inr i \<longrightarrow>
            ai_user_id i \<noteq> ai_user_id who) \<and>
    (\<forall>s \<in> set (session_table (a_db (fst (service_delete_account E st who password now)))).
       s_user_id s \<noteq> ai_user_id who)"
proof -
  let ?s0 = "fst (service_delete_account E st who password now)"
  have id: "u_id u = ai_user_id who" using u by (auto dest: row_at_Some_in)
  have db0: "a_db ?s0 = user_delete (fst (revoke_all_for_user (a_db st) (u_id u) now)) (u_id u)"
    using ok u pw by (simp add: delete_db)
  have dead: "\<not> account_exists ?s0 (ai_user_id who)"
    using ok by (simp add: account_exists_def db0 id user_at_delete revoke_all_ok)
  have ok0: "db_ok (a_db ?s0)" using ok by (rule service_db_ok)
  from acct.dead_stays_dead [OF ok0 dead new] have "\<not> account_exists st' (ai_user_id who)"
    by (simp add: st' auth_run_def)
  moreover have "db_ok (a_db st')" using acct.run_ok [OF ok0] by (simp add: st' auth_run_def)
  ultimately show ?thesis using resolve_live(2) db0 id by (auto simp: user_delete_def) metis
qed

lemma deletion_is_final_witness:
  "list_all (\<lambda>s. s_user_id s \<noteq> lit ''u1'') (session_table (a_db (fst (service_delete_account sample_env alice_online
      \<lparr>ai_user_id = lit ''u1'', ai_username = lit ''Alice'', ai_session_id = lit ''s1''\<rparr>
      (lit ''correct horse battery'') (utc 8)))))"
  unfolding list_all_iff using deletion_is_final [OF alice_online_sel(1) _ _ refl, of
      "\<lparr>ai_user_id = lit ''u1'', ai_username = lit ''Alice'', ai_session_id = lit ''s1''\<rparr>" alice_row
      sample_env "lit ''correct horse battery''" "[]" "utc 8"] by simp

section \<open>Login\<close>

lemma login_begin_Inr:
  "login_begin E st username t = (st1, Inr n) \<longleftrightarrow>
    validate_username (e_unicode E) username = Inr n \<and>
    \<not> snd (is_blocked (a_failed_logins st) n t) \<and>
    st1 = st\<lparr>a_failed_logins := fst (is_blocked (a_failed_logins st) n t)\<rparr>"
  by (auto simp: login_begin_def split: sum.split prod.splits bool.splits)

lemma login_begin_Inl:
  assumes "login_begin E st username t = (st1, Inl e)"
  shows "(\<exists>r. validate_username (e_unicode E) username = Inl r) \<and> st1 = dummy_verify E st \<and>
      e = auth_raise AUTH_INVALID_CREDENTIALS (lit ''malformed identifier'') \<or>
    e = auth_raise_status AUTH_RATE_LIMITED 429 (lit ''per-account failure threshold reached'')"
  using assms by (auto simp: login_begin_def split: sum.splits prod.splits bool.splits)

lemma open_session_exn: "snd (open_session E st u f) = Inl e \<Longrightarrow> e \<in> {UnicodeEncodeError, IntegrityError}"
  by (auto simp: open_session_def hash_refresh_token_def session_create_def Let_def
      split: sum.splits prod.splits option.splits if_splits)

text \<open>
  C26: a login that fails tells the caller nothing about the account. Unless the account is
  rate limited, every failure - malformed name, unknown account, wrong password, disabled
  account - has the same response and costs exactly one Argon2 verification, and none of
  them writes to the database.
\<close>

theorem login_failure_uniform:
  assumes ok: "db_ok (a_db st)"
    and fail: "service_login E st username password t t' salt rnow f = (st', Inl (AuthError e))"
    and unlimited: "err_code e \<noteq> AUTH_RATE_LIMITED"
  shows "auth_error_handler e = (401, lit ''AUTH_INVALID_CREDENTIALS'', lit ''Invalid credentials.'') \<and>
    length (a_work st') = length (a_work st) + 1 \<and> a_db st' = a_db st"
proof (cases "login_begin E st username t")
  case (Pair st1 r)
  show ?thesis
  proof (cases r)
    case (Inl x)
    then have "st' = st1" "x = AuthError e" using fail Pair by (simp_all add: service_login_def)
    with login_begin_Inl [OF Pair [unfolded Inl]] unlimited show ?thesis
      by (auto simp: auth_raise_def auth_raise_status_def auth_error_handler_def)
  next
    case (Inr n)
    then have fin: "login_finish E st1 n password t' salt rnow f = (st', Inl (AuthError e))"
      and st1: "a_db st1 = a_db st" "a_work st1 = a_work st"
      using fail Pair login_begin_Inr [of E st username t st1 n] by (simp_all add: service_login_def)
    have ok1: "db_ok (a_db st1)" using ok st1 by simp
    then show ?thesis
    proof (cases rule: login_finish_cases [where n = n and E = E and pw = password and t = t'
          and salt = salt and rnow = rnow and f = f])
      case (accepted u st2)
      let ?o = "open_session E (st2\<lparr>a_failed_logins := reset_failures (a_failed_logins st2) n\<rparr>)
          (load_user (e_load E) u) f"
      have "snd ?o = Inl (AuthError e)"
        using fin unfolding accepted(5) by (cases ?o) (auto split: sum.splits)
      then show ?thesis using open_session_exn by blast
    qed (use fin st1 in \<open>auto simp: auth_raise_def auth_error_handler_def\<close>)
  qed
qed

theorem login_failure_uniform_witness:
  "\<exists>st' e. service_login sample_env alice_state (lit ''alice'') (lit ''wrong'') 0 1 8 (utc 0)
      (sample_fresh ''s1'' ''t1'' 5) = (st', Inl (AuthError e)) \<and>
    auth_error_handler e = (401, lit ''AUTH_INVALID_CREDENTIALS'', lit ''Invalid credentials.'') \<and>
    length (a_work st') = length (a_work alice_state) + 1"
proof -
  let ?r = "service_login sample_env alice_state (lit ''alice'') (lit ''wrong'') 0 1 8 (utc 0)
      (sample_fresh ''s1'' ''t1'' 5)"
  have b: "login_begin sample_env alice_state (lit ''alice'') 0 =
     (alice_state\<lparr>a_failed_logins := fst (is_blocked (a_failed_logins alice_state) (lit ''alice'') 0)\<rparr>,
      Inr (lit ''alice''))"
    by (simp add: login_begin_Inr alice_names)
  have "snd ?r = Inl (auth_raise AUTH_INVALID_CREDENTIALS (lit ''password mismatch''))"
    by (simp add: service_login_def b login_finish_def verify_with_def)
  then have r: "?r = (fst ?r, Inl (AuthError \<lparr>err_code = AUTH_INVALID_CREDENTIALS, err_status = 401,
      err_reason = Some (lit ''password mismatch'')\<rparr>))"
    by (metis auth_raise_def prod.collapse)
  show ?thesis using login_failure_uniform [OF sample_db_ok(2) r] r by auto
qed

lemma open_session_Inr:
  assumes "open_session E st u f = (st', Inr c)"
  obtains h where "hash_refresh_token (e_sha256 E) (f_refresh_token f) = Inr h"
    and "session_at (a_db st) (f_session_id f) = None"
    and "c = credentials_for E u (f_session_id f) f"
    and "a_db st' = fst (session_create (a_db st) (f_session_id f) (u_id u) h (f_now f)
           (refresh_expiry (e_config E) (f_now f)))"
    and "a_failed_logins st' = a_failed_logins st"
  using assms
  by (fastforce simp: open_session_def session_create_def Let_def list_ex_iff row_at_None
      split: sum.splits prod.splits if_splits)

lemma rehashed_user:
  assumes "user_at (a_db st) k = Some u"
  obtains u' where "user_at (a_db (maybe_rehash E st v pw salt now)) k = Some u'"
    and "u_id u' = u_id u" and "u_username u' = u_username u" and "u_status u' = u_status u"
    and "u_normalized u' = u_normalized u" and "u_created_at u' = u_created_at u"
  using assms by (cases "needs_rehash (e_argon2 E) (e_config E) (u_password_hash v)"; cases "k = u_id v")
    (auto simp: maybe_rehash_def user_at_update)

text \<open>What a successful login has checked, and what it leaves.\<close>

lemma login_Inr:
  assumes ok: "db_ok (a_db st)"
    and login: "service_login E st username password t t' salt rnow f = (st', Inr c)"
  obtains n u h u' where "validate_username (e_unicode E) username = Inr n"
    and "\<not> snd (is_blocked (a_failed_logins st) n t)"
    and "user_named (a_db st) n = Some u"
    and "verify_password (e_argon2 E) (e_unicode E) (u_password_hash u) password" and "is_active u"
    and "c = credentials_for E (load_user (e_load E) u) (f_session_id f) f"
    and "hash_refresh_token (e_sha256 E) (f_refresh_token f) = Inr h"
    and "session_at (a_db st') (f_session_id f) = Some \<lparr>s_id = f_session_id f, s_user_id = u_id u,
           s_refresh_hash = h, s_created_at = f_now f,
           s_expires_at = refresh_expiry (e_config E) (f_now f), s_revoked_at = None\<rparr>"
    and "user_at (a_db st') (u_id u) = Some u'" and "u_id u' = u_id u"
    and "u_username u' = u_username u" and "is_active u'"
    and "window_of (a_failed_logins st') n = []" and "db_ok (a_db st')"
    and "u_created_at u' = u_created_at u"
proof -
  obtain st1 n where b: "login_begin E st username t = (st1, Inr n)"
    and fin: "login_finish E st1 n password t' salt rnow f = (st', Inr c)"
    using login by (auto simp: service_login_def split: prod.splits sum.splits)
  from b have v: "validate_username (e_unicode E) username = Inr n"
    and nb: "\<not> snd (is_blocked (a_failed_logins st) n t)" and st1: "a_db st1 = a_db st"
    by (auto simp: login_begin_Inr)
  have ok1: "db_ok (a_db st1)" using ok st1 by simp
  have ok': "db_ok (a_db st')"
    using login_finish_db_ok [OF ok1, of E n password t' salt rnow f] fin by simp
  from ok1 show thesis
  proof (cases rule: login_finish_cases [where n = n and E = E and pw = password and t = t'
        and salt = salt and rnow = rnow and f = f])
    case (accepted u st2)
    let ?st3 = "st2\<lparr>a_failed_logins := reset_failures (a_failed_logins st2) n\<rparr>"
    let ?u = "load_user (e_load E) u"
    obtain st4 where o: "open_session E ?st3 ?u f = (st4, Inr c)"
      and st4: "a_db st' = a_db st4" "a_failed_logins st' = a_failed_logins st4"
      using fin unfolding accepted(5)
      by (cases "open_session E ?st3 ?u f") (auto split: sum.splits)
    from o obtain h where h: "hash_refresh_token (e_sha256 E) (f_refresh_token f) = Inr h"
      "session_at (a_db ?st3) (f_session_id f) = None"
      "c = credentials_for E ?u (f_session_id f) f"
      "a_db st4 = fst (session_create (a_db ?st3) (f_session_id f) (u_id ?u) h (f_now f)
           (refresh_expiry (e_config E) (f_now f)))"
      "a_failed_logins st4 = a_failed_logins ?st3"
      by (rule open_session_Inr)
    have at: "user_at (a_db st1) (u_id u) = Some u" using ok1 accepted(1) by (rule named_user_at)
    obtain u' where u': "user_at (a_db st2) (u_id u) = Some u'" "u_id u' = u_id u"
      "u_username u' = u_username u" "u_status u' = u_status u" "u_created_at u' = u_created_at u"
      unfolding accepted(4)
      using rehashed_user [of "fst (verify_with E st1 (u_password_hash u) password)" "u_id u" u E
          ?u password salt rnow] at by auto
    show thesis
    proof (rule that [OF v nb _ accepted(2,3) h(3,1)])
      show "user_named (a_db st) n = Some u" using accepted(1) st1 by simp
      show "session_at (a_db st') (f_session_id f) = Some \<lparr>s_id = f_session_id f, s_user_id = u_id u,
           s_refresh_hash = h, s_created_at = f_now f,
           s_expires_at = refresh_expiry (e_config E) (f_now f), s_revoked_at = None\<rparr>"
        using h(2) by (simp add: st4 h(4) session_at_create)
      show "user_at (a_db st') (u_id u) = Some u'" using u'(1) by (simp add: st4 h(4))
      show "is_active u'" using u'(4) accepted(3) by (simp add: is_active_def)
      show "window_of (a_failed_logins st') n = []"
        by (simp add: st4 h(5) reset_failures_def window_of_def)
    qed (use u' ok' in simp_all)
  qed (use fin in auto)
qed

text \<open>
  How the driver the repository installs gives a date back: without its zone. And what the check
  of an unrevoked session, opened at \<open>t0\<close>, comes to at \<open>now\<close>, by whatever the database gives
  back for its expiry.
\<close>

definition sqlite_load :: "datetime \<Rightarrow> datetime" where
  "sqlite_load d = DT (wall d) None"

definition session_verdict :: "auth_env \<Rightarrow> datetime \<Rightarrow> datetime \<Rightarrow> exn + unit" where
  "session_verdict E t0 now =
     (case dt_gt (e_load E (refresh_expiry (e_config E) t0)) now of
        None \<Rightarrow> Inl TypeError
      | Some False \<Rightarrow> Inl (auth_raise AUTH_SESSION_REVOKED (lit ''session expired''))
      | Some True \<Rightarrow> Inr ())"

lemma sqlite_verdict: "e_load E = sqlite_load \<Longrightarrow> session_verdict E (utc t0) (utc now) = Inl TypeError"
  by (simp add: session_verdict_def refresh_expiry_def sqlite_load_def utc_def)

lemma aware_verdict:
  assumes "e_load E = id" and "now < t0 + days_us (refresh_session_ttl_days (e_config E))"
  shows "session_verdict E (utc t0) (utc now) = Inr ()"
  using assms by (simp add: session_verdict_def refresh_expiry_def)

text \<open>The access token of a login resolves to the account that logged in.\<close>

lemma login_resolves:
  assumes ok: "db_ok (a_db st)" and J: "jwt_ok (e_jwt E) (signing_secret (e_config E))"
    and alg: "algorithm (e_config E) = lit ''HS256''"
    and login: "service_login E st username password t t' salt rnow f = (st', Inr c)"
    and f: "f_now f = utc t0" "0 \<le> t0" "t0 \<le> now" "0 \<le> access_token_ttl_minutes (e_config E)"
    and range: "t0 + minutes_us (access_token_ttl_minutes (e_config E)) < 253402300800 * 1000000"
    and before: "now div 1000000 < (t0 + minutes_us (access_token_ttl_minutes (e_config E))) div 1000000"
  shows "\<exists>n u. validate_username (e_unicode E) username = Inr n \<and> user_named (a_db st) n = Some u \<and>
    is_active u \<and> verify_password (e_argon2 E) (e_unicode E) (u_password_hash u) password \<and>
    \<not> snd (is_blocked (a_failed_logins st) n t) \<and> window_of (a_failed_logins st') n = [] \<and>
    ic_user_id c = u_id u \<and>
    resolve_access_token E (a_db st') (utc now) now' (ic_access_token c) =
      map_sum id (\<lambda>_. \<lparr>ai_user_id = u_id u, ai_username = u_username u, ai_session_id = ic_session_id c\<rparr>)
        (session_verdict E (utc t0) now')"
proof -
  obtain n u h u' where L: "validate_username (e_unicode E) username = Inr n"
    "\<not> snd (is_blocked (a_failed_logins st) n t)" "user_named (a_db st) n = Some u"
    "verify_password (e_argon2 E) (e_unicode E) (u_password_hash u) password" "is_active u"
    "c = credentials_for E (load_user (e_load E) u) (f_session_id f) f"
    "session_at (a_db st') (f_session_id f) = Some \<lparr>s_id = f_session_id f, s_user_id = u_id u,
           s_refresh_hash = h, s_created_at = f_now f,
           s_expires_at = refresh_expiry (e_config E) (f_now f), s_revoked_at = None\<rparr>"
    "user_at (a_db st') (u_id u) = Some u'" "u_id u' = u_id u" "u_username u' = u_username u"
    "is_active u'" "window_of (a_failed_logins st') n = []" "db_ok (a_db st')"
    "u_created_at u' = u_created_at u"
    by (rule login_Inr [OF ok login])
  have "decode_access_token (e_jwt E) (e_unicode E) (e_config E) (utc now) (ic_access_token c) =
     Inr \<lparr>c_user_id = u_id u, c_session_id = f_session_id f, c_token_id = f_token_id f,
       c_issued_at = from_timestamp (t0 div 1000000),
       c_expires_at = from_timestamp ((t0 + minutes_us (access_token_ttl_minutes (e_config E))) div 1000000)\<rparr>"
    using decode_issued [OF J alg f(2-4) range, of "e_unicode E" "u_id u" "f_session_id f" "f_token_id f"]
      before by (simp add: L(6) credentials_for_def f(1))
  then have "resolve_access_token E (a_db st') (utc now) now' (ic_access_token c) =
      map_sum id (\<lambda>_. \<lparr>ai_user_id = u_id u, ai_username = u_username u, ai_session_id = f_session_id f\<rparr>)
        (session_verdict E (utc t0) now')"
    using L(7-11,13) by (simp add: resolve_access_token_def session_verdict_def is_usable_def load_session_def load_user_def
        is_active_def revoked_reason_def f(1) split: option.split bool.split)
  with L show ?thesis by (simp add: credentials_for_def)
qed

text \<open>
  C27: login succeeds only with an active account under the normalised name, a password that
  verifies and a window that is not full; the credentials are that account's and the failure
  window of the name is cleared. What the access token is then worth until it expires depends on
  how the database gives dates back: as long as the expiry of the session compares as later than
  the clock it resolves to exactly that identity, once it compares as past the token is refused
  as of an expired session, and where the two do not compare the check raises \<open>TypeError\<close>. With
  the driver the repository installs, which drops the zone, it always does.
\<close>

theorem login_then_resolve:
  assumes ok: "db_ok (a_db st)" and J: "jwt_ok (e_jwt E) (signing_secret (e_config E))"
    and alg: "algorithm (e_config E) = lit ''HS256''"
    and login: "service_login E st username password t t' salt rnow f = (st', Inr c)"
    and f: "f_now f = utc t0" "0 \<le> t0" "t0 \<le> now" "0 \<le> access_token_ttl_minutes (e_config E)"
    and range: "t0 + minutes_us (access_token_ttl_minutes (e_config E)) < 253402300800 * 1000000"
    and before: "now div 1000000 < (t0 + minutes_us (access_token_ttl_minutes (e_config E))) div 1000000"
  shows "(\<exists>n u. validate_username (e_unicode E) username = Inr n \<and> user_named (a_db st) n = Some u \<and>
    is_active u \<and> verify_password (e_argon2 E) (e_unicode E) (u_password_hash u) password \<and>
    \<not> snd (is_blocked (a_failed_logins st) n t) \<and> window_of (a_failed_logins st') n = [] \<and>
    ic_user_id c = u_id u \<and>
    resolve_access_token E (a_db st') (utc now) (utc now') (ic_access_token c) =
      (case dt_gt (e_load E (refresh_expiry (e_config E) (utc t0))) (utc now') of
         Some True \<Rightarrow> Inr \<lparr>ai_user_id = u_id u, ai_username = u_username u, ai_session_id = ic_session_id c\<rparr>
       | Some False \<Rightarrow> Inl (auth_raise AUTH_SESSION_REVOKED (lit ''session expired''))
       | None \<Rightarrow> Inl TypeError)) \<and>
    (e_load E = sqlite_load \<longrightarrow>
      resolve_access_token E (a_db st') (utc now) (utc now') (ic_access_token c) = Inl TypeError)"
  using login_resolves [OF assms, of "utc now'"] sqlite_verdict [of E t0 now']
  by (auto simp: session_verdict_def split: option.splits bool.splits)

theorem login_then_resolve_witness:
  "resolve_access_token sample_env (a_db alice_online) (utc 6) (utc 7) (ic_access_token alice_credentials) =
     Inr \<lparr>ai_user_id = lit ''u1'', ai_username = lit ''Alice'', ai_session_id = lit ''s1''\<rparr>"
proof -
  have "service_login sample_env alice_state (lit ''alice'') (lit ''correct horse battery'') 0 1 8 (utc 0)
      (sample_fresh ''s1'' ''t1'' 5) = (alice_online, Inr alice_credentials)"
    using alice_logs_in(1) by (simp add: alice_online_def alice_login_def prod_eq_iff)
  from login_then_resolve [OF sample_db_ok(2) _ _ this, of 5 6 7] sample_jwt_ok
  show ?thesis
    by (auto simp: minutes_us_def days_us_def refresh_expiry_def alice_names alice_credentials_def credentials_for_def)
qed

section \<open>Registration\<close>

lemma register_Inr:
  assumes "service_register E st username password new_id salt now = (st', Inr u)"
  obtains n where "validate_username (e_unicode E) username = Inr n"
    and "validate_policy (e_config E) password = None"
    and "\<forall>r \<in> set (user_table (a_db st)). u_id r \<noteq> new_id \<and> u_normalized r \<noteq> n"
    and "u = \<lparr>u_id = new_id, u_username = py_strip (is_space (e_unicode E)) username, u_normalized = n,
           u_password_hash = hash_password (e_argon2 E) (e_unicode E) (e_config E) salt password,
           u_status = account_status_value ACTIVE, u_created_at = now, u_updated_at = now\<rparr>"
    and "a_db st' = (a_db st)\<lparr>user_table := user_table (a_db st) @ [u]\<rparr>"
    and "a_failed_logins st' = a_failed_logins st"
  using assms
  by (fastforce simp: service_register_def user_create_def Let_def list_ex_iff
      split: sum.splits option.splits password_policy_error.splits if_splits)

lemma row_at_snoc_new: "row_at f rows (f r) = None \<Longrightarrow> row_at f (rows @ [r]) (f r) = Some r"
  by (simp add: row_at_append)

text \<open>
  C33: who registers can log in: with any spelling of the name that normalises to the same
  account name and any spelling of the password with the same NFKC form, as long as the
  account's failure window is not full. The credentials carry the name as typed, stripped.
\<close>

theorem register_then_login:
  assumes ok: "db_ok (a_db st)" and A: "argon2_ok (e_argon2 E)"
    and reg: "service_register E st username password new_id salt now = (st1, Inr u)"
    and same: "validate_username (e_unicode E) username' = validate_username (e_unicode E) username"
      "normalize_password (e_unicode E) password' = normalize_password (e_unicode E) password"
    and open_window: "\<not> snd (is_blocked (a_failed_logins st1) (normalize_username (e_unicode E) username) t)"
    and fresh: "hash_refresh_token (e_sha256 E) (f_refresh_token f) = Inr h"
      "session_at (a_db st) (f_session_id f) = None"
  shows "\<exists>st2 c. service_login E st1 username' password' t t' salt' rnow f = (st2, Inr c) \<and>
    ic_user_id c = new_id \<and> ic_username c = py_strip (is_space (e_unicode E)) username \<and>
    ic_session_id c = f_session_id f"
proof -
  obtain n where R: "validate_username (e_unicode E) username = Inr n"
    "\<forall>r \<in> set (user_table (a_db st)). u_id r \<noteq> new_id \<and> u_normalized r \<noteq> n"
    "u = \<lparr>u_id = new_id, u_username = py_strip (is_space (e_unicode E)) username, u_normalized = n,
       u_password_hash = hash_password (e_argon2 E) (e_unicode E) (e_config E) salt password,
       u_status = account_status_value ACTIVE, u_created_at = now, u_updated_at = now\<rparr>"
    "a_db st1 = (a_db st)\<lparr>user_table := user_table (a_db st) @ [u]\<rparr>"
    by (rule register_Inr [OF reg])
  have ok1: "db_ok (a_db st1)"
    using register_db_ok [OF ok, of E username password new_id salt now] reg by simp
  have at: "user_named (a_db st1) n = Some u"
  proof -
    have "user_named (a_db st) n = None" using R(2) by (simp add: row_at_None)
    then show ?thesis by (simp add: R(3,4) row_at_append)
  qed
  have n: "normalize_username (e_unicode E) username = n" using R(1) by (simp add: validate_username_Inr)
  obtain st1' where b: "login_begin E st1 username' t = (st1', Inr n)" and st1': "a_db st1' = a_db st1"
    using R(1) same open_window n by (simp add: login_begin_Inr)
  have v: "verify_password (e_argon2 E) (e_unicode E) (u_password_hash u) password'"
    using A same(2) by (simp add: R(3) verify_own_hash)
  have nr: "\<not> needs_rehash (e_argon2 E) (e_config E) (u_password_hash u)"
    using A by (simp add: R(3) fresh_hash_no_rehash)
  have new: "list_ex (\<lambda>s. s_id s = f_session_id f) (session_table (a_db st)) = False"
    using fresh(2) by (simp add: row_at_None list_ex_iff)
  have act: "is_active u" by (simp add: R(3) is_active_def)
  have same_table: "session_table (a_db st1) = session_table (a_db st)" by (simp add: R(4))
  have "\<exists>st2 c. login_finish E st1' n password' t' salt' rnow f = (st2, Inr c) \<and>
      c = credentials_for E (load_user (e_load E) u) (f_session_id f) f"
    using at v nr act ok1 fresh(1) st1' new same_table
    by (simp add: login_finish_def verify_with_def maybe_rehash_def open_session_def session_create_def
        Let_def)
  then show ?thesis using b by (auto simp: service_login_def credentials_for_def R(3))
qed

theorem register_then_login_witness:
  "\<exists>st c. service_login sample_env alice_state (lit ''alice'') (lit ''correct horse battery'') 0 1 8 (utc 0)
      (sample_fresh ''s1'' ''t1'' 5) = (st, Inr c) \<and> ic_username c = lit ''Alice''"
  using register_then_login [OF sample_db_ok(1) _ alice_registers, of "lit ''alice''"
      "lit ''correct horse battery''" 0 "sample_fresh ''s1'' ''t1'' 5" "[116, 49]" 1 8 "utc 0"]
  by (auto simp: alice_names sample_argon2_ok sample_state_def new_service_def empty_db_def row_at_def)

text \<open>
  An account name is taken once, whatever its spelling: after a registration every other
  one whose name normalises to the same gets the same 409 and changes no table; and the
  name that is stored is canonical.
\<close>

lemma register_once:
  assumes reg: "service_register E st username password new_id salt now = (st1, Inr u)"
    and later: "user_named (a_db st2) (u_normalized u) \<noteq> None"
    and same: "validate_username (e_unicode E) username' = Inr (u_normalized u)"
      "validate_policy (e_config E) password' = None"
  shows "is_valid_identifier (u_normalized u) \<and>
    snd (service_register E st2 username' password' id' salt' now') =
      Inl (auth_raise_status AUTH_REGISTRATION_REJECTED 409 (lit ''identifier already registered'')) \<and>
    a_db (fst (service_register E st2 username' password' id' salt' now')) = a_db st2"
proof -
  obtain n where "validate_username (e_unicode E) username = Inr n" "u_normalized u = n"
    by (rule register_Inr [OF reg]) auto
  moreover have "list_ex (\<lambda>r. u_id r = id' \<or> u_normalized r = u_normalized u) (user_table (a_db st2))"
    using later by (auto simp: list_ex_iff row_at_None)
  ultimately show ?thesis
    using same username_is_identifier by (auto simp: service_register_def user_create_def Let_def)
qed

lemma register_once_witness:
  "snd (service_register sample_env alice_state (lit ''alice'') (lit ''correct horse battery'') (lit ''u2'') 9 (utc 3)) =
     Inl (auth_raise_status AUTH_REGISTRATION_REJECTED 409 (lit ''identifier already registered''))"
  using register_once [OF alice_registers, of alice_state "lit ''alice''" "lit ''correct horse battery''"
      "lit ''u2''" 9 "utc 3"]
  by (simp add: alice_names alice_password)

section \<open>Refresh\<close>

lemma refresh_Inr:
  assumes "service_refresh E st token f = (st', Inr c)"
  obtains h h' s u where "hash_refresh_token (e_sha256 E) token = Inr h"
    and "get_by_refresh_hash (e_load E) (a_db st) h = Inr (Some s)"
    and "is_usable s (f_now f) = Inr True"
    and "get_by_id (e_load E) (a_db st) (s_user_id s) = Inr (Some u)" and "is_active u"
    and "hash_refresh_token (e_sha256 E) (f_refresh_token f) = Inr h'"
    and "a_db st' = rotate_refresh_token (a_db st) s h' (refresh_expiry (e_config E) (f_now f))"
    and "c = credentials_for E u (s_id s) f"
  using assms
  by (fastforce simp: service_refresh_def split: sum.splits option.splits bool.splits if_splits)

lemma hash_lookup_Some:
  assumes "get_by_refresh_hash load db h = Inr (Some s)"
  obtains r where "filter (\<lambda>s. s_refresh_hash s = h) (session_table db) = [r]" and "s = load_session load r"
  using assms by (auto simp: get_by_refresh_hash_def scalar_one_or_none_def map_eq_Cons_conv
      split: list.splits)

text \<open>
  C11: a refresh rotates. The presented token is not recognised again, the new one identifies
  the same session with its expiry moved, and no other session row changes.
\<close>

theorem refresh_rotates:
  assumes ok: "db_ok (a_db st)" and r: "service_refresh E st token f = (st', Inr c)"
    and tok: "hash_refresh_token (e_sha256 E) token = Inr h"
    and new: "hash_refresh_token (e_sha256 E) (f_refresh_token f) = Inr h'"
      "\<forall>s \<in> set (session_table (a_db st)). s_refresh_hash s \<noteq> h'"
  shows "snd (service_refresh E st' token f2) =
      Inl (auth_raise AUTH_SESSION_REVOKED (lit ''refresh token not recognized'')) \<and>
    (\<exists>s. get_by_refresh_hash (e_load E) (a_db st') h' = Inr (Some s) \<and> s_id s = ic_session_id c \<and>
       s_revoked_at s = None \<and> s_expires_at s = e_load E (refresh_expiry (e_config E) (f_now f))) \<and>
    (\<forall>sid. sid \<noteq> ic_session_id c \<longrightarrow> session_at (a_db st') sid = session_at (a_db st) sid)"
proof -
  obtain s u where R: "get_by_refresh_hash (e_load E) (a_db st) h = Inr (Some s)"
    "is_usable s (f_now f) = Inr True" "c = credentials_for E u (s_id s) f"
    and db: "a_db st' = rotate_refresh_token (a_db st) s h' (refresh_expiry (e_config E) (f_now f))"
    using tok new(1) by (auto intro: refresh_Inr [OF r])
  obtain row where row: "filter (\<lambda>s. s_refresh_hash s = h) (session_table (a_db st)) = [row]"
    "s = load_session (e_load E) row" using R(1) by (rule hash_lookup_Some)
  define g where "g = (\<lambda>x :: session_row. if s_id x = s_id s
     then x\<lparr>s_refresh_hash := h', s_expires_at := refresh_expiry (e_config E) (f_now f)\<rparr> else x)"
  have st: "session_table (a_db st') = map g (session_table (a_db st))"
    by (simp add: db rotate_refresh_token_def session_update_def g_def)
  have in_row: "row \<in> set (session_table (a_db st))" "s_refresh_hash row = h"
    using row(1) by (auto simp: filter_eq_Cons_iff)
  have uniq: "x = row" if "x \<in> set (session_table (a_db st))" "s_refresh_hash x = h" for x
  proof -
    have "x \<in> set (filter (\<lambda>s. s_refresh_hash s = h) (session_table (a_db st)))" using that by simp
    then show ?thesis by (simp add: row(1))
  qed
  have "h' \<noteq> h" using new(2) in_row by auto
  have same_id: "x = row" if "x \<in> set (session_table (a_db st))" "s_id x = s_id s" for x
    using that ok in_row row(2) by (auto simp: db_ok_def distinct_map dest: inj_onD)
  have "filter (\<lambda>x. s_refresh_hash x = h) (session_table (a_db st')) = []"
    using uniq \<open>h' \<noteq> h\<close> row(2) by (auto simp: st filter_empty_conv g_def)
  then have none: "get_by_refresh_hash (e_load E) (a_db st') h = Inr None"
    by (simp add: get_by_refresh_hash_def scalar_one_or_none_def)
  have "filter (\<lambda>x. s_refresh_hash x = h') (session_table (a_db st')) =
      map g (filter (\<lambda>x. s_id x = s_id s) (session_table (a_db st)))"
    using new(2) by (auto simp: st filter_map comp_def g_def intro!: arg_cong [where f = "map _"] filter_cong)
  moreover have "scalar_one_or_none (map (load_session (e_load E) \<circ> g)
      (filter (\<lambda>x. s_id x = s_id s) (session_table (a_db st)))) = Inr (Some (load_session (e_load E) (g row)))"
    using ok row(2) in_row row_at_in [of s_id "session_table (a_db st)" row]
    by (subst scalar_unique) (simp_all add: db_ok_def)
  ultimately have "get_by_refresh_hash (e_load E) (a_db st') h' = Inr (Some (load_session (e_load E) (g row)))"
    by (simp add: get_by_refresh_hash_def)
  moreover have "s_revoked_at row = None" using R(2) row(2) by (simp add: is_usable_True)
  ultimately show ?thesis using none tok R(3) row(2)
    by (auto simp: service_refresh_def g_def load_session_def credentials_for_def db
        rotate_refresh_token_def session_at_update)
qed

theorem refresh_rotates_witness:
  "\<exists>st c. service_refresh sample_env alice_online (lit ''t1'') (sample_fresh ''s2'' ''t2'' 9) = (st, Inr c) \<and>
     snd (service_refresh sample_env st (lit ''t1'') (sample_fresh ''s3'' ''t3'' 10)) =
       Inl (auth_raise AUTH_SESSION_REVOKED (lit ''refresh token not recognized''))"
proof -
  let ?r = "service_refresh sample_env alice_online (lit ''t1'') (sample_fresh ''s2'' ''t2'' 9)"
  have "snd ?r = Inr (credentials_for sample_env alice_row (lit ''s1'') (sample_fresh ''s2'' ''t2'' 9))"
    by (simp add: service_refresh_def get_by_refresh_hash_def alice_logs_in scalar_one_or_none_def
        is_usable_def refresh_expiry_def days_us_def get_by_id_def)
  then have r: "?r = (fst ?r, Inr (credentials_for sample_env alice_row (lit ''s1'') (sample_fresh ''s2'' ''t2'' 9)))"
    by (simp add: prod_eq_iff)
  show ?thesis
    using refresh_rotates [OF alice_online_sel(1) r, of "[116, 49]" "[116, 50]" "sample_fresh ''s3'' ''t3'' 10"] r
    by (auto simp: alice_logs_in)
qed

section \<open>Databases that drop the time zone\<close>

text \<open>
  Over a database that gives dates back without their zone, no session that is not
  revoked ever authorizes anything: checking its expiry raises \<open>TypeError\<close>, which neither
  \<open>resolve_access_token\<close> nor \<open>refresh\<close> catches.
\<close>

lemma naive_dates_break_sessions:
  assumes ok: "db_ok (a_db st)" and load: "e_load E = sqlite_load"
    and row: "session_at (a_db st) sid = Some s" "s_revoked_at s = None"
    and clock: "f_now f = utc now"
    and rtok: "hash_refresh_token (e_sha256 E) rtoken = Inr h"
      "get_by_refresh_hash (e_load E) (a_db st) h = Inr (Some (load_session (e_load E) s))"
    and tok: "decode_access_token (e_jwt E) (e_unicode E) (e_config E) t token = Inr claims"
      "c_session_id claims = sid"
  shows "resolve_access_token E (a_db st) t (utc now) token = Inl TypeError \<and>
    service_refresh E st rtoken f = (st, Inl TypeError)"
proof -
  have "is_usable (load_session (e_load E) s) (utc now) = Inl TypeError"
    using row(2) by (simp add: is_usable_def load_session_def load sqlite_load_def utc_def)
  with ok row rtok tok clock show ?thesis
    by (simp add: resolve_access_token_def service_refresh_def)
qed

lemma naive_dates_break_sessions_witness:
  "resolve_access_token (sample_env\<lparr>e_load := sqlite_load\<rparr>) (a_db alice_online) (utc 6) (utc 7)
     (ic_access_token alice_credentials) = Inl TypeError"
  using naive_dates_break_sessions [OF alice_online_sel(1) _ alice_online_sel(2), of
      "sample_env\<lparr>e_load := sqlite_load\<rparr>" "sample_fresh ''s2'' ''t2'' 7" 7 "lit ''t1''" "[116, 49]"
      "utc 6" "ic_access_token alice_credentials"]
  by (simp add: alice_token_decodes get_by_refresh_hash_def alice_logs_in(2) scalar_one_or_none_def)

section \<open>What reaches the log\<close>

lemma finish_log:
  assumes ok: "db_ok (a_db st)" and u: "user_named (a_db st) n = Some u"
    and h: "hash_refresh_token (e_sha256 E) (f_refresh_token f) = Inr h"
  shows "a_log (fst (login_finish E st n pw t salt rnow f)) = a_log st @
    (if \<not> verify_password (e_argon2 E) (e_unicode E) (u_password_hash u) pw
     then [auth_log ''authentication_failure''
             [(''reason'', LStr (lit ''password_mismatch'')), (''user_id'', LStr (u_id u))]]
     else if \<not> is_active u
     then [auth_log ''authentication_failure''
             [(''reason'', LStr (lit ''account_disabled'')), (''user_id'', LStr (u_id u))]]
     else (if needs_rehash (e_argon2 E) (e_config E) (u_password_hash u)
           then [auth_log ''password_rehashed'' [(''user_id'', LStr (u_id u))]] else []) @
       (if session_at (a_db st) (f_session_id f) \<noteq> None then []
        else map (\<lambda>ev. auth_log ev [(''user_id'', LStr (u_id u)), (''session_id'', LStr (f_session_id f))])
               [''session_created'', ''authentication_success'']))"
proof (cases "verify_password (e_argon2 E) (e_unicode E) (u_password_hash u) pw \<and> is_active u")
  case False
  then show ?thesis using ok u
    by (cases "verify_password (e_argon2 E) (e_unicode E) (u_password_hash u) pw")
       (simp_all add: login_finish_def verify_with_def log_auth_def)
next
  case True
  have "list_ex (\<lambda>s. s_id s = f_session_id f) (session_table (a_db st)) \<longleftrightarrow>
      session_at (a_db st) (f_session_id f) \<noteq> None"
    by (auto simp: list_ex_iff row_at_None)
  then show ?thesis using True ok u h
    by (simp add: login_finish_def verify_with_def maybe_rehash_def open_session_def
        session_create_def log_auth_def credentials_for_def Let_def)
qed

text \<open>
  The log of a login shows of the password only whether it verified, and of the fresh
  credentials only the session id: two logins of one account that agree on these write the
  same records, whatever the passwords, the refresh tokens and the token ids are.
\<close>

lemma login_log_private:
  assumes ok: "db_ok (a_db st)" and n: "validate_username (e_unicode E) username = Inr n"
    and same: "\<And>u. user_named (a_db st) n = Some u \<Longrightarrow>
        verify_password (e_argon2 E) (e_unicode E) (u_password_hash u) password =
        verify_password (e_argon2 E) (e_unicode E) (u_password_hash u) password'"
    and ids: "f_session_id f = f_session_id f'"
      "hash_refresh_token (e_sha256 E) (f_refresh_token f) = Inr h"
      "hash_refresh_token (e_sha256 E) (f_refresh_token f') = Inr h'"
  shows "a_log (fst (service_login E st username password t t' salt rnow f)) =
    a_log (fst (service_login E st username password' t t' salt' rnow' f'))"
proof (cases "snd (is_blocked (a_failed_logins st) n t)")
  case True
  then obtain tr where "is_blocked (a_failed_logins st) n t = (tr, True)" by (metis prod.collapse)
  then show ?thesis using n by (simp add: service_login_def login_begin_def)
next
  case False
  define st1 where "st1 = st\<lparr>a_failed_logins := fst (is_blocked (a_failed_logins st) n t)\<rparr>"
  have b: "login_begin E st username t = (st1, Inr n)" using False n by (simp add: login_begin_Inr st1_def)
  have db: "a_db st1 = a_db st" by (simp add: st1_def)
  have "a_log (fst (login_finish E st1 n password t' salt rnow f)) =
      a_log (fst (login_finish E st1 n password' t' salt' rnow' f'))"
  proof (cases "user_named (a_db st) n")
    case None
    then show ?thesis using ok db by (simp add: login_finish_def)
  next
    case (Some u)
    then show ?thesis using ok db ids same [OF Some]
      by (simp add: finish_log [of st1 n u E f h] finish_log [of st1 n u E f' h'])
  qed
  then show ?thesis by (simp add: service_login_def b split: prod.split sum.split)
qed

lemma login_log_private_witness:
  "a_log (fst (service_login sample_env alice_state (lit ''alice'') (lit ''wrong'') 0 1 8 (utc 0)
      (sample_fresh ''s1'' ''t1'' 5))) =
   a_log (fst (service_login sample_env alice_state (lit ''alice'') (lit ''bad'') 0 1 9 (utc 2)
      (sample_fresh ''s1'' ''t2'' 5)))"
  by (rule login_log_private [where n = "lit ''alice''"]) (auto simp: alice_names)

end
