(* ===== verification/AsyncQueue.thy ===== *)
theory AsyncQueue
  imports Prelude
begin

text \<open>
  The part of \<open>asyncio.Queue\<close> a connection uses for its outbound messages: a bounded
  FIFO with the counter of unfinished tasks that \<open>task_done\<close> decrements and
  \<open>join\<close> waits for.
\<close>

record 'e async_queue =
  aq_items :: "'e list"
  aq_maxsize :: int
  aq_unfinished :: int

definition aq_new :: "int \<Rightarrow> 'e async_queue" where
  "aq_new n = \<lparr>aq_items = [], aq_maxsize = n, aq_unfinished = 0\<rparr>"

definition aq_full :: "'e async_queue \<Rightarrow> bool" where
  "aq_full q \<longleftrightarrow> 0 < aq_maxsize q \<and> int (length (aq_items q)) \<ge> aq_maxsize q"

text \<open>\<open>put_nowait\<close>; \<open>None\<close> is \<open>QueueFull\<close>.\<close>

definition aq_put_nowait :: "'e async_queue \<Rightarrow> 'e \<Rightarrow> 'e async_queue option" where
  "aq_put_nowait q e = (if aq_full q then None
     else Some (q\<lparr>aq_items := aq_items q @ [e], aq_unfinished := aq_unfinished q + 1\<rparr>))"

text \<open>\<open>get\<close>; \<open>None\<close> while the caller would have to wait.\<close>

definition aq_get :: "'e async_queue \<Rightarrow> ('e async_queue \<times> 'e) option" where
  "aq_get q = (case aq_items q of [] \<Rightarrow> None | e # es \<Rightarrow> Some (q\<lparr>aq_items := es\<rparr>, e))"

text \<open>\<open>task_done\<close>; \<open>None\<close> is the \<open>ValueError\<close> of being called too many times.\<close>

definition aq_task_done :: "'e async_queue \<Rightarrow> 'e async_queue option" where
  "aq_task_done q = (if aq_unfinished q \<le> 0 then None
     else Some (q\<lparr>aq_unfinished := aq_unfinished q - 1\<rparr>))"

text \<open>Whether \<open>join\<close> returns at once.\<close>

definition aq_joined :: "'e async_queue \<Rightarrow> bool" where
  "aq_joined q \<longleftrightarrow> aq_unfinished q = 0"

definition aq_ok :: "'e async_queue \<Rightarrow> bool" where
  "aq_ok q \<longleftrightarrow> (0 < aq_maxsize q \<longrightarrow> int (length (aq_items q)) \<le> aq_maxsize q)"

lemma aq_ok_new [simp]: "aq_ok (aq_new n)"
  by (simp add: aq_ok_def aq_new_def)

lemma aq_put_ok: "aq_ok q \<Longrightarrow> aq_put_nowait q e = Some q' \<Longrightarrow> aq_ok q'"
  by (auto simp: aq_ok_def aq_put_nowait_def aq_full_def split: if_splits)

lemma aq_get_ok: "aq_ok q \<Longrightarrow> aq_get q = Some (q', e) \<Longrightarrow> aq_ok q'"
  by (auto simp: aq_ok_def aq_get_def split: list.splits)

lemma aq_put_items: "aq_put_nowait q e = Some q' \<Longrightarrow>
    aq_items q' = aq_items q @ [e] \<and> aq_maxsize q' = aq_maxsize q"
  by (auto simp: aq_put_nowait_def split: if_splits)

end
