(* ===== verification/OfflineQueue.thy ===== *)
theory OfflineQueue
  imports Prelude
begin

text \<open>
  \<open>websocket/queue.py\<close>: the bounded in-memory offline queue. The queue never looks into
  an envelope, so the model is polymorphic in it. The interface the transport relies on is
  the locale \<open>mailbox\<close>: what \<open>enqueue\<close>, \<open>drain\<close> and \<open>count\<close> promise about
  the list of envelopes waiting for each recipient.
\<close>

named_theorems offline \<open>behaviour of the offline queue\<close>

section \<open>The interface\<close>

locale mailbox =
  fixes enq :: "'q \<Rightarrow> 'r \<Rightarrow> 'e \<Rightarrow> 'q \<times> bool"
    and drn :: "'q \<Rightarrow> 'r \<Rightarrow> 'q \<times> 'e list"
    and box :: "'q \<Rightarrow> 'r \<Rightarrow> 'e list"
    and inv :: "'q \<Rightarrow> bool"
  assumes enq_accept: "inv q \<Longrightarrow> enq q r e = (q', True) \<Longrightarrow> box q' = (box q)(r := box q r @ [e])"
    and enq_refuse: "inv q \<Longrightarrow> enq q r e = (q', False) \<Longrightarrow> box q' = box q"
    and drn_box: "inv q \<Longrightarrow> drn q r = (q', es) \<Longrightarrow> es = box q r \<and> box q' = (box q)(r := [])"
    and enq_inv: "inv q \<Longrightarrow> enq q r e = (q', b) \<Longrightarrow> inv q'"
    and drn_inv: "inv q \<Longrightarrow> drn q r = (q', es) \<Longrightarrow> inv q'"
begin

text \<open>A client that queues a batch for one recipient and keeps what was accepted.\<close>

fun enq_all :: "'q \<Rightarrow> 'r \<Rightarrow> 'e list \<Rightarrow> 'q \<times> 'e list" where
  "enq_all q r [] = (q, [])"
| "enq_all q r (e # es) =
     (case enq q r e of (q1, ok) \<Rightarrow>
        (case enq_all q1 r es of (q2, acc) \<Rightarrow> (q2, if ok then e # acc else acc)))"

lemma enq_all_inv: "inv q \<Longrightarrow> enq_all q r es = (q', acc) \<Longrightarrow> inv q'"
proof (induction es arbitrary: q acc)
  case (Cons e es)
  obtain q1 ok where "enq q r e = (q1, ok)" by fastforce
  with Cons show ?case by (auto dest: enq_inv split: prod.splits)
qed simp

lemma enq_all_box:
  "inv q \<Longrightarrow> enq_all q r es = (q', acc) \<Longrightarrow> box q' = (box q)(r := box q r @ acc)"
proof (induction es arbitrary: q q' acc)
  case (Cons e es)
  obtain q1 ok where e: "enq q r e = (q1, ok)" by fastforce
  obtain q2 acc2 where a: "enq_all q1 r es = (q2, acc2)" by fastforce
  have "inv q1" using enq_inv [OF Cons.prems(1) e] .
  then have "box q2 = (box q1)(r := box q1 r @ acc2)" using Cons.IH a by blast
  moreover have "box q1 = (if ok then (box q)(r := box q r @ [e]) else box q)"
    using enq_accept [OF Cons.prems(1)] enq_refuse [OF Cons.prems(1)] e by (cases ok) auto
  ultimately show ?case using Cons.prems(2) e a by (auto split: if_splits)
qed simp

lemma queue_then_drain:
  assumes "inv q" and "enq_all q r es = (q', acc)" and "drn q' r = (q'', out)"
  shows "out = box q r @ acc \<and> box q'' = (box q)(r := [])"
  using enq_all_inv [OF assms(1,2)] enq_all_box [OF assms(1,2)] drn_box [OF _ assms(3)] by simp

lemma drain_exactly_once:
  assumes "inv q" and "drn q r = (q', es)" and "drn q' r = (q'', es')"
  shows "es = box q r \<and> es' = []"
  using drn_inv [OF assms(1,2)] drn_box [OF assms(1,2)] drn_box [OF _ assms(3)] by simp

end

section \<open>The implementation\<close>

record 'e offline_queue =
  queues :: "(ustr, 'e list) dict"
  max_per_recipient :: int
  max_recipients :: int

definition new_queue :: "int \<Rightarrow> int \<Rightarrow> 'e offline_queue" where
  "new_queue per tot = \<lparr>queues = [], max_per_recipient = per, max_recipients = tot\<rparr>"

text \<open>
  A missing recipient first gets an empty queue of its own, if the recipient bound allows;
  that queue is registered even when the message is then refused by the per-recipient bound.
\<close>

definition enqueue :: "'e offline_queue \<Rightarrow> ustr \<Rightarrow> 'e \<Rightarrow> 'e offline_queue \<times> bool" where
  "enqueue q recipient envelope =
     (case dict_get (queues q) recipient of
        None \<Rightarrow>
          if int (length (queues q)) \<ge> max_recipients q then (q, False)
          else (let q1 = q\<lparr>queues := dict_set (queues q) recipient []\<rparr>
                in if int (length ([] :: 'e list)) \<ge> max_per_recipient q then (q1, False)
                   else (q1\<lparr>queues := dict_set (queues q1) recipient [envelope]\<rparr>, True))
      | Some queued \<Rightarrow>
          if int (length queued) \<ge> max_per_recipient q then (q, False)
          else (q\<lparr>queues := dict_set (queues q) recipient (queued @ [envelope])\<rparr>, True))"

definition drain :: "'e offline_queue \<Rightarrow> ustr \<Rightarrow> 'e offline_queue \<times> 'e list" where
  "drain q recipient =
     (case dict_get (queues q) recipient of
        None \<Rightarrow> (q, [])
      | Some queued \<Rightarrow> (q\<lparr>queues := dict_del (queues q) recipient\<rparr>, queued))"

definition count :: "'e offline_queue \<Rightarrow> ustr \<Rightarrow> int" where
  "count q recipient =
     (case dict_get (queues q) recipient of None \<Rightarrow> 0 | Some queued \<Rightarrow> int (length queued))"

definition discard :: "'e offline_queue \<Rightarrow> ustr \<Rightarrow> 'e offline_queue" where
  "discard q recipient = q\<lparr>queues := dict_del (queues q) recipient\<rparr>"

definition recipient_count :: "'e offline_queue \<Rightarrow> int" where
  "recipient_count q = int (length (queues q))"

definition total_queued :: "'e offline_queue \<Rightarrow> int" where
  "total_queued q = sum_list (map (\<lambda>queued. int (length queued)) (dict_values (queues q)))"

definition clear_queue :: "'e offline_queue \<Rightarrow> 'e offline_queue" where
  "clear_queue q = q\<lparr>queues := []\<rparr>"

section \<open>Abstraction and invariant\<close>

text \<open>The envelopes waiting for a recipient, oldest first.\<close>

definition waiting :: "'e offline_queue \<Rightarrow> ustr \<Rightarrow> 'e list" where
  "waiting q r = (case dict_get (queues q) r of None \<Rightarrow> [] | Some es \<Rightarrow> es)"

definition queue_ok :: "'e offline_queue \<Rightarrow> bool" where
  "queue_ok q \<longleftrightarrow> dict_ok (queues q) \<and> 0 \<le> max_per_recipient q \<and>
     (queues q = [] \<or> int (length (queues q)) \<le> max_recipients q) \<and>
     (\<forall>r es. dict_get (queues q) r = Some es \<longrightarrow> int (length es) \<le> max_per_recipient q)"

lemma queue_ok_new [simp]: "0 \<le> per \<Longrightarrow> queue_ok (new_queue per tot)"
  by (simp add: queue_ok_def new_queue_def)

lemma waiting_new [simp]: "waiting (new_queue per tot) = (\<lambda>_. [])"
  by (simp add: waiting_def new_queue_def fun_eq_iff)

lemma enqueue_limits [offline]:
  assumes "enqueue q r e = (q', b)"
  shows "max_per_recipient q' = max_per_recipient q" and "max_recipients q' = max_recipients q"
  using assms by (auto simp: enqueue_def Let_def split: option.splits if_splits)

lemma enqueue_ok:
  assumes "queue_ok q" and "enqueue q r e = (q', b)"
  shows "queue_ok q'"
proof (cases "dict_get (queues q) r")
  case None
  with assms show ?thesis
    by (auto simp: enqueue_def queue_ok_def Let_def length_dict_set split: if_splits)
next
  case (Some es)
  with assms show ?thesis
    by (auto simp: enqueue_def queue_ok_def length_dict_set split: if_splits)
qed

lemma enqueue_waiting:
  assumes "enqueue q r e = (q', b)"
  shows "waiting q' = (if b then (waiting q)(r := waiting q r @ [e]) else waiting q)"
  using assms
  by (auto simp: enqueue_def waiting_def Let_def fun_eq_iff split: option.splits if_splits)

text \<open>Exactly when a message is accepted.\<close>

lemma enqueue_accepts_iff [offline]:
  "snd (enqueue q r e) \<longleftrightarrow>
     int (length (waiting q r)) < max_per_recipient q \<and>
     (dict_get (queues q) r = None \<longrightarrow> int (length (queues q)) < max_recipients q)"
  by (auto simp: enqueue_def waiting_def Let_def split: option.splits)

lemma drain_ok:
  assumes "queue_ok q" and "drain q r = (q', es)"
  shows "queue_ok q'"
  using assms
  by (auto simp: drain_def queue_ok_def split: option.splits if_splits)

lemma drain_waiting:
  assumes "drain q r = (q', es)"
  shows "es = waiting q r \<and> waiting q' = (waiting q)(r := [])"
  using assms by (auto simp: drain_def waiting_def fun_eq_iff split: option.splits)

lemma drain_limits [offline]:
  assumes "drain q r = (q', es)"
  shows "max_per_recipient q' = max_per_recipient q" and "max_recipients q' = max_recipients q"
  using assms by (auto simp: drain_def split: option.splits)

lemma count_waiting: "count q r = int (length (waiting q r))"
  by (simp add: count_def waiting_def split: option.splits)

interpretation oq: mailbox enqueue drain waiting queue_ok
  by unfold_locales
     (auto dest: enqueue_waiting drain_waiting intro: enqueue_ok drain_ok)

lemma discard_ok: "queue_ok q \<Longrightarrow> queue_ok (discard q r)"
  by (auto simp: discard_def queue_ok_def split: if_splits)

lemma discard_waiting: "waiting (discard q r) = (waiting q)(r := [])"
  by (auto simp: discard_def waiting_def fun_eq_iff)

lemma clear_waiting: "waiting (clear_queue q) = (\<lambda>_. [])"
  by (simp add: clear_queue_def waiting_def fun_eq_iff)

section \<open>Memory bound\<close>

lemma sum_list_bounded:
  fixes f :: "'a \<Rightarrow> int"
  assumes "\<forall>x \<in> set xs. f x \<le> k"
  shows "sum_list (map f xs) \<le> int (length xs) * k"
  using assms by (induction xs) (auto simp: algebra_simps)

lemma total_queued_bounded:
  assumes "queue_ok q"
  shows "total_queued q \<le> recipient_count q * max_per_recipient q"
proof -
  have "\<forall>es \<in> set (dict_values (queues q)). int (length es) \<le> max_per_recipient q"
    using assms by (auto simp: queue_ok_def in_dict_values)
  then show ?thesis
    using sum_list_bounded [of "dict_values (queues q)" "\<lambda>es. int (length es)"]
    by (simp add: total_queued_def recipient_count_def dict_values_def)
qed

text \<open>Any sequence of operations on the queue.\<close>

datatype 'e queue_op = Enqueue ustr 'e | Drain ustr | Discard ustr | Clear

fun queue_step :: "'e offline_queue \<Rightarrow> 'e queue_op \<Rightarrow> 'e offline_queue" where
  "queue_step q (Enqueue r e) = fst (enqueue q r e)"
| "queue_step q (Drain r) = fst (drain q r)"
| "queue_step q (Discard r) = discard q r"
| "queue_step q Clear = clear_queue q"

lemma queue_step_ok: "queue_ok q \<Longrightarrow> queue_ok (queue_step q x)"
proof (cases x)
  case (Enqueue r e)
  then show "queue_ok q \<Longrightarrow> ?thesis"
    using enqueue_ok [of q r e "fst (enqueue q r e)"] by (metis prod.collapse queue_step.simps(1))
next
  case (Drain r)
  then show "queue_ok q \<Longrightarrow> ?thesis"
    using drain_ok [of q r "fst (drain q r)"] by (metis prod.collapse queue_step.simps(2))
next
  case (Discard r)
  then show "queue_ok q \<Longrightarrow> ?thesis" by (simp add: discard_ok)
next
  case Clear
  then show "queue_ok q \<Longrightarrow> ?thesis" by (simp add: clear_queue_def queue_ok_def)
qed

lemma queue_step_limits [simp]:
  "max_per_recipient (queue_step q x) = max_per_recipient q"
  "max_recipients (queue_step q x) = max_recipients q"
  by (cases x; simp add: enqueue_def drain_def discard_def clear_queue_def Let_def
      split: option.splits)+

lemma queue_run_ok: "queue_ok q \<Longrightarrow> queue_ok (foldl queue_step q xs)"
  by (induction xs arbitrary: q) (auto intro: queue_step_ok)

lemma queue_run_limits [simp]:
  "max_per_recipient (foldl queue_step q xs) = max_per_recipient q"
  "max_recipients (foldl queue_step q xs) = max_recipients q"
  by (induction xs arbitrary: q) auto

section \<open>A batch for one recipient\<close>

fun enqueue_batch :: "'e offline_queue \<Rightarrow> ustr \<Rightarrow> 'e list \<Rightarrow> 'e offline_queue \<times> 'e list" where
  "enqueue_batch q r [] = (q, [])"
| "enqueue_batch q r (e # es) =
     (case enqueue q r e of (q1, ok) \<Rightarrow>
        (case enqueue_batch q1 r es of (q2, acc) \<Rightarrow> (q2, if ok then e # acc else acc)))"

lemma enqueue_batch_mailbox: "enqueue_batch q r es = oq.enq_all q r es"
  by (induction es arbitrary: q) (simp_all split: prod.splits)

lemma enqueue_batch_limits:
  assumes "enqueue_batch q r es = (q', acc)"
  shows "max_per_recipient q' = max_per_recipient q" and "max_recipients q' = max_recipients q"
  using assms by (induction es arbitrary: q acc) (auto dest: enqueue_limits split: prod.splits)

text \<open>What is accepted is the longest prefix that fits, or nothing when no recipient can be added.\<close>

lemma enqueue_batch_accepts:
  assumes "enqueue_batch q r es = (q', acc)"
  shows "acc = (if dict_get (queues q) r = None \<and> max_recipients q \<le> recipient_count q then []
    else take (nat (max_per_recipient q - count q r)) es)"
  using assms
proof (induction es arbitrary: q acc)
  case (Cons e es)
  obtain q1 ok where e: "enqueue q r e = (q1, ok)" by fastforce
  obtain acc1 where b: "enqueue_batch q1 r es = (q', acc1)" and acc: "acc = (if ok then e # acc1 else acc1)"
    using Cons.prems e by (auto split: prod.splits)
  have step: "nat (k - int n) = Suc (nat (k - (int n + 1)))" if "int n < k" for k n
    using that by simp
  show ?case
  proof (cases "dict_get (queues q) r")
    case None
    with e acc Cons.IH [OF b] step [of 0 "max_per_recipient q"] show ?thesis
      by (auto simp: enqueue_def count_def recipient_count_def Let_def split: if_splits)
  next
    case (Some ws)
    with e acc Cons.IH [OF b] step [of "length ws" "max_per_recipient q"] show ?thesis
      by (auto simp: enqueue_def count_def recipient_count_def algebra_simps split: if_splits)
  qed
qed (auto)

end
