(* ===== verification/Manager.thy ===== *)
theory Manager
  imports AsyncQueue TransportLimits OfflineQueue Schemas
begin

text \<open>
  \<open>websocket/manager.py\<close>: the per-connection context and the connection manager with its
  registry, its index by routing identity and the offline queue. A handler's reference to a
  context is the connection id under which the registry holds it, so that a message a
  connection sends to its own identity changes the context the handler sees. A Python set of
  connection ids is a list without duplicates; nothing below depends on its order, which
  \<open>deliver_order\<close> states.
\<close>

section \<open>The connection context\<close>

record connection_context =
  connection_id :: ustr
  transport_client_id :: ustr
  connected_at :: datetime
  outbound :: "json async_queue"
  limiter :: rate_limiter
  last_activity_monotonic :: rat
  authenticated :: bool
  user_id :: "ustr option"
  account_username :: "ustr option"
  session_id :: "ustr option"
  protocol_version :: ustr
  remote_host :: "ustr option"
  closing :: bool

definition authenticate :: "connection_context \<Rightarrow> ustr \<Rightarrow> ustr \<Rightarrow> ustr \<Rightarrow> connection_context" where
  "authenticate c uid username sid =
     c\<lparr>authenticated := True, user_id := Some uid, account_username := Some username,
       session_id := Some sid\<rparr>"

definition routing_identity :: "connection_context \<Rightarrow> ustr" where
  "routing_identity c =
     (case account_username c of Some name \<Rightarrow> name | None \<Rightarrow> transport_client_id c)"

definition touch :: "connection_context \<Rightarrow> rat \<Rightarrow> connection_context" where
  "touch c now = c\<lparr>last_activity_monotonic := now\<rparr>"

definition idle_seconds :: "connection_context \<Rightarrow> rat \<Rightarrow> rat" where
  "idle_seconds c now = now - last_activity_monotonic c"

definition enqueue_outbound :: "connection_context \<Rightarrow> json \<Rightarrow> connection_context \<times> bool" where
  "enqueue_outbound c message =
     (if closing c then (c, False)
      else (case aq_put_nowait (outbound c) message of
              None \<Rightarrow> (c, False)
            | Some q \<Rightarrow> (c\<lparr>outbound := q\<rparr>, True)))"

definition mark_closing :: "connection_context \<Rightarrow> connection_context" where
  "mark_closing c = c\<lparr>closing := True\<rparr>"

definition pending_outbound :: "connection_context \<Rightarrow> int" where
  "pending_outbound c = int (length (aq_items (outbound c)))"

section \<open>The manager\<close>

record manager =
  limits :: transport_limits
  connections :: "(ustr, connection_context) dict"
  by_client :: "(ustr, ustr list) dict"
  offline_queue :: "json offline_queue"

definition new_manager :: "transport_limits \<Rightarrow> manager" where
  "new_manager l = \<lparr>limits = l, connections = [], by_client = [],
     offline_queue = new_queue (max_queued_per_recipient l) (max_queued_recipients l)\<rparr>"

definition set_add :: "'a \<Rightarrow> 'a list \<Rightarrow> 'a list" where
  "set_add x xs = (if x \<in> set xs then xs else xs @ [x])"

definition set_discard :: "'a \<Rightarrow> 'a list \<Rightarrow> 'a list" where
  "set_discard x xs = filter (\<lambda>y. y \<noteq> x) xs"

text \<open>\<open>by_client.setdefault(k, set()).add(cid)\<close>\<close>

definition index_add :: "(ustr, ustr list) dict \<Rightarrow> ustr \<Rightarrow> ustr \<Rightarrow> (ustr, ustr list) dict" where
  "index_add d k cid = dict_set d k
     (set_add cid (case dict_get d k of None \<Rightarrow> [] | Some ids \<Rightarrow> ids))"

text \<open>Discard the id from the entry of \<open>k\<close>, and the entry when that leaves it empty.\<close>

definition index_discard :: "(ustr, ustr list) dict \<Rightarrow> ustr \<Rightarrow> ustr \<Rightarrow> (ustr, ustr list) dict" where
  "index_discard d k cid = (case dict_get d k of
     None \<Rightarrow> d
   | Some ids \<Rightarrow> if set_discard cid ids = [] then dict_del d k
                else dict_set d k (set_discard cid ids))"

datatype rejection = TotalLimitReached | PerClientLimitReached

definition new_context ::
  "transport_limits \<Rightarrow> ustr \<Rightarrow> ustr \<Rightarrow> datetime \<Rightarrow> ustr option \<Rightarrow> rat \<Rightarrow> connection_context" where
  "new_context l cid tid wall_now host now = \<lparr>
     connection_id = cid,
     transport_client_id = tid,
     connected_at = wall_now,
     outbound = aq_new (max_pending_outbound l),
     limiter = new_limiter (max_messages_per_window l) (rate_limit_window_seconds l),
     last_activity_monotonic = now,
     authenticated = False,
     user_id = None,
     account_username = None,
     session_id = None,
     protocol_version = lit ''1'',
     remote_host = host,
     closing = False\<rparr>"

text \<open>
  \<open>register\<close>: \<open>cid\<close> is the fresh \<open>uuid4().hex\<close>, \<open>wall_now\<close> the wall clock and
  \<open>now\<close> the monotonic clock.
\<close>

definition register ::
  "manager \<Rightarrow> ustr \<Rightarrow> ustr option \<Rightarrow> rat \<Rightarrow> datetime \<Rightarrow> ustr \<Rightarrow> manager \<times> (rejection + connection_context)" where
  "register m tid host now wall_now cid =
     (if int (length (connections m)) \<ge> max_total_connections (limits m)
      then (m, Inl TotalLimitReached)
      else (let existing = (case dict_get (by_client m) tid of None \<Rightarrow> [] | Some ids \<Rightarrow> ids)
            in if int (length existing) \<ge> max_connections_per_client (limits m)
               then (m, Inl PerClientLimitReached)
               else (let c = new_context (limits m) cid tid wall_now host now
                     in (m\<lparr>connections := dict_set (connections m) (connection_id c) c,
                           by_client := index_add (by_client m) tid (connection_id c)\<rparr>, Inr c))))"

definition with_context ::
  "manager \<Rightarrow> ustr \<Rightarrow> (connection_context \<Rightarrow> connection_context) \<Rightarrow> manager" where
  "with_context m cid f = (case dict_get (connections m) cid of
     None \<Rightarrow> m | Some c \<Rightarrow> m\<lparr>connections := dict_set (connections m) cid (f c)\<rparr>)"

definition bind_identity :: "manager \<Rightarrow> ustr \<Rightarrow> ustr \<Rightarrow> ustr \<Rightarrow> ustr \<Rightarrow> manager" where
  "bind_identity m cid uid username sid = (case dict_get (connections m) cid of
     None \<Rightarrow> m
   | Some c \<Rightarrow>
       (let previous = routing_identity c;
            m1 = m\<lparr>connections := dict_set (connections m) cid (authenticate c uid username sid)\<rparr>;
            m2 = m1\<lparr>by_client := index_discard (by_client m1) previous cid\<rparr>
        in m2\<lparr>by_client := index_add (by_client m2) username cid\<rparr>))"

definition connections_for_session :: "manager \<Rightarrow> ustr \<Rightarrow> connection_context list" where
  "connections_for_session m sid =
     filter (\<lambda>c. session_id c = Some sid) (dict_values (connections m))"

definition unregister :: "manager \<Rightarrow> ustr \<Rightarrow> manager \<times> connection_context option" where
  "unregister m cid = (case dict_get (connections m) cid of
     None \<Rightarrow> (m, None)
   | Some c \<Rightarrow>
       (let c1 = mark_closing c
        in (m\<lparr>connections := dict_del (connections m) cid,
              by_client := index_discard (by_client m) (routing_identity c1) cid\<rparr>, Some c1)))"

definition get_connection :: "manager \<Rightarrow> ustr \<Rightarrow> connection_context option" where
  "get_connection m cid = dict_get (connections m) cid"

definition connections_for :: "manager \<Rightarrow> ustr \<Rightarrow> connection_context list" where
  "connections_for m tid = (case dict_get (by_client m) tid of
     None \<Rightarrow> []
   | Some ids \<Rightarrow> List.map_filter (\<lambda>cid. dict_get (connections m) cid) ids)"

definition is_connected :: "manager \<Rightarrow> ustr \<Rightarrow> bool" where
  "is_connected m tid = (case dict_get (by_client m) tid of None \<Rightarrow> False | Some ids \<Rightarrow> ids \<noteq> [])"

definition connection_count :: "manager \<Rightarrow> int" where
  "connection_count m = int (length (connections m))"

definition client_count :: "manager \<Rightarrow> int" where
  "client_count m = int (length (by_client m))"

text \<open>Enqueue on each target in turn and keep the results.\<close>

fun deliver_all :: "manager \<Rightarrow> connection_context list \<Rightarrow> json \<Rightarrow> manager \<times> bool list" where
  "deliver_all m [] message = (m, [])"
| "deliver_all m (t # ts) message =
     (let cid = connection_id t;
          (m1, ok) = (case dict_get (connections m) cid of
             None \<Rightarrow> (m, False)
           | Some c \<Rightarrow> (case enqueue_outbound c message of
                 (c', ok) \<Rightarrow> (m\<lparr>connections := dict_set (connections m) cid c'\<rparr>, ok)));
          (m2, oks) = deliver_all m1 ts message
      in (m2, ok # oks))"

definition deliver_to_client :: "manager \<Rightarrow> ustr \<Rightarrow> json \<Rightarrow> manager \<times> bool" where
  "deliver_to_client m tid message =
     (let targets = connections_for m tid
      in if targets = [] then (m, False)
         else (case deliver_all m targets message of
                 (m', accepted) \<Rightarrow> (m', list_ex (\<lambda>b. b) accepted)))"

definition stale_connections :: "manager \<Rightarrow> rat \<Rightarrow> connection_context list" where
  "stale_connections m now =
     filter (\<lambda>c. fl_le (idle_timeout_seconds (limits m)) (Fin (idle_seconds c now)))
       (dict_values (connections m))"

definition reset :: "manager \<Rightarrow> manager" where
  "reset m = m\<lparr>connections := [], by_client := [], offline_queue := clear_queue (offline_queue m)\<rparr>"

end
