(* ===== verification/ManagerInv.thy ===== *)
theory ManagerInv
  imports Manager
begin

text \<open>
  The registry invariant \<open>manager_ok\<close> (the index by routing identity and the registry
  agree, every bound holds), its preservation by every operation of the manager, and the
  interface \<open>relay\<close> the endpoint routes through: direct delivery to the connections of
  one identity, or holding the message for it.
\<close>

named_theorems mgr \<open>what the manager's operations leave alone\<close>

section \<open>Small facts about the operations\<close>

lemma set_set_add [simp]: "set (set_add x xs) = insert x (set xs)"
  by (auto simp: set_add_def)

lemma distinct_set_add [simp]: "distinct xs \<Longrightarrow> distinct (set_add x xs)"
  by (simp add: set_add_def)

lemma set_set_discard [simp]: "set (set_discard x xs) = set xs - {x}"
  by (auto simp: set_discard_def)

lemma distinct_set_discard [simp]: "distinct xs \<Longrightarrow> distinct (set_discard x xs)"
  by (simp add: set_discard_def)

lemma set_add_nonempty [simp]: "set_add x xs \<noteq> []"
  by (auto simp: set_add_def)

lemma enqueue_outbound_frame [mgr]:
  assumes "enqueue_outbound c msg = (c', ok)"
  shows "connection_id c' = connection_id c" "transport_client_id c' = transport_client_id c"
    "limiter c' = limiter c" "authenticated c' = authenticated c" "user_id c' = user_id c"
    "account_username c' = account_username c" "session_id c' = session_id c"
    "closing c' = closing c" "last_activity_monotonic c' = last_activity_monotonic c"
    "routing_identity c' = routing_identity c"
    "aq_maxsize (outbound c') = aq_maxsize (outbound c)"
  using assms
  by (auto simp: enqueue_outbound_def routing_identity_def split: if_splits option.splits
      dest: aq_put_items)

lemma enqueue_outbound_items:
  assumes "enqueue_outbound c msg = (c', ok)"
  shows "aq_items (outbound c') = (if ok then aq_items (outbound c) @ [msg] else aq_items (outbound c))"
  using assms
  by (auto simp: enqueue_outbound_def split: if_splits option.splits dest: aq_put_items)

text \<open>Exactly when a connection takes a message.\<close>

lemma enqueue_outbound_accepts_iff:
  "snd (enqueue_outbound c msg) \<longleftrightarrow> \<not> closing c \<and>
     (aq_maxsize (outbound c) \<le> 0 \<or> int (length (aq_items (outbound c))) < aq_maxsize (outbound c))"
  by (auto simp: enqueue_outbound_def aq_put_nowait_def aq_full_def not_less)

section \<open>The invariant\<close>

definition context_ok :: "transport_limits \<Rightarrow> connection_context \<Rightarrow> bool" where
  "context_ok l c \<longleftrightarrow>
     aq_ok (outbound c) \<and> aq_maxsize (outbound c) = max_pending_outbound l \<and>
     window_seconds (limiter c) = rate_limit_window_seconds l \<and>
     max_messages (limiter c) = max_messages_per_window l \<and> 0 \<le> msg_count (limiter c) \<and>
     (authenticated c \<longleftrightarrow> account_username c \<noteq> None) \<and>
     (authenticated c \<longleftrightarrow> user_id c \<noteq> None) \<and>
     (authenticated c \<longleftrightarrow> session_id c \<noteq> None)"

text \<open>Membership and shape of the index by routing identity.\<close>

definition indexed :: "(ustr, ustr list) dict \<Rightarrow> ustr \<Rightarrow> ustr \<Rightarrow> bool" where
  "indexed d k cid \<longleftrightarrow> (\<exists>ids. dict_get d k = Some ids \<and> cid \<in> set ids)"

definition id_set :: "ustr list \<Rightarrow> bool" where
  "id_set ids \<longleftrightarrow> ids \<noteq> [] \<and> distinct ids"

definition index_shape :: "(ustr, ustr list) dict \<Rightarrow> bool" where
  "index_shape d \<longleftrightarrow> dict_ok d \<and> (\<forall>k ids. dict_get d k = Some ids \<longrightarrow> id_set ids)"

text \<open>Who is registered under which identity.\<close>

definition holds_identity :: "manager \<Rightarrow> ustr \<Rightarrow> ustr \<Rightarrow> bool" where
  "holds_identity m k cid \<longleftrightarrow>
     (\<exists>c. dict_get (connections m) cid = Some c \<and> routing_identity c = k)"

definition entry_ok :: "transport_limits \<Rightarrow> ustr \<Rightarrow> connection_context \<Rightarrow> bool" where
  "entry_ok l cid c \<longleftrightarrow> connection_id c = cid \<and> context_ok l c"

definition contexts_ok :: "manager \<Rightarrow> bool" where
  "contexts_ok m \<longleftrightarrow> dict_ok (connections m) \<and>
     (\<forall>cid c. dict_get (connections m) cid = Some c \<longrightarrow> entry_ok (limits m) cid c)"

text \<open>The index holds exactly the ids of the connections with that identity.\<close>

definition registry_ok :: "manager \<Rightarrow> bool" where
  "registry_ok m \<longleftrightarrow> contexts_ok m \<and> index_shape (by_client m) \<and>
     (\<forall>k cid. indexed (by_client m) k cid = holds_identity m k cid)"

definition bounds_ok :: "manager \<Rightarrow> bool" where
  "bounds_ok m \<longleftrightarrow> int (length (connections m)) \<le> max 0 (max_total_connections (limits m)) \<and>
     queue_ok (offline_queue m) \<and>
     max_per_recipient (offline_queue m) = max_queued_per_recipient (limits m) \<and>
     max_recipients (offline_queue m) = max_queued_recipients (limits m)"

definition manager_ok :: "manager \<Rightarrow> bool" where
  "manager_ok m \<longleftrightarrow> registry_ok m \<and> bounds_ok m"

lemma contexts_okD:
  assumes "contexts_ok m" and "dict_get (connections m) cid = Some c"
  shows "connection_id c = cid" and "context_ok (limits m) c" and "entry_ok (limits m) cid c"
  using assms unfolding contexts_ok_def entry_ok_def by blast+

lemma registry_okD:
  assumes "registry_ok m"
  shows "contexts_ok m" and "index_shape (by_client m)"
    and "indexed (by_client m) k cid = holds_identity m k cid"
  using assms unfolding registry_ok_def by blast+

lemma is_connected_indexed:
  assumes "index_shape (by_client m)"
  shows "is_connected m k \<longleftrightarrow> (\<exists>cid. indexed (by_client m) k cid)"
proof (cases "dict_get (by_client m) k")
  case None
  then show ?thesis by (simp add: is_connected_def indexed_def)
next
  case (Some ids)
  with assms have "ids \<noteq> []" unfolding index_shape_def id_set_def by blast
  then have "hd ids \<in> set ids" by simp
  then have "\<exists>cid. cid \<in> set ids" by blast
  with Some \<open>ids \<noteq> []\<close> show ?thesis by (simp add: is_connected_def indexed_def)
qed

lemma is_connected_iff: "registry_ok m \<Longrightarrow> is_connected m k \<longleftrightarrow> (\<exists>cid. holds_identity m k cid)"
  by (simp add: is_connected_indexed registry_okD)

lemma enqueue_outbound_context_ok:
  assumes "context_ok l c" and e: "enqueue_outbound c msg = (c', ok)"
  shows "context_ok l c'"
proof -
  have "aq_ok (outbound c')"
    using assms by (auto simp: context_ok_def enqueue_outbound_def intro: aq_put_ok
        split: if_splits option.splits)
  then show ?thesis using enqueue_outbound_frame [OF e] assms(1) unfolding context_ok_def by metis
qed

section \<open>The index operations\<close>

lemma index_add_get:
  "dict_get (index_add d k cid) k' =
     (if k' = k then Some (set_add cid (case dict_get d k of None \<Rightarrow> [] | Some ids \<Rightarrow> ids))
      else dict_get d k')"
  by (simp add: index_add_def)

lemma index_add_ok [simp]: "dict_ok d \<Longrightarrow> dict_ok (index_add d k cid)"
  by (simp add: index_add_def)

lemma index_discard_ok [simp]: "dict_ok d \<Longrightarrow> dict_ok (index_discard d k cid)"
  by (simp add: index_discard_def split: option.split)

lemma indexed_add [simp]: "indexed (index_add d k cid) k' x \<longleftrightarrow> k' = k \<and> x = cid \<or> indexed d k' x"
  by (auto simp: indexed_def index_add_get split: option.splits)

lemma indexed_discard [simp]:
  "indexed (index_discard d k cid) k' x \<longleftrightarrow> indexed d k' x \<and> \<not> (k' = k \<and> x = cid)"
proof (cases "dict_get d k")
  case None
  then show ?thesis by (auto simp: indexed_def index_discard_def)
next
  case (Some ids)
  show ?thesis
  proof (cases "set_discard cid ids = []")
    case True
    then have "set ids \<subseteq> {cid}" using set_set_discard [of cid ids] by auto
    with True Some show ?thesis by (auto simp: indexed_def index_discard_def)
  next
    case False
    with Some show ?thesis by (auto simp: indexed_def index_discard_def)
  qed
qed

lemma id_set_add: "id_set (set_add cid (case d of None \<Rightarrow> [] | Some ids \<Rightarrow> ids))"
  if "\<And>ids. d = Some ids \<Longrightarrow> id_set ids"
  using that by (cases d) (auto simp: id_set_def)

lemma index_shape_add [simp]: "index_shape d \<Longrightarrow> index_shape (index_add d k cid)"
  by (simp add: index_shape_def index_add_get id_set_add)

lemma index_shape_discard [simp]: "index_shape d \<Longrightarrow> index_shape (index_discard d k cid)"
proof (cases "dict_get d k")
  case (Some ids)
  assume s: "index_shape d"
  with Some have "id_set ids" by (simp add: index_shape_def)
  then have "set_discard cid ids \<noteq> [] \<Longrightarrow> id_set (set_discard cid ids)" by (simp add: id_set_def)
  with s Some show ?thesis by (simp add: index_shape_def index_discard_def)
qed (simp add: index_discard_def)

lemma index_shape_Nil [simp]: "index_shape []" "\<not> indexed [] k cid"
  by (simp_all add: index_shape_def indexed_def)

section \<open>Preservation\<close>

lemma manager_ok_new: "0 \<le> max_queued_per_recipient l \<Longrightarrow> manager_ok (new_manager l)"
  by (simp add: manager_ok_def registry_ok_def contexts_ok_def holds_identity_def bounds_ok_def
      new_manager_def new_queue_def queue_ok_def)

lemma new_context_ok: "context_ok l (new_context l cid tid at' host now)"
  by (simp add: context_ok_def new_context_def aq_new_def aq_ok_def new_limiter_def)

lemma new_context_simps [simp]:
  "connection_id (new_context l cid tid at' host now) = cid"
  "routing_identity (new_context l cid tid at' host now) = tid"
  "authenticated (new_context l cid tid at' host now) = False"
  "closing (new_context l cid tid at' host now) = False"
  "aq_items (outbound (new_context l cid tid at' host now)) = []"
  by (simp_all add: new_context_def routing_identity_def aq_new_def)

lemma register_ok:
  assumes ok: "manager_ok m" and fresh: "dict_get (connections m) cid = None"
    and r: "register m tid host now w cid = (m', res)"
  shows "manager_ok m'"
proof (cases res)
  case (Inl e)
  with r ok show ?thesis by (auto simp: register_def Let_def split: if_splits)
next
  case (Inr c)
  with r have m': "m' = m\<lparr>connections := dict_set (connections m) cid c,
      by_client := index_add (by_client m) tid cid\<rparr>"
    and c: "c = new_context (limits m) cid tid w host now"
    and room: "int (length (connections m)) < max_total_connections (limits m)"
    by (auto simp: register_def Let_def split: if_splits)
  have "contexts_ok m'"
    using ok new_context_ok by (auto simp: manager_ok_def registry_ok_def contexts_ok_def entry_ok_def m' c)
  moreover have "indexed (by_client m') k x = holds_identity m' k x" for k x
  proof (cases "x = cid")
    case True
    have "\<not> holds_identity m k cid" using fresh by (simp add: holds_identity_def)
    with True ok show ?thesis
      by (auto simp: manager_ok_def registry_ok_def m' c holds_identity_def)
  next
    case False
    with ok show ?thesis by (simp add: manager_ok_def registry_ok_def m' c holds_identity_def)
  qed
  ultimately have "registry_ok m'"
    using ok by (simp add: manager_ok_def registry_ok_def m')
  moreover have "bounds_ok m'"
    using ok room fresh by (simp add: manager_ok_def bounds_ok_def m' length_dict_set)
  ultimately show ?thesis by (simp add: manager_ok_def)
qed

lemma with_context_get:
  "dict_get (connections (with_context m cid f)) x =
     (if x = cid then map_option f (dict_get (connections m) cid) else dict_get (connections m) x)"
  by (auto simp: with_context_def split: option.splits)

lemma with_context_frame [mgr, simp]:
  "by_client (with_context m cid f) = by_client m"
  "limits (with_context m cid f) = limits m"
  "offline_queue (with_context m cid f) = offline_queue m"
  "length (connections (with_context m cid f)) = length (connections m)"
  by (auto simp: with_context_def length_dict_set split: option.splits)

text \<open>A change of one context that keeps its identity and its local invariant.\<close>

lemma with_context_ok:
  assumes ok: "manager_ok m"
    and f: "\<And>c. dict_get (connections m) cid = Some c \<Longrightarrow>
       connection_id (f c) = connection_id c \<and> routing_identity (f c) = routing_identity c \<and>
       context_ok (limits m) (f c)"
  shows "manager_ok (with_context m cid f)"
proof -
  have "dict_ok (connections (with_context m cid f))"
    using ok by (simp add: manager_ok_def registry_ok_def contexts_ok_def with_context_def
        split: option.split)
  then have "contexts_ok (with_context m cid f)"
    using ok f by (auto simp: manager_ok_def registry_ok_def contexts_ok_def entry_ok_def with_context_get)
  moreover have "holds_identity (with_context m cid f) k x = holds_identity m k x" for k x
    using f by (auto simp: holds_identity_def with_context_get)
  ultimately show ?thesis using ok by (simp add: manager_ok_def registry_ok_def bounds_ok_def)
qed

lemma authenticate_simps [simp]:
  "connection_id (authenticate c u n s) = connection_id c"
  "routing_identity (authenticate c u n s) = n"
  "authenticated (authenticate c u n s)"
  "outbound (authenticate c u n s) = outbound c"
  "account_username (authenticate c u n s) = Some n"
  "user_id (authenticate c u n s) = Some u"
  "session_id (authenticate c u n s) = Some s"
  "closing (authenticate c u n s) = closing c"
  "context_ok l c \<Longrightarrow> context_ok l (authenticate c u n s)"
  by (simp_all add: authenticate_def routing_identity_def context_ok_def)

lemma bind_identity_get:
  "dict_get (connections (bind_identity m cid u n s)) x =
     (if x = cid then map_option (\<lambda>c. authenticate c u n s) (dict_get (connections m) cid)
      else dict_get (connections m) x)"
  by (simp add: bind_identity_def Let_def split: option.split)

lemma bind_identity_frame [mgr, simp]:
  "limits (bind_identity m cid u n s) = limits m"
  "offline_queue (bind_identity m cid u n s) = offline_queue m"
  "length (connections (bind_identity m cid u n s)) = length (connections m)"
  by (simp_all add: bind_identity_def Let_def length_dict_set split: option.split)

lemma bind_identity_ok:
  assumes ok: "manager_ok m"
  shows "manager_ok (bind_identity m cid u n s)"
proof (cases "dict_get (connections m) cid")
  case None
  with ok show ?thesis by (simp add: bind_identity_def)
next
  case (Some c)
  let ?m = "bind_identity m cid u n s"
  have idx: "by_client ?m = index_add (index_discard (by_client m) (routing_identity c) cid) n cid"
    using Some by (simp add: bind_identity_def Let_def)
  have "dict_ok (connections ?m)"
    using ok Some by (simp add: manager_ok_def registry_ok_def contexts_ok_def bind_identity_def Let_def)
  then have "contexts_ok ?m"
    using ok by (auto simp: manager_ok_def registry_ok_def contexts_ok_def entry_ok_def bind_identity_get)
  moreover have "indexed (by_client ?m) k x = holds_identity ?m k x" for k x
  proof -
    have "indexed (by_client m) k x = holds_identity m k x"
      using ok by (simp add: manager_ok_def registry_ok_def)
    then show ?thesis
      by (cases "x = cid") (auto simp add: idx holds_identity_def bind_identity_get Some)
  qed
  ultimately have "registry_ok ?m"
    using ok by (simp add: manager_ok_def registry_ok_def idx)
  then show ?thesis using ok by (simp add: manager_ok_def bounds_ok_def)
qed

lemma unregister_ok:
  assumes ok: "manager_ok m" and u: "unregister m cid = (m', res)"
  shows "manager_ok m'"
proof (cases "dict_get (connections m) cid")
  case None
  with ok u show ?thesis by (simp add: unregister_def)
next
  case (Some c)
  have ri: "routing_identity (mark_closing c) = routing_identity c"
    by (simp add: mark_closing_def routing_identity_def split: option.split)
  from Some u have m': "m' = m\<lparr>connections := dict_del (connections m) cid,
      by_client := index_discard (by_client m) (routing_identity c) cid\<rparr>"
    by (simp add: unregister_def Let_def ri)
  have "contexts_ok m'"
    using ok by (simp add: manager_ok_def registry_ok_def contexts_ok_def m')
  moreover have "indexed (by_client m') k x = holds_identity m' k x" for k x
  proof -
    have "indexed (by_client m) k x = holds_identity m k x"
      using ok by (simp add: manager_ok_def registry_ok_def)
    then show ?thesis using Some by (auto simp: m' holds_identity_def)
  qed
  ultimately have "registry_ok m'"
    using ok by (simp add: manager_ok_def registry_ok_def m')
  moreover have "bounds_ok m'"
    using ok by (simp add: manager_ok_def bounds_ok_def m')
  ultimately show ?thesis by (simp add: manager_ok_def)
qed

lemma reset_ok: "manager_ok m \<Longrightarrow> manager_ok (reset m)"
  by (simp add: manager_ok_def registry_ok_def contexts_ok_def holds_identity_def bounds_ok_def
      reset_def queue_ok_def clear_queue_def)

section \<open>Direct delivery\<close>

lemma deliver_all_step:
  "deliver_all m (t # ts) msg =
     (case deliver_all (with_context m (connection_id t) (\<lambda>c. fst (enqueue_outbound c msg))) ts msg of
        (m2, oks) \<Rightarrow> (m2, (case dict_get (connections m) (connection_id t) of None \<Rightarrow> False
           | Some c \<Rightarrow> snd (enqueue_outbound c msg)) # oks))"
  by (simp add: with_context_def Let_def split: option.split prod.split)

declare deliver_all.simps(2) [simp del]

lemma deliver_all_frame:
  assumes "deliver_all m ts msg = (m', oks)"
  shows "limits m' = limits m" and "by_client m' = by_client m"
    and "offline_queue m' = offline_queue m" and "length (connections m') = length (connections m)"
  using assms
  by (induction ts arbitrary: m oks) (auto simp: deliver_all_step split: prod.splits)

lemma deliver_all_both:
  assumes "deliver_all m ts msg = (m', oks)" and "distinct (map connection_id ts)"
  shows "(\<forall>x. dict_get (connections m') x =
      (if x \<in> connection_id ` set ts
       then map_option (\<lambda>c. fst (enqueue_outbound c msg)) (dict_get (connections m) x)
       else dict_get (connections m) x)) \<and>
    oks = map (\<lambda>t. case dict_get (connections m) (connection_id t) of None \<Rightarrow> False
           | Some c \<Rightarrow> snd (enqueue_outbound c msg)) ts"
  using assms
proof (induction ts arbitrary: m oks)
  case (Cons t ts)
  let ?m1 = "with_context m (connection_id t) (\<lambda>c. fst (enqueue_outbound c msg))"
  obtain oks1 where d: "deliver_all ?m1 ts msg = (m', oks1)"
    and oks: "oks = (case dict_get (connections m) (connection_id t) of None \<Rightarrow> False
           | Some c \<Rightarrow> snd (enqueue_outbound c msg)) # oks1"
    using Cons.prems(1) by (auto simp: deliver_all_step split: prod.splits)
  have dist: "distinct (map connection_id ts)" and t: "connection_id t \<notin> connection_id ` set ts"
    using Cons.prems(2) by auto
  note IH = Cons.IH [OF d dist]
  have "oks1 = map (\<lambda>t. case dict_get (connections m) (connection_id t) of None \<Rightarrow> False
         | Some c \<Rightarrow> snd (enqueue_outbound c msg)) ts"
  proof -
    have "connection_id u \<noteq> connection_id t" if "u \<in> set ts" for u
      using t that by (metis imageI)
    then show ?thesis using IH by (simp add: with_context_get cong: map_cong)
  qed
  moreover have "dict_get (connections m') x =
      (if x \<in> connection_id ` set (t # ts)
       then map_option (\<lambda>c. fst (enqueue_outbound c msg)) (dict_get (connections m) x)
       else dict_get (connections m) x)" for x
    using IH t by (auto simp: with_context_get)
  ultimately show ?case by (simp add: oks)
qed simp

lemma deliver_all_get:
  assumes "deliver_all m ts msg = (m', oks)" and "distinct (map connection_id ts)"
  shows "dict_get (connections m') x =
      (if x \<in> connection_id ` set ts
       then map_option (\<lambda>c. fst (enqueue_outbound c msg)) (dict_get (connections m) x)
       else dict_get (connections m) x)"
    and "oks = map (\<lambda>t. case dict_get (connections m) (connection_id t) of None \<Rightarrow> False
           | Some c \<Rightarrow> snd (enqueue_outbound c msg)) ts"
  using deliver_all_both [OF assms] by blast+

lemma deliver_all_ok:
  assumes "manager_ok m" and "deliver_all m ts msg = (m', oks)"
  shows "manager_ok m'"
  using assms
proof (induction ts arbitrary: m oks)
  case (Cons t ts)
  let ?m1 = "with_context m (connection_id t) (\<lambda>c. fst (enqueue_outbound c msg))"
  have "manager_ok ?m1"
  proof (rule with_context_ok [OF Cons.prems(1)])
    fix c assume c: "dict_get (connections m) (connection_id t) = Some c"
    obtain c' ok where e: "enqueue_outbound c msg = (c', ok)" by fastforce
    have "contexts_ok m" using Cons.prems(1) by (simp add: manager_ok_def registry_ok_def)
    from enqueue_outbound_context_ok [OF contexts_okD(2) [OF this c] e]
    show "connection_id (fst (enqueue_outbound c msg)) = connection_id c \<and>
        routing_identity (fst (enqueue_outbound c msg)) = routing_identity c \<and>
        context_ok (limits m) (fst (enqueue_outbound c msg))"
      using enqueue_outbound_frame [OF e] e by simp
  qed
  then show ?case using Cons.IH Cons.prems(2) by (auto simp: deliver_all_step split: prod.splits)
qed simp

text \<open>The targets are the connections with that identity, each once.\<close>

lemma connections_for_ids:
  assumes "registry_ok m"
  shows "distinct (map connection_id (connections_for m k))"
    and "x \<in> connection_id ` set (connections_for m k) \<longleftrightarrow> holds_identity m k x"
proof -
  show "distinct (map connection_id (connections_for m k))" (is ?d)
    and "x \<in> connection_id ` set (connections_for m k) \<longleftrightarrow> holds_identity m k x" (is ?e)
  proof -
    have "?d \<and> ?e"
    proof (cases "dict_get (by_client m) k")
      case None
      then have "\<not> holds_identity m k x"
        using registry_okD(3) [OF assms, of k x] by (simp add: indexed_def)
      with None show ?thesis by (simp add: connections_for_def)
    next
      case (Some ids)
      have "id_set ids"
        using registry_okD(2) [OF assms] Some by (simp add: index_shape_def)
      then have dist: "distinct ids" by (simp add: id_set_def)
      have holds: "holds_identity m k y \<longleftrightarrow> y \<in> set ids" for y
        using registry_okD(3) [OF assms, of k y] Some by (simp add: indexed_def)
      have present: "\<exists>c. dict_get (connections m) y = Some c \<and> connection_id c = y" if "y \<in> set ids" for y
        using that holds contexts_okD(1) [OF registry_okD(1) [OF assms]]
        unfolding holds_identity_def by blast
      have "map connection_id (List.map_filter (\<lambda>cid. dict_get (connections m) cid) js) = js"
        if "\<forall>y \<in> set js. \<exists>c. dict_get (connections m) y = Some c \<and> connection_id c = y" for js
        using that by (induction js) (auto simp: List.map_filter_simps)
      then have "map connection_id (List.map_filter (\<lambda>cid. dict_get (connections m) cid) ids) = ids"
        using present by blast
      then have ids: "map connection_id (connections_for m k) = ids"
        using Some by (simp add: connections_for_def)
      then have "connection_id ` set (connections_for m k) = set ids" by (metis set_map)
      with ids dist holds show ?thesis by simp
    qed
    then show ?d and ?e by blast+
  qed
qed

lemma deliver_to_client_ok:
  assumes "manager_ok m" and "deliver_to_client m k msg = (m', ok)"
  shows "manager_ok m'"
  using assms deliver_all_ok
  by (auto simp: deliver_to_client_def Let_def split: if_splits prod.splits)

lemma deliver_to_client_frame:
  assumes "deliver_to_client m k msg = (m', ok)"
  shows "limits m' = limits m" and "by_client m' = by_client m"
    and "offline_queue m' = offline_queue m" and "length (connections m') = length (connections m)"
  using assms deliver_all_frame
  by (auto simp: deliver_to_client_def Let_def split: if_splits prod.splits)

text \<open>What delivery does to every connection, and what it reports.\<close>

lemma deliver_to_client_get:
  assumes ok: "registry_ok m" and d: "deliver_to_client m k msg = (m', b)"
  shows "dict_get (connections m') x =
      (if holds_identity m k x
       then map_option (\<lambda>c. fst (enqueue_outbound c msg)) (dict_get (connections m) x)
       else dict_get (connections m) x)"
    and "b \<longleftrightarrow> (\<exists>y c. dict_get (connections m) y = Some c \<and> routing_identity c = k
                   \<and> snd (enqueue_outbound c msg))"
proof -
  let ?ts = "connections_for m k"
  note ids = connections_for_ids [OF ok, where k = k]
  obtain m2 oks where da: "deliver_all m ?ts msg = (m2, oks)" by fastforce
  note g = deliver_all_get [OF da ids(1)]
  have m2: "m' = m2"
    using d da by (auto simp: deliver_to_client_def Let_def split: if_splits)
  show "dict_get (connections m') x =
      (if holds_identity m k x
       then map_option (\<lambda>c. fst (enqueue_outbound c msg)) (dict_get (connections m) x)
       else dict_get (connections m) x)"
    using g(1) [of x] ids(2) [of x] by (simp add: m2)
  have "b \<longleftrightarrow> list_ex (\<lambda>b. b) oks"
    using d da by (auto simp: deliver_to_client_def Let_def split: if_splits)
  also have "\<dots> \<longleftrightarrow> (\<exists>y \<in> connection_id ` set ?ts. \<exists>c. dict_get (connections m) y = Some c
        \<and> snd (enqueue_outbound c msg))"
    unfolding g(2) by (auto simp: list_ex_iff split: option.splits)
  also have "\<dots> \<longleftrightarrow> (\<exists>y c. dict_get (connections m) y = Some c \<and> routing_identity c = k
                   \<and> snd (enqueue_outbound c msg))"
    unfolding Bex_def ids(2) holds_identity_def by force
  finally show "b \<longleftrightarrow> (\<exists>y c. dict_get (connections m) y = Some c \<and> routing_identity c = k
                   \<and> snd (enqueue_outbound c msg))" .
qed

text \<open>The order in which the set of ids is visited does not matter.\<close>

lemma deliver_order:
  assumes "distinct (map connection_id ts)" and "set ts = set us" and "distinct (map connection_id us)"
    and "deliver_all m ts msg = (m1, oks1)" and "deliver_all m us msg = (m2, oks2)"
  shows "dict_get (connections m1) x = dict_get (connections m2) x"
    and "list_ex (\<lambda>b. b) oks1 = list_ex (\<lambda>b. b) oks2"
  using assms deliver_all_get [OF assms(4,1)] deliver_all_get [OF assms(5,3)]
  by (auto simp: list_ex_iff)

section \<open>The routing interface\<close>

datatype routed = ToLive | Held | Dropped

locale relay =
  fixes connected :: "'m \<Rightarrow> 'r \<Rightarrow> bool"
    and deliver :: "'m \<Rightarrow> 'r \<Rightarrow> 'e \<Rightarrow> 'm \<times> bool"
    and hold :: "'m \<Rightarrow> 'r \<Rightarrow> 'e \<Rightarrow> 'm \<times> bool"
    and inbox :: "'m \<Rightarrow> 'c \<Rightarrow> 'e list"
    and owner :: "'m \<Rightarrow> 'c \<Rightarrow> 'r option"
    and held :: "'m \<Rightarrow> 'r \<Rightarrow> 'e list"
    and inv :: "'m \<Rightarrow> bool"
  assumes connected_iff: "inv m \<Longrightarrow> connected m r \<longleftrightarrow> (\<exists>c. owner m c = Some r)"
    and deliver_inv: "inv m \<Longrightarrow> deliver m r e = (m', ok) \<Longrightarrow> inv m'"
    and deliver_frame: "inv m \<Longrightarrow> deliver m r e = (m', ok) \<Longrightarrow> owner m' = owner m \<and> held m' = held m"
    and deliver_inbox: "inv m \<Longrightarrow> deliver m r e = (m', ok) \<Longrightarrow>
          inbox m' c = inbox m c \<or> owner m c = Some r \<and> inbox m' c = inbox m c @ [e]"
    and deliver_ok: "inv m \<Longrightarrow> deliver m r e = (m', ok) \<Longrightarrow>
          ok = (\<exists>c. owner m c = Some r \<and> inbox m' c = inbox m c @ [e])"
    and hold_inv: "inv m \<Longrightarrow> hold m r e = (m', ok) \<Longrightarrow> inv m'"
    and hold_frame: "inv m \<Longrightarrow> hold m r e = (m', ok) \<Longrightarrow> owner m' = owner m \<and> inbox m' = inbox m"
    and hold_held: "inv m \<Longrightarrow> hold m r e = (m', ok) \<Longrightarrow>
          held m' = (if ok then (held m)(r := held m r @ [e]) else held m)"
begin

definition route :: "'m \<Rightarrow> 'r \<Rightarrow> 'e \<Rightarrow> 'm \<times> routed" where
  "route m r e =
     (if connected m r
      then (case deliver m r e of (m', ok) \<Rightarrow> (m', if ok then ToLive else Dropped))
      else (case hold m r e of (m', ok) \<Rightarrow> (m', if ok then Held else Dropped)))"

lemma route_inv: "inv m \<Longrightarrow> route m r e = (m', s) \<Longrightarrow> inv m'"
  by (auto simp: route_def split: if_splits prod.splits intro: deliver_inv hold_inv)

lemma route_owner: "inv m \<Longrightarrow> route m r e = (m', s) \<Longrightarrow> owner m' = owner m"
  using deliver_frame [of m r e] hold_frame [of m r e]
  by (auto simp: route_def split: if_splits prod.splits)

text \<open>No connection of another identity and no other mailbox is touched.\<close>

lemma route_other_inbox:
  assumes "inv m" and "route m r e = (m', s)" and "owner m c \<noteq> Some r"
  shows "inbox m' c = inbox m c"
  using assms deliver_inbox [of m r e _ _ c] hold_frame [of m r e]
  by (auto simp: route_def split: if_splits prod.splits)

lemma route_other_held:
  assumes "inv m" and "route m r e = (m', s)" and "k \<noteq> r"
  shows "held m' k = held m k"
  using assms deliver_frame [of m r e] hold_held [of m r e]
  by (auto simp: route_def split: if_splits prod.splits)

text \<open>The three outcomes are exactly what they say.\<close>

lemma route_outcome:
  assumes inv: "inv m" and r: "route m r e = (m', s)"
  shows "s = ToLive \<Longrightarrow> (\<exists>c. owner m c = Some r \<and> inbox m' c = inbox m c @ [e]) \<and> held m' = held m"
    and "s = Held \<Longrightarrow> (\<forall>c. owner m c \<noteq> Some r) \<and> inbox m' = inbox m
           \<and> held m' = (held m)(r := held m r @ [e])"
    and "s = Dropped \<Longrightarrow> inbox m' = inbox m \<and> held m' = held m"
proof -
  show "(\<exists>c. owner m c = Some r \<and> inbox m' c = inbox m c @ [e]) \<and> held m' = held m" if "s = ToLive"
    using r that deliver_ok [OF inv] deliver_frame [OF inv]
    by (auto simp: route_def split: if_splits prod.splits)
  show "(\<forall>c. owner m c \<noteq> Some r) \<and> inbox m' = inbox m \<and> held m' = (held m)(r := held m r @ [e])"
    if "s = Held"
    using r that connected_iff [OF inv] hold_frame [OF inv] hold_held [OF inv]
    by (auto simp: route_def split: if_splits prod.splits)
  show "inbox m' = inbox m \<and> held m' = held m" if d: "s = Dropped"
  proof (cases "connected m r")
    case True
    with r d have dv: "deliver m r e = (m', False)"
      by (auto simp: route_def split: if_splits prod.splits)
    have "inbox m' c = inbox m c" for c
      using deliver_inbox [OF inv dv, of c] deliver_ok [OF inv dv] by blast
    then show ?thesis using deliver_frame [OF inv dv] by auto
  next
    case False
    with r d have "hold m r e = (m', False)"
      by (auto simp: route_def split: if_splits prod.splits)
    then show ?thesis using hold_frame [OF inv] hold_held [OF inv] by auto
  qed
qed

end

text \<open>The manager provides it.\<close>

definition queue_offline :: "manager \<Rightarrow> ustr \<Rightarrow> json \<Rightarrow> manager \<times> bool" where
  "queue_offline m r e = (case enqueue (offline_queue m) r e of
     (q, ok) \<Rightarrow> (m\<lparr>offline_queue := q\<rparr>, ok))"

definition inbox_of :: "manager \<Rightarrow> ustr \<Rightarrow> json list" where
  "inbox_of m cid = (case dict_get (connections m) cid of
     None \<Rightarrow> [] | Some c \<Rightarrow> aq_items (outbound c))"

definition owner_of :: "manager \<Rightarrow> ustr \<Rightarrow> ustr option" where
  "owner_of m cid = map_option routing_identity (dict_get (connections m) cid)"

definition held_for :: "manager \<Rightarrow> ustr \<Rightarrow> json list" where
  "held_for m r = waiting (offline_queue m) r"

lemma owner_of_iff: "owner_of m cid = Some k \<longleftrightarrow> holds_identity m k cid"
  by (auto simp: owner_of_def holds_identity_def)

lemma queue_offline_ok:
  assumes "manager_ok m" and "queue_offline m r e = (m', ok)"
  shows "manager_ok m'"
proof -
  obtain q where q: "enqueue (offline_queue m) r e = (q, ok)" and m': "m' = m\<lparr>offline_queue := q\<rparr>"
    using assms(2) by (auto simp: queue_offline_def split: prod.splits)
  have "queue_ok (offline_queue m)" using assms(1) by (simp add: manager_ok_def bounds_ok_def)
  from enqueue_ok [OF this q] enqueue_limits [OF q] assms(1) show ?thesis
    by (auto simp: m' manager_ok_def registry_ok_def contexts_ok_def holds_identity_def bounds_ok_def)
qed

lemma deliver_inbox_of:
  assumes "registry_ok m" and "deliver_to_client m k msg = (m', b)"
  shows "inbox_of m' x =
    (case dict_get (connections m) x of None \<Rightarrow> []
     | Some c \<Rightarrow> if routing_identity c = k \<and> snd (enqueue_outbound c msg)
                then aq_items (outbound c) @ [msg] else aq_items (outbound c))"
proof (cases "dict_get (connections m) x")
  case None
  then show ?thesis using deliver_to_client_get(1) [OF assms, of x] by (simp add: inbox_of_def)
next
  case (Some c)
  obtain c' ok where e: "enqueue_outbound c msg = (c', ok)" by fastforce
  show ?thesis
    using deliver_to_client_get(1) [OF assms, of x] Some enqueue_outbound_items [OF e] e
    by (simp add: inbox_of_def holds_identity_def)
qed

lemma deliver_owner_of:
  assumes "registry_ok m" and "deliver_to_client m k msg = (m', b)"
  shows "owner_of m' x = owner_of m x"
proof (cases "dict_get (connections m) x")
  case None
  then show ?thesis using deliver_to_client_get(1) [OF assms, of x] by (simp add: owner_of_def)
next
  case (Some c)
  obtain c' ok where e: "enqueue_outbound c msg = (c', ok)" by fastforce
  show ?thesis
    using deliver_to_client_get(1) [OF assms, of x] Some enqueue_outbound_frame(10) [OF e] e
    by (simp add: owner_of_def)
qed

interpretation hub: relay is_connected deliver_to_client queue_offline inbox_of owner_of held_for manager_ok
proof unfold_locales
  fix m m' :: manager and r :: ustr and e :: json and ok :: bool and c :: ustr
  assume m: "manager_ok m"
  then have reg: "registry_ok m" by (simp add: manager_ok_def)
  show "is_connected m r \<longleftrightarrow> (\<exists>c. owner_of m c = Some r)"
    using is_connected_iff [OF reg] by (simp add: owner_of_iff)
  {
    assume d: "deliver_to_client m r e = (m', ok)"
    show "manager_ok m'" using deliver_to_client_ok [OF m d] .
    show "owner_of m' = owner_of m \<and> held_for m' = held_for m"
      using deliver_owner_of [OF reg d] deliver_to_client_frame(3) [OF d] by (auto simp: held_for_def)
    show "inbox_of m' c = inbox_of m c \<or> owner_of m c = Some r \<and> inbox_of m' c = inbox_of m c @ [e]"
      using deliver_inbox_of [OF reg d, of c] by (auto simp: inbox_of_def owner_of_def split: option.splits)
    have "ok = (\<exists>y c. dict_get (connections m) y = Some c \<and> routing_identity c = r
                   \<and> snd (enqueue_outbound c e))"
      using deliver_to_client_get(2) [OF reg d] .
    moreover have "owner_of m y = Some r \<and> inbox_of m' y = inbox_of m y @ [e] \<longleftrightarrow>
        (\<exists>c. dict_get (connections m) y = Some c \<and> routing_identity c = r
           \<and> snd (enqueue_outbound c e))" for y
      unfolding deliver_inbox_of [OF reg d]
      by (cases "dict_get (connections m) y") (auto simp: inbox_of_def owner_of_def)
    ultimately show "ok = (\<exists>c. owner_of m c = Some r \<and> inbox_of m' c = inbox_of m c @ [e])"
      by simp
  }
  assume h: "queue_offline m r e = (m', ok)"
  show "manager_ok m'" using queue_offline_ok [OF m h] .
  show "owner_of m' = owner_of m \<and> inbox_of m' = inbox_of m"
    using h by (auto simp: queue_offline_def owner_of_def inbox_of_def fun_eq_iff split: prod.splits)
  show "held_for m' = (if ok then (held_for m)(r := held_for m r @ [e]) else held_for m)"
    using h enqueue_waiting [of "offline_queue m" r e]
    by (auto simp: queue_offline_def held_for_def fun_eq_iff split: prod.splits)
qed

end
