(* ===== verification/Endpoint.thy ===== *)
theory Endpoint
  imports ManagerInv AuthService
begin

text \<open>
  \<open>websocket/endpoint.py\<close>: the WebSocket handler. The server's state is the connection
  manager and the log. A handler names its connection by id; the context is the one the
  manager holds. The receive loop is one function per iteration: \<open>recv_frame\<close> runs from a
  received text to the next wait, which is the next receive or, while a token is being
  resolved, the database; \<open>auth_finish\<close> continues after the latter. Clock readings and the
  fresh ids are arguments; the size of the interpreter's stack, Unicode and pydantic are
  parameters.
\<close>

record transport_env =
  te_unicode :: unicode_db
  te_pydantic :: pydantic
  te_depth :: nat

record server =
  srv_manager :: manager
  srv_log :: "log_record list"

datatype handler_exn = JsonError json_error | EncodeError | AuthException exn

section \<open>Logging and errors\<close>

definition ws_record :: "string \<Rightarrow> connection_context option \<Rightarrow> (string \<times> logval) list \<Rightarrow> log_record" where
  "ws_record event context fs =
     log_update ((lit ''event'', LStr (lit event)) # (case context of None \<Rightarrow> []
       | Some c \<Rightarrow> [(lit ''connection_id'', LStr (connection_id c)),
                   (lit ''authenticated'', LBool (authenticated c))]
           @ (case user_id c of None \<Rightarrow> [] | Some u \<Rightarrow> [(lit ''user_id'', LStr u)])
           @ (case session_id c of None \<Rightarrow> [] | Some s \<Rightarrow> [(lit ''session_id'', LStr s)]))) fs"

definition emit :: "server \<Rightarrow> string \<Rightarrow> connection_context option \<Rightarrow> (string \<times> logval) list \<Rightarrow> server" where
  "emit sv event context fs = sv\<lparr>srv_log := srv_log sv @ [ws_record event context fs]\<rparr>"

definition error_message :: "pydantic \<Rightarrow> protocol_error_code \<Rightarrow> uuid option \<Rightarrow> json" where
  "error_message P code mid = dump P (ProtocolError (protocol_error_value code) (describe code) mid)"

definition extract_message_id :: "unicode_db \<Rightarrow> json \<Rightarrow> uuid option" where
  "extract_message_id U raw = (case json_obj raw of None \<Rightarrow> None
     | Some d \<Rightarrow> (case Option.bind (dict_get d (lit ''message_id'')) json_str of
         None \<Rightarrow> None | Some candidate \<Rightarrow> uuid_of_str U candidate))"

section \<open>The writer\<close>

text \<open>
  One turn of \<open>_writer_loop\<close>: \<open>None\<close> while the queue is empty. After a disconnect the
  task returns having called \<open>task_done\<close> twice; any other exception ends it too. \<open>NoWriter\<close>: the
  task is created once the upgrade is accepted.
\<close>

datatype send_result = Sent | PeerGone | SendFailed

datatype writer_state = NoWriter | WriterRunning | WriterReturned | WriterFailed

definition task_done_quiet :: "'e async_queue \<Rightarrow> 'e async_queue" where
  "task_done_quiet q = (case aq_task_done q of None \<Rightarrow> q | Some q' \<Rightarrow> q')"

definition writer_turn :: "server \<Rightarrow> ustr \<Rightarrow> send_result \<Rightarrow> (server \<times> json \<times> writer_state) option" where
  "writer_turn sv cid result =
     (case get_connection (srv_manager sv) cid of
        None \<Rightarrow> None
      | Some c \<Rightarrow>
         (case aq_get (outbound c) of
            None \<Rightarrow> None
          | Some (q, message) \<Rightarrow>
             (let put = (\<lambda>q'. sv\<lparr>srv_manager := with_context (srv_manager sv) cid (\<lambda>c. c\<lparr>outbound := q'\<rparr>)\<rparr>)
              in Some (case result of
                   Sent \<Rightarrow> (put (task_done_quiet q), message, WriterRunning)
                 | PeerGone \<Rightarrow> (put (task_done_quiet (task_done_quiet q)), message, WriterReturned)
                 | SendFailed \<Rightarrow> (put (task_done_quiet q), message, WriterFailed)))))"

section \<open>Routing\<close>

definition message_field :: "envelope \<Rightarrow> string \<times> logval" where
  "message_field e = (''message_id'', LStr (uuid_str (message_id e)))"

definition receipt_for :: "pydantic \<Rightarrow> connection_context \<Rightarrow> envelope \<Rightarrow> ustr \<Rightarrow> json" where
  "receipt_for P c e rcp =
     dump P (MessageReceipt (message_id e) (routing_identity c) rcp (timestamp e) (payload e))"

definition route_message ::
  "transport_env \<Rightarrow> server \<Rightarrow> connection_context \<Rightarrow> envelope \<Rightarrow> ustr \<Rightarrow> server \<times> delivery_status" where
  "route_message E sv c e rcp =
     (let receipt = receipt_for (te_pydantic E) c e rcp
      in if is_connected (srv_manager sv) rcp
         then (case deliver_to_client (srv_manager sv) rcp receipt of
                 (m', True) \<Rightarrow>
                   (emit (sv\<lparr>srv_manager := m'\<rparr>) ''message_routed'' (Some c)
                      [message_field e, (''status'', LStr (delivery_status_value DELIVERED))], DELIVERED)
               | (m', False) \<Rightarrow>
                   (emit (sv\<lparr>srv_manager := m'\<rparr>) ''message_rejected'' (Some c)
                      [message_field e, (''reason'', LStr (lit ''outbound_queue_full''))],
                    RECIPIENT_UNAVAILABLE))
         else (case enqueue (offline_queue (srv_manager sv)) rcp receipt of
                 (q, True) \<Rightarrow>
                   (emit (sv\<lparr>srv_manager := (srv_manager sv)\<lparr>offline_queue := q\<rparr>\<rparr>) ''message_queued'' (Some c)
                      [message_field e, (''status'', LStr (delivery_status_value QUEUED))], QUEUED)
               | (q, False) \<Rightarrow>
                   (emit (sv\<lparr>srv_manager := (srv_manager sv)\<lparr>offline_queue := q\<rparr>\<rparr>) ''message_rejected'' (Some c)
                      [message_field e, (''reason'', LStr (lit ''offline_queue_full''))],
                    RECIPIENT_UNAVAILABLE)))"

definition handle_message_send ::
  "transport_env \<Rightarrow> server \<Rightarrow> connection_context \<Rightarrow> envelope \<Rightarrow> server \<times> json list" where
  "handle_message_send E sv c e =
     (if sender e \<noteq> routing_identity c
      then (emit sv ''message_rejected'' (Some c) [message_field e, (''reason'', LStr (lit ''sender_mismatch''))],
            [error_message (te_pydantic E) WS_SENDER_MISMATCH (Some (message_id e)),
             dump (te_pydantic E) (DeliveryAck (message_id e) REJECTED)])
      else (case recipient e of
              None \<Rightarrow> (sv, [error_message (te_pydantic E) WS_INVALID_RECIPIENT (Some (message_id e))])
            | Some rcp \<Rightarrow>
                (case route_message E sv c e rcp of
                   (sv', status) \<Rightarrow> (sv', [dump (te_pydantic E) (DeliveryAck (message_id e) status)]))))"

definition handle_privileged ::
  "transport_env \<Rightarrow> server \<Rightarrow> connection_context \<Rightarrow> envelope \<Rightarrow> server \<times> json list" where
  "handle_privileged E sv c e =
     (if msg_type e = MESSAGE_SEND then handle_message_send E sv c e
      else if msg_type e = QUEUE_STATUS
      then (sv, [dump (te_pydantic E) (QueueStatus (message_id e)
                   (count (offline_queue (srv_manager sv)) (routing_identity c)))])
      else (sv, [error_message (te_pydantic E) WS_INTERNAL_PROTOCOL_ERROR (Some (message_id e))]))"

section \<open>Validation\<close>

datatype verdict = Accept envelope | Refuse "json list" | Crash json_error

definition validation_failed :: "server \<Rightarrow> connection_context \<Rightarrow> string \<Rightarrow> server" where
  "validation_failed sv c reason =
     emit sv ''protocol_validation_failed'' (Some c) [(''reason'', LStr (lit reason))]"

definition validate_inbound ::
  "transport_env \<Rightarrow> server \<Rightarrow> connection_context \<Rightarrow> ustr \<Rightarrow> server \<times> verdict" where
  "validate_inbound E sv c raw_text =
     (let P = te_pydantic E in
      case json_loads (te_depth E) raw_text of
        Inl JSONDecodeError \<Rightarrow>
          (validation_failed sv c ''invalid_json'', Refuse [error_message P WS_INVALID_JSON None])
      | Inl e \<Rightarrow> (sv, Crash e)
      | Inr parsed \<Rightarrow>
     (case json_obj parsed of
        None \<Rightarrow> (validation_failed sv c ''not_an_object'',
                Refuse [error_message P WS_SCHEMA_VALIDATION_FAILED None])
      | Some d \<Rightarrow>
         (let mid = extract_message_id (te_unicode E) parsed in
          if dict_get d (lit ''version'') \<noteq> Some (JStr PROTOCOL_VERSION)
          then (validation_failed sv c ''unsupported_version'',
                Refuse [error_message P WS_UNSUPPORTED_PROTOCOL_VERSION mid])
          else (case Option.bind (Option.bind (dict_get d (lit ''type'')) json_str) message_type_of of
                  None \<Rightarrow> (validation_failed sv c ''unknown_type'',
                          Refuse [error_message P WS_UNKNOWN_MESSAGE_TYPE mid])
                | Some t \<Rightarrow>
                    if t \<notin> CLIENT_SENDABLE_TYPES
                    then (validation_failed sv c ''server_only_type'',
                          Refuse [error_message P WS_UNKNOWN_MESSAGE_TYPE mid])
                    else if \<not> authenticated c \<and> t \<notin> UNAUTHENTICATED_SENDABLE_TYPES
                    then (emit sv ''websocket_auth_required'' (Some c)
                            [(''attempted_type'', LStr (message_type_value t))],
                          Refuse [error_message P WS_AUTH_REQUIRED mid])
                    else (case validate_envelope P d of
                            None \<Rightarrow> (validation_failed sv c ''schema_validation_failed'',
                                    Refuse [error_message P WS_SCHEMA_VALIDATION_FAILED mid])
                          | Some e \<Rightarrow> (sv, Accept e))))))"

section \<open>Sending to the own connection\<close>

text \<open>
  \<open>context.enqueue_outbound\<close> of the handler's own context, and the loop over the responses
  of a frame, which stops at the first that is not accepted.
\<close>

definition enqueue_own :: "server \<Rightarrow> ustr \<Rightarrow> json \<Rightarrow> server \<times> bool" where
  "enqueue_own sv cid message =
     (case get_connection (srv_manager sv) cid of
        None \<Rightarrow> (sv, False)
      | Some c \<Rightarrow> (case enqueue_outbound c message of
          (c', ok) \<Rightarrow> (sv\<lparr>srv_manager := with_context (srv_manager sv) cid (\<lambda>_. c')\<rparr>, ok)))"

fun enqueue_responses :: "server \<Rightarrow> ustr \<Rightarrow> json list \<Rightarrow> server \<times> bool" where
  "enqueue_responses sv cid [] = (sv, True)"
| "enqueue_responses sv cid (r # rs) =
     (case enqueue_own sv cid r of
        (sv', True) \<Rightarrow> enqueue_responses sv' cid rs
      | (sv', False) \<Rightarrow> (sv', False))"

text \<open>
  How a turn of the receive loop ends: the loop goes on, returns a close code, lets an
  exception out, or waits for the token in an authentication frame to be resolved.
  \<open>NotRegistered\<close> stands for a handler whose connection the manager does not hold.
\<close>

datatype turn = Served | CloseWith int | Raised handler_exn | AwaitToken envelope ustr | NotRegistered

definition finish_frame :: "server \<Rightarrow> ustr \<Rightarrow> json list \<Rightarrow> server \<times> turn" where
  "finish_frame sv cid responses =
     (case enqueue_responses sv cid responses of
        (sv', True) \<Rightarrow> (sv', Served)
      | (sv', False) \<Rightarrow>
          (emit sv' ''websocket_backpressure_close'' (get_connection (srv_manager sv') cid) [],
           CloseWith CLOSE_POLICY_VIOLATION))"

section \<open>Authentication\<close>

definition MAX_TOKEN_LENGTH :: nat where
  "MAX_TOKEN_LENGTH = 4096"

text \<open>\<open>_authenticate_connection\<close> up to the database: the responses, or the token to resolve.\<close>

definition auth_begin ::
  "transport_env \<Rightarrow> server \<Rightarrow> connection_context \<Rightarrow> envelope \<Rightarrow> server \<times> (json list + ustr)" where
  "auth_begin E sv c e =
     (if authenticated c
      then (sv, Inl [error_message (te_pydantic E) WS_ALREADY_AUTHENTICATED (Some (message_id e))])
      else (case Option.bind (dict_get (payload e) (lit ''access_token'')) json_str of
              Some token \<Rightarrow>
                if token = [] \<or> length token > MAX_TOKEN_LENGTH
                then (emit sv ''websocket_auth_failure'' (Some c)
                        [(''reason'', LStr (lit ''missing_or_oversized_token''))],
                      Inl [error_message (te_pydantic E) WS_AUTH_FAILED (Some (message_id e))])
                else (sv, Inr token)
            | None \<Rightarrow>
                (emit sv ''websocket_auth_failure'' (Some c)
                   [(''reason'', LStr (lit ''missing_or_oversized_token''))],
                 Inl [error_message (te_pydantic E) WS_AUTH_FAILED (Some (message_id e))])))"

definition failure_reason :: "auth_error \<Rightarrow> ustr" where
  "failure_reason x = (case err_reason x of
     Some r \<Rightarrow> if r = [] then auth_error_value (err_code x) else r
   | None \<Rightarrow> auth_error_value (err_code x))"

text \<open>The rest, with what \<open>resolve_access_token\<close> gave, to the end of the turn.\<close>

definition auth_finish ::
  "transport_env \<Rightarrow> server \<Rightarrow> ustr \<Rightarrow> envelope \<Rightarrow> exn + authenticated_identity \<Rightarrow> server \<times> turn" where
  "auth_finish E sv cid e result =
     (case result of
        Inl (AuthError x) \<Rightarrow>
          finish_frame
            (emit sv ''websocket_auth_failure'' (get_connection (srv_manager sv) cid)
               [(''reason'', LStr (failure_reason x))]) cid
            [error_message (te_pydantic E) WS_AUTH_FAILED (Some (message_id e))]
      | Inl x \<Rightarrow> (sv, Raised (AuthException x))
      | Inr i \<Rightarrow>
          (let m1 = bind_identity (srv_manager sv) cid (ai_user_id i) (ai_username i) (ai_session_id i);
               sv1 = emit (sv\<lparr>srv_manager := m1\<rparr>) ''websocket_auth_success'' (get_connection m1 cid) [];
               ready = dump (te_pydantic E)
                 (AuthReady (message_id e) (ai_user_id i) (ai_username i) (ai_session_id i))
           in case drain (offline_queue m1) (ai_username i) of
                (q, waiting_msgs) \<Rightarrow>
                  finish_frame (sv1\<lparr>srv_manager := m1\<lparr>offline_queue := q\<rparr>\<rparr>) cid (ready # waiting_msgs)))"

section \<open>The receive loop\<close>

text \<open>The turn in which a validated envelope is dispatched.\<close>

definition dispatch ::
  "transport_env \<Rightarrow> server \<Rightarrow> ustr \<Rightarrow> connection_context \<Rightarrow> envelope \<Rightarrow> datetime \<Rightarrow> server \<times> turn" where
  "dispatch E sv cid c e wall_now =
     (if msg_type e = AUTH_AUTHENTICATE
      then (case auth_begin E sv c e of
              (sv', Inl responses) \<Rightarrow> finish_frame sv' cid responses
            | (sv', Inr token) \<Rightarrow> (sv', AwaitToken e token))
      else if msg_type e = HEARTBEAT_PING
      then finish_frame sv cid [dump (te_pydantic E) (HeartbeatPong (message_id e) wall_now)]
      else if msg_type e \<in> PRIVILEGED_TYPES
      then (case handle_privileged E sv c e of (sv', responses) \<Rightarrow> finish_frame sv' cid responses)
      else finish_frame sv cid [error_message (te_pydantic E) WS_INTERNAL_PROTOCOL_ERROR (Some (message_id e))])"

definition recv_frame ::
  "transport_env \<Rightarrow> server \<Rightarrow> ustr \<Rightarrow> ustr \<Rightarrow> rat \<Rightarrow> datetime \<Rightarrow> server \<times> turn" where
  "recv_frame E sv cid raw_text now wall_now =
     (let m = srv_manager sv in
      case get_connection m cid of
        None \<Rightarrow> (sv, NotRegistered)
      | Some c0 \<Rightarrow>
     (let c = touch c0 now;
          sv1 = sv\<lparr>srv_manager := with_context m cid (\<lambda>_. c)\<rparr> in
      case utf8_encode raw_text of
        None \<Rightarrow> (sv1, Raised EncodeError)
      | Some bytes \<Rightarrow>
          if int (length bytes) > max_message_bytes (limits m)
          then (fst (enqueue_own
                  (emit sv1 ''oversized_message_rejected'' (Some c) [(''size_bytes'', LInt (int (length raw_text)))])
                  cid (error_message (te_pydantic E) WS_MESSAGE_TOO_LARGE None)), Served)
          else (case allow (limiter c) now of
                  (l, ok) \<Rightarrow>
                    (let c2 = c\<lparr>limiter := l\<rparr>;
                         sv2 = sv1\<lparr>srv_manager := with_context (srv_manager sv1) cid (\<lambda>_. c2)\<rparr> in
                     if \<not> ok
                     then (fst (enqueue_own (emit sv2 ''rate_limit_triggered'' (Some c2) []) cid
                             (error_message (te_pydantic E) WS_RATE_LIMITED None)), Served)
                     else (case validate_inbound E sv2 c2 raw_text of
                             (sv3, Crash x) \<Rightarrow> (sv3, Raised (JsonError x))
                           | (sv3, Refuse errs) \<Rightarrow> finish_frame sv3 cid errs
                           | (sv3, Accept e) \<Rightarrow> dispatch E sv3 cid c2 e wall_now)))))"

text \<open>The wait for a frame: how long it may take, and what happens when it does not come.\<close>

definition recv_deadline :: "server \<Rightarrow> connection_context \<Rightarrow> pyfloat" where
  "recv_deadline sv c = (if authenticated c then idle_timeout_seconds (limits (srv_manager sv))
     else unauthenticated_timeout_seconds (limits (srv_manager sv)))"

definition recv_timeout :: "transport_env \<Rightarrow> server \<Rightarrow> ustr \<Rightarrow> server \<times> turn" where
  "recv_timeout E sv cid =
     (case get_connection (srv_manager sv) cid of
        None \<Rightarrow> (sv, NotRegistered)
      | Some c \<Rightarrow>
          if \<not> authenticated c
          then (fst (enqueue_own (emit sv ''websocket_auth_deadline_expired'' (Some c) []) cid
                  (error_message (te_pydantic E) WS_AUTH_REQUIRED None)), CloseWith CLOSE_AUTH_REQUIRED)
          else (fst (enqueue_own (emit sv ''websocket_idle_timeout'' (Some c) []) cid
                  (error_message (te_pydantic E) WS_IDLE_TIMEOUT None)), CloseWith CLOSE_IDLE_TIMEOUT))"

definition recv_disconnect :: "server \<Rightarrow> ustr \<Rightarrow> server \<times> turn" where
  "recv_disconnect sv cid = (sv, CloseWith CLOSE_NORMAL)"

section \<open>The endpoint\<close>

definition reject_upgrade :: "server \<Rightarrow> int \<Rightarrow> protocol_error_code \<Rightarrow> server \<times> int" where
  "reject_upgrade sv code error_code =
     (emit sv ''websocket_rejected'' None [(''reason'', LStr (protocol_error_value error_code))], code)"

text \<open>
  \<open>websocket_transport\<close> up to \<open>await websocket.accept()\<close>: the close code of a refused upgrade,
  or the id of the connection, which is registered from here on. \<open>anon\<close> and \<open>cid\<close> are the two
  fresh \<open>uuid4().hex\<close>. Then what runs once the upgrade is accepted, up to the receive loop. When
  \<open>accept\<close> raises or is cancelled nothing runs: the \<open>try\<close> block begins after it.
\<close>

definition connection_ready :: "pydantic \<Rightarrow> transport_limits \<Rightarrow> ustr \<Rightarrow> json" where
  "connection_ready P l cid = dump P (ConnectionReady cid (unauthenticated_timeout_seconds l)
     (heartbeat_interval_seconds l) (idle_timeout_seconds l) (max_message_bytes l))"

definition ws_connect ::
  "server \<Rightarrow> ustr option \<Rightarrow> ustr option \<Rightarrow> rat \<Rightarrow> datetime \<Rightarrow> ustr \<Rightarrow> ustr \<Rightarrow> server \<times> (int + ustr)" where
  "ws_connect sv origin host now wall_now anon cid =
     (if \<not> is_origin_allowed (limits (srv_manager sv)) origin
      then (case reject_upgrade (emit sv ''origin_rejected'' None []) CLOSE_ORIGIN_REJECTED WS_ORIGIN_REJECTED of
              (sv', code) \<Rightarrow> (sv', Inl code))
      else (case register (srv_manager sv) (lit ''anon-'' @ anon) host now wall_now cid of
              (m, Inl _) \<Rightarrow>
                (case reject_upgrade (sv\<lparr>srv_manager := m\<rparr>) CLOSE_CONNECTION_LIMIT WS_CONNECTION_LIMIT of
                   (sv', code) \<Rightarrow> (sv', Inl code))
            | (m, Inr c) \<Rightarrow> (sv\<lparr>srv_manager := m\<rparr>, Inr cid)))"

definition ws_accepted :: "transport_env \<Rightarrow> server \<Rightarrow> ustr \<Rightarrow> server" where
  "ws_accepted E sv cid =
     fst (enqueue_own
       (emit sv ''websocket_connected'' (get_connection (srv_manager sv) cid)
          [(''active_connections'', LInt (connection_count (srv_manager sv)))])
       cid (connection_ready (te_pydantic E) (limits (srv_manager sv)) cid))"

text \<open>
  The \<open>finally\<close> block in two steps, around the flush of the outbound queue: the context is
  marked closing; then, once the writer has been awaited, the connection is unregistered.
  Awaiting a writer that failed raises, and the rest of the block is skipped.
\<close>

definition close_begin :: "server \<Rightarrow> ustr \<Rightarrow> server" where
  "close_begin sv cid = sv\<lparr>srv_manager := with_context (srv_manager sv) cid mark_closing\<rparr>"

definition close_end :: "server \<Rightarrow> ustr \<Rightarrow> writer_state \<Rightarrow> server" where
  "close_end sv cid w =
     (if w = WriterFailed then sv
      else (case unregister (srv_manager sv) cid of
              (m, c) \<Rightarrow> emit (sv\<lparr>srv_manager := m\<rparr>) ''websocket_disconnected'' c
                 [(''active_connections'', LInt (connection_count m))]))"

end
