(* ===== verification/EndpointInv.thy ===== *)
theory EndpointInv
  imports Endpoint
begin

text \<open>
  What the turns of a handler do to the manager: the invariant \<open>manager_ok\<close> is kept, the
  identities of other connections do not move, and the only receipts that can appear
  anywhere are the one a \<open>message.send\<close> of an authenticated connection produces, under that
  connection's identity, and those that were already waiting.
\<close>

named_theorems turns \<open>effect of the handler's turns on the server's state\<close>

lemma emit_manager [simp]: "srv_manager (emit sv ev c fs) = srv_manager sv"
  by (simp add: emit_def)

lemma validation_failed_manager [simp]: "srv_manager (validation_failed sv c r) = srv_manager sv"
  by (simp add: validation_failed_def)

lemma validate_inbound_manager [simp]: "srv_manager (fst (validate_inbound E sv c raw)) = srv_manager sv"
  by (simp add: validate_inbound_def Let_def split: sum.split json_error.split option.split)

lemma auth_begin_manager [simp]: "srv_manager (fst (auth_begin E sv c e)) = srv_manager sv"
  by (simp add: auth_begin_def split: option.split)

lemma reject_upgrade_manager [simp]: "srv_manager (fst (reject_upgrade sv code x)) = srv_manager sv"
  by (simp add: reject_upgrade_def)

section \<open>Receipts\<close>

definition receipt_in :: "manager \<Rightarrow> json \<Rightarrow> bool" where
  "receipt_in m j \<longleftrightarrow> is_receipt j \<and>
     ((\<exists>cid. j \<in> set (inbox_of m cid)) \<or> (\<exists>r. j \<in> set (held_for m r)))"

text \<open>A change of the own context that adds at most one message to its queue.\<close>

lemma enqueue_own_cases:
  obtains (absent) "get_connection (srv_manager sv) cid = None" "enqueue_own sv cid msg = (sv, False)"
  | (present) c c' ok where "get_connection (srv_manager sv) cid = Some c"
      and "enqueue_outbound c msg = (c', ok)"
      and "enqueue_own sv cid msg = (sv\<lparr>srv_manager := with_context (srv_manager sv) cid (\<lambda>_. c')\<rparr>, ok)"
proof (cases "get_connection (srv_manager sv) cid")
  case None
  then show thesis by (intro absent) (simp_all add: enqueue_own_def)
next
  case (Some c)
  obtain c' ok where "enqueue_outbound c msg = (c', ok)" by fastforce
  with Some show thesis by (intro present) (simp_all add: enqueue_own_def)
qed

lemma with_context_inbox:
  "inbox_of (with_context m cid f) x =
     (if x = cid then (case dict_get (connections m) cid of None \<Rightarrow> [] | Some c \<Rightarrow> aq_items (outbound (f c)))
      else inbox_of m x)"
  by (auto simp: inbox_of_def with_context_get split: option.splits)

lemma with_context_owner:
  assumes "\<And>c. dict_get (connections m) cid = Some c \<Longrightarrow> routing_identity (f c) = routing_identity c"
  shows "owner_of (with_context m cid f) = owner_of m"
proof
  show "owner_of (with_context m cid f) x = owner_of m x" for x
    using assms by (cases "dict_get (connections m) cid") (simp_all add: owner_of_def with_context_get)
qed

lemma with_context_held [simp]: "held_for (with_context m cid f) = held_for m"
  by (simp add: held_for_def fun_eq_iff)

lemma enqueue_own_ok:
  assumes ok: "manager_ok (srv_manager sv)"
  shows "manager_ok (srv_manager (fst (enqueue_own sv cid msg)))"
proof (cases rule: enqueue_own_cases [of sv cid msg])
  case (present c c' b)
  have "context_ok (limits (srv_manager sv)) c" and "connection_id c = cid"
    using ok present(1) contexts_okD by (auto simp: manager_ok_def registry_ok_def get_connection_def)
  with present enqueue_outbound_frame [OF present(2)] enqueue_outbound_context_ok [OF _ present(2)]
  show ?thesis using ok by (auto simp: get_connection_def intro!: with_context_ok)
qed (use ok in simp)

lemma enqueue_own_owner [simp]:
  "owner_of (srv_manager (fst (enqueue_own sv cid msg))) = owner_of (srv_manager sv)"
proof (cases rule: enqueue_own_cases [of sv cid msg])
  case (present c c' b)
  have "owner_of (with_context (srv_manager sv) cid (\<lambda>_. c')) = owner_of (srv_manager sv)"
    by (rule with_context_owner)
       (use present(1) enqueue_outbound_frame(10) [OF present(2)] in \<open>simp add: get_connection_def\<close>)
  with present(3) show ?thesis by simp
qed simp

lemma enqueue_own_frame [simp]:
  "held_for (srv_manager (fst (enqueue_own sv cid msg))) = held_for (srv_manager sv)"
  "limits (srv_manager (fst (enqueue_own sv cid msg))) = limits (srv_manager sv)"
  "srv_log (fst (enqueue_own sv cid msg)) = srv_log sv"
  by (cases rule: enqueue_own_cases [of sv cid msg]; simp)+

lemma enqueue_own_inbox:
  "inbox_of (srv_manager (fst (enqueue_own sv cid msg))) x =
     (if x = cid \<and> snd (enqueue_own sv cid msg) then inbox_of (srv_manager sv) x @ [msg]
      else inbox_of (srv_manager sv) x)"
proof (cases rule: enqueue_own_cases [of sv cid msg])
  case (present c c' b)
  with enqueue_outbound_items [OF present(2)] show ?thesis
    by (simp add: with_context_inbox get_connection_def) (simp add: inbox_of_def)
qed simp

text \<open>What a handler knows of its own connection, apart from the outbound queue.\<close>

definition same_standing :: "connection_context \<Rightarrow> connection_context \<Rightarrow> bool" where
  "same_standing c c' \<longleftrightarrow> authenticated c' = authenticated c \<and> user_id c' = user_id c \<and>
     account_username c' = account_username c \<and> session_id c' = session_id c \<and>
     connection_id c' = connection_id c \<and> transport_client_id c' = transport_client_id c \<and>
     closing c' = closing c"

lemma same_standing_refl [simp]: "same_standing c c"
  by (simp add: same_standing_def)

lemma same_standing_trans: "same_standing a b \<Longrightarrow> same_standing b c \<Longrightarrow> same_standing a c"
  by (simp add: same_standing_def)

lemma same_standing_identity: "same_standing c c' \<Longrightarrow> routing_identity c' = routing_identity c"
  by (simp add: same_standing_def routing_identity_def split: option.split)

text \<open>
  \<open>quiet m m'\<close>: no connection came, went or changed its standing; only the queues and the
  handler's bookkeeping did.
\<close>

definition quiet :: "manager \<Rightarrow> manager \<Rightarrow> bool" where
  "quiet m m' \<longleftrightarrow> limits m' = limits m \<and> by_client m' = by_client m \<and>
     (\<forall>x. rel_option same_standing (get_connection m x) (get_connection m' x))"

lemma quiet_refl [simp]: "quiet m m"
  by (simp add: quiet_def option.rel_refl)

lemma quiet_get:
  assumes "quiet m m'"
  obtains "get_connection m x = None" "get_connection m' x = None"
  | c c' where "get_connection m x = Some c" "get_connection m' x = Some c'" "same_standing c c'"
proof -
  from assms have "rel_option same_standing (get_connection m x) (get_connection m' x)"
    by (simp add: quiet_def)
  then show thesis using that by (cases "get_connection m x"; cases "get_connection m' x") auto
qed

lemma quietI:
  assumes "limits m' = limits m" and "by_client m' = by_client m"
    and "\<And>x. get_connection m x = None \<Longrightarrow> get_connection m' x = None"
    and "\<And>x c. get_connection m x = Some c \<Longrightarrow> \<exists>c'. get_connection m' x = Some c' \<and> same_standing c c'"
  shows "quiet m m'"
  unfolding quiet_def
proof (intro conjI allI)
  show "rel_option same_standing (get_connection m x) (get_connection m' x)" for x
    using assms(3,4) [of x] by (cases "get_connection m x") auto
qed (use assms in simp_all)

lemma quiet_trans:
  assumes "quiet a b" and "quiet b c"
  shows "quiet a c"
proof (rule quietI)
  fix x k assume k: "get_connection a x = Some k"
  then obtain k' where k': "get_connection b x = Some k'" "same_standing k k'"
    by (cases rule: quiet_get [OF assms(1), of x]) auto
  then obtain k'' where "get_connection c x = Some k''" "same_standing k' k''"
    by (cases rule: quiet_get [OF assms(2), of x]) auto
  with k'(2) show "\<exists>k'. get_connection c x = Some k' \<and> same_standing k k'"
    using same_standing_trans by blast
next
  fix x assume "get_connection a x = None"
  then have "get_connection b x = None" by (cases rule: quiet_get [OF assms(1), of x]) auto
  then show "get_connection c x = None" by (cases rule: quiet_get [OF assms(2), of x]) auto
qed (use assms in \<open>simp_all add: quiet_def\<close>)

lemma quiet_owner: "quiet m m' \<Longrightarrow> owner_of m' = owner_of m"
proof
  fix x assume "quiet m m'"
  then show "owner_of m' x = owner_of m x"
    by (cases rule: quiet_get [of m m' x])
       (auto simp: owner_of_def get_connection_def same_standing_identity)
qed

lemma quiet_with_context:
  assumes "\<And>c. get_connection m cid = Some c \<Longrightarrow> same_standing c (f c)"
  shows "quiet m (with_context m cid f)"
  using assms by (intro quietI) (auto simp: get_connection_def with_context_get)

lemma enqueue_outbound_standing: "enqueue_outbound c msg = (c', ok) \<Longrightarrow> same_standing c c'"
  using enqueue_outbound_frame [of c msg c' ok] by (simp add: same_standing_def)

lemma enqueue_own_quiet: "quiet (srv_manager sv) (srv_manager (fst (enqueue_own sv cid msg)))"
proof (cases rule: enqueue_own_cases [of sv cid msg])
  case (present c c' b)
  have "quiet (srv_manager sv) (with_context (srv_manager sv) cid (\<lambda>_. c'))"
    by (rule quiet_with_context) (use present(1) enqueue_outbound_standing [OF present(2)] in simp)
  with present(3) show ?thesis by simp
qed simp

lemma deliver_quiet:
  assumes "registry_ok m" and "deliver_to_client m k msg = (m', b)"
  shows "quiet m m'"
proof (rule quietI)
  fix x c assume "get_connection m x = Some c"
  moreover have "same_standing c (fst (enqueue_outbound c msg))"
    by (rule enqueue_outbound_standing) (rule surjective_pairing)
  ultimately show "\<exists>c'. get_connection m' x = Some c' \<and> same_standing c c'"
    using deliver_to_client_get(1) [OF assms, of x] by (auto simp: get_connection_def)
next
  fix x assume "get_connection m x = None"
  then show "get_connection m' x = None"
    using deliver_to_client_get(1) [OF assms, of x] by (simp add: get_connection_def)
qed (use deliver_to_client_frame [OF assms(2)] in simp_all)

lemma quiet_queue: "quiet m (m\<lparr>offline_queue := q\<rparr>)"
  by (rule quietI) (simp_all add: get_connection_def)

section \<open>The effect of a turn\<close>

text \<open>
  \<open>turn_ok m m' new\<close>: the invariant holds again, nobody's standing changed, and a receipt
  that is now somewhere was there before or is among \<open>new\<close>.
\<close>

definition turn_ok :: "manager \<Rightarrow> manager \<Rightarrow> json set \<Rightarrow> bool" where
  "turn_ok m m' new \<longleftrightarrow> manager_ok m' \<and> quiet m m' \<and>
     (\<forall>j. receipt_in m' j \<longrightarrow> receipt_in m j \<or> j \<in> new)"

lemma turn_ok_refl [simp]: "manager_ok m \<Longrightarrow> turn_ok m m new"
  by (simp add: turn_ok_def)

lemma turn_ok_trans: "turn_ok a b new \<Longrightarrow> turn_ok b c new' \<Longrightarrow> turn_ok a c (new \<union> new')"
  unfolding turn_ok_def using quiet_trans by blast

lemma turn_ok_mono: "turn_ok m m' new \<Longrightarrow> (\<And>j. is_receipt j \<Longrightarrow> j \<in> new \<Longrightarrow> j \<in> new') \<Longrightarrow> turn_ok m m' new'"
  unfolding turn_ok_def receipt_in_def by blast

lemma turn_okD: "turn_ok m m' new \<Longrightarrow> manager_ok m'" "turn_ok m m' new \<Longrightarrow> quiet m m'"
  by (simp_all add: turn_ok_def)

lemma enqueue_own_turn:
  assumes "manager_ok (srv_manager sv)"
  shows "turn_ok (srv_manager sv) (srv_manager (fst (enqueue_own sv cid msg))) {msg}"
  unfolding turn_ok_def
  using enqueue_own_ok [OF assms] enqueue_own_quiet
  by (auto simp: receipt_in_def enqueue_own_inbox split: if_splits)

lemma enqueue_responses_turn:
  "manager_ok (srv_manager sv) \<Longrightarrow>
     turn_ok (srv_manager sv) (srv_manager (fst (enqueue_responses sv cid rs))) (set rs)"
proof (induction rs arbitrary: sv)
  case (Cons r rs)
  obtain sv1 ok where e: "enqueue_own sv cid r = (sv1, ok)" by fastforce
  from enqueue_own_turn [OF Cons.prems, of cid r] e
  have t: "turn_ok (srv_manager sv) (srv_manager sv1) {r}" by simp
  have "turn_ok (srv_manager sv1) (srv_manager (fst (enqueue_responses sv1 cid rs))) (set rs)"
    using Cons.IH turn_okD(1) [OF t] .
  from turn_ok_trans [OF t this] turn_ok_mono [OF t, of "set (r # rs)"] e show ?case
    by (cases ok) auto
qed simp

lemma finish_frame_manager:
  "srv_manager (fst (finish_frame sv cid rs)) = srv_manager (fst (enqueue_responses sv cid rs))"
  by (simp add: finish_frame_def split: prod.split bool.split)

lemma finish_frame_turn:
  "manager_ok (srv_manager sv) \<Longrightarrow>
     turn_ok (srv_manager sv) (srv_manager (fst (finish_frame sv cid rs))) (set rs)"
  by (simp add: finish_frame_manager enqueue_responses_turn)

lemma with_context_turn:
  assumes ok: "manager_ok m" and c: "get_connection m cid = Some c" and s: "same_standing c c'"
    and o: "aq_items (outbound c') = aq_items (outbound c)" and l: "context_ok (limits m) c'"
  shows "turn_ok m (with_context m cid (\<lambda>_. c')) {}"
  unfolding turn_ok_def
proof (intro conjI)
  have "connection_id c' = connection_id c \<and> routing_identity c' = routing_identity c"
    using s same_standing_identity [OF s] by (simp add: same_standing_def)
  then show "manager_ok (with_context m cid (\<lambda>_. c'))"
    using ok c l by (intro with_context_ok) (auto simp: get_connection_def)
  show "quiet m (with_context m cid (\<lambda>_. c'))" using c s by (intro quiet_with_context) simp
  have "inbox_of (with_context m cid (\<lambda>_. c')) x = inbox_of m x" for x
    using c o by (auto simp: with_context_get inbox_of_def get_connection_def)
  then show "\<forall>j. receipt_in (with_context m cid (\<lambda>_. c')) j \<longrightarrow> receipt_in m j \<or> j \<in> {}"
    by (simp add: receipt_in_def)
qed

lemma connection_ok:
  assumes "manager_ok m" and "get_connection m cid = Some c"
  shows "connection_id c = cid" and "context_ok (limits m) c"
  using assms contexts_okD by (auto simp: manager_ok_def registry_ok_def get_connection_def)

section \<open>Routing\<close>

definition status_of_route :: "routed \<Rightarrow> delivery_status" where
  "status_of_route s = (case s of ToLive \<Rightarrow> DELIVERED | Held \<Rightarrow> QUEUED | Dropped \<Rightarrow> RECIPIENT_UNAVAILABLE)"

text \<open>\<open>_route_message\<close> is the interface's \<open>route\<close> on the manager.\<close>

lemma route_message_hub:
  "srv_manager (fst (route_message E sv c e rcp)) =
     fst (hub.route (srv_manager sv) rcp (receipt_for (te_pydantic E) c e rcp))"
  "snd (route_message E sv c e rcp) =
     status_of_route (snd (hub.route (srv_manager sv) rcp (receipt_for (te_pydantic E) c e rcp)))"
  by (auto simp: route_message_def hub.route_def queue_offline_def status_of_route_def Let_def
      split: prod.splits bool.splits)

lemma route_receipts:
  assumes ok: "manager_ok m" and r: "hub.route m rcp j = (m', s)" and x: "receipt_in m' y"
  shows "receipt_in m y \<or> y = j"
proof (cases s)
  case ToLive
  have "set (inbox_of m' cid) \<subseteq> set (inbox_of m cid) \<union> {j}" for cid
  proof (cases "is_connected m rcp")
    case True
    then obtain b where d: "deliver_to_client m rcp j = (m', b)"
      using r by (auto simp: hub.route_def split: prod.splits)
    show ?thesis using hub.deliver_inbox [OF ok d, of cid] by auto
  next
    case False
    then obtain b where d: "queue_offline m rcp j = (m', b)"
      using r by (auto simp: hub.route_def split: prod.splits)
    show ?thesis using hub.hold_frame [OF ok d] by auto
  qed
  with hub.route_outcome(1) [OF ok r ToLive] x show ?thesis by (auto simp: receipt_in_def)
next
  case Held
  with hub.route_outcome(2) [OF ok r Held] x show ?thesis
    by (auto simp: receipt_in_def split: if_splits)
next
  case Dropped
  with hub.route_outcome(3) [OF ok r Dropped] x show ?thesis by (simp add: receipt_in_def)
qed

lemma route_quiet:
  assumes ok: "manager_ok m" and r: "hub.route m rcp j = (m', s)"
  shows "quiet m m'"
  using r deliver_quiet [of m rcp j] ok quiet_queue
  by (auto simp: hub.route_def queue_offline_def manager_ok_def split: if_splits prod.splits)

lemma route_message_turn:
  assumes "manager_ok (srv_manager sv)"
  shows "turn_ok (srv_manager sv) (srv_manager (fst (route_message E sv c e rcp)))
    {receipt_for (te_pydantic E) c e rcp}"
proof -
  obtain m' s where r: "hub.route (srv_manager sv) rcp (receipt_for (te_pydantic E) c e rcp) = (m', s)"
    by fastforce
  then show ?thesis
    using hub.route_inv [OF assms r] route_quiet [OF assms r] route_receipts [OF assms r]
    by (auto simp: turn_ok_def route_message_hub)
qed

section \<open>The turns\<close>

text \<open>The messages a handler answers with are never receipts.\<close>

lemma not_receipt [simp]:
  "\<not> is_receipt (error_message P code mid)" "\<not> is_receipt (connection_ready P l cid)"
  by (simp_all add: error_message_def connection_ready_def)

text \<open>What an accepted frame has passed.\<close>

lemma validate_inbound_accept:
  assumes "validate_inbound E sv c raw = (sv', Accept e)"
  obtains d where "json_loads (te_depth E) raw = Inr (JObj d)"
    and "validate_envelope (te_pydantic E) d = Some e"
    and "msg_type e \<in> CLIENT_SENDABLE_TYPES"
    and "authenticated c \<or> msg_type e \<in> UNAUTHENTICATED_SENDABLE_TYPES" and "sv' = sv"
proof -
  from assms obtain parsed d t where v: "json_loads (te_depth E) raw = Inr parsed" "json_obj parsed = Some d"
    "Option.bind (Option.bind (dict_get d (lit ''type'')) json_str) message_type_of = Some t"
    "t \<in> CLIENT_SENDABLE_TYPES" "authenticated c \<or> t \<in> UNAUTHENTICATED_SENDABLE_TYPES"
    "validate_envelope (te_pydantic E) d = Some e" "sv' = sv"
    by (auto simp: validate_inbound_def Let_def split: sum.splits json_error.splits option.splits if_splits)
  have "t = msg_type e" using v(3) validate_envelope_sound(4) [OF v(6)] by simp
  moreover have "parsed = JObj d" using v(2) by (cases parsed) simp_all
  ultimately show thesis using v that by blast
qed

text \<open>The receipts a privileged action can produce.\<close>

definition sent_by :: "transport_env \<Rightarrow> connection_context \<Rightarrow> envelope \<Rightarrow> json set" where
  "sent_by E c e = (if msg_type e = MESSAGE_SEND \<and> sender e = routing_identity c
     then {j. \<exists>rcp. recipient e = Some rcp \<and> j = receipt_for (te_pydantic E) c e rcp} else {})"

lemma handle_privileged_turn:
  assumes ok: "manager_ok (srv_manager sv)" and h: "handle_privileged E sv c e = (sv', rs)"
  shows "turn_ok (srv_manager sv) (srv_manager sv') (sent_by E c e)" and "\<forall>r \<in> set rs. \<not> is_receipt r"
proof -
  show "turn_ok (srv_manager sv) (srv_manager sv') (sent_by E c e)"
  proof (cases "msg_type e = MESSAGE_SEND \<and> sender e = routing_identity c \<and> recipient e \<noteq> None")
    case True
    then obtain rcp where rcp: "recipient e = Some rcp" by blast
    with True h have "srv_manager sv' = srv_manager (fst (route_message E sv c e rcp))"
      by (auto simp: handle_privileged_def handle_message_send_def split: prod.splits)
    with turn_ok_mono [OF route_message_turn [OF ok, of E c e rcp], of "sent_by E c e"] True rcp
    show ?thesis by (simp add: sent_by_def)
  next
    case False
    with h ok have "srv_manager sv' = srv_manager sv"
      by (auto simp: handle_privileged_def handle_message_send_def split: if_splits option.splits prod.splits)
    with ok show ?thesis by simp
  qed
  show "\<forall>r \<in> set rs. \<not> is_receipt r"
    using h by (auto simp: handle_privileged_def handle_message_send_def
        split: if_splits option.splits prod.splits)
qed

lemma finish_quietly:
  assumes "manager_ok (srv_manager sv)" and "\<forall>r \<in> set rs. \<not> is_receipt r"
  shows "turn_ok (srv_manager sv) (srv_manager (fst (finish_frame sv cid rs))) {}"
  by (rule turn_ok_mono [OF finish_frame_turn [OF assms(1)]]) (use assms(2) in blast)

lemma dispatch_turn:
  assumes ok: "manager_ok (srv_manager sv)"
  shows "turn_ok (srv_manager sv) (srv_manager (fst (dispatch E sv cid c e wall_now))) (sent_by E c e)"
proof -
  have quiet: "turn_ok (srv_manager sv) (srv_manager (fst (finish_frame sv' cid rs))) (sent_by E c e)"
    if "srv_manager sv' = srv_manager sv" "\<forall>r \<in> set rs. \<not> is_receipt r" for sv' rs
    using turn_ok_mono [OF finish_quietly [of sv' rs cid], of "sent_by E c e"] that ok by auto
  consider "msg_type e = AUTH_AUTHENTICATE" | "msg_type e = HEARTBEAT_PING"
    | "msg_type e \<noteq> AUTH_AUTHENTICATE" "msg_type e \<noteq> HEARTBEAT_PING" "msg_type e \<in> PRIVILEGED_TYPES"
    | "msg_type e \<noteq> AUTH_AUTHENTICATE" "msg_type e \<noteq> HEARTBEAT_PING" "msg_type e \<notin> PRIVILEGED_TYPES"
    by blast
  then show ?thesis
  proof cases
    case 1
    obtain sv' r where b: "auth_begin E sv c e = (sv', r)" by fastforce
    have m: "srv_manager sv' = srv_manager sv" using auth_begin_manager [of E sv c e] b by simp
    show ?thesis
    proof (cases r)
      case (Inl rs)
      then have "\<forall>r \<in> set rs. \<not> is_receipt r"
        using b by (auto simp: auth_begin_def split: if_splits option.splits)
      with quiet [OF m] 1 b Inl show ?thesis by (simp add: dispatch_def)
    next
      case (Inr token)
      with 1 b m ok show ?thesis by (simp add: dispatch_def)
    qed
  next
    case 2
    with quiet [of sv "[dump (te_pydantic E) (HeartbeatPong (message_id e) wall_now)]"] show ?thesis
      by (simp add: dispatch_def)
  next
    case 3
    obtain sv' rs where h: "handle_privileged E sv c e = (sv', rs)" by fastforce
    note t = handle_privileged_turn [OF ok h]
    from turn_ok_trans [OF t(1) finish_quietly [OF turn_okD(1) [OF t(1)] t(2), of cid]] 3 h
    show ?thesis by (simp add: dispatch_def)
  next
    case 4
    with quiet [of sv "[error_message (te_pydantic E) WS_INTERNAL_PROTOCOL_ERROR (Some (message_id e))]"]
    show ?thesis by (simp add: dispatch_def)
  qed
qed

text \<open>The receipts a frame can produce: those of a valid \<open>message.send\<close> of an account's own.\<close>

definition frame_receipts :: "transport_env \<Rightarrow> connection_context \<Rightarrow> ustr \<Rightarrow> json set" where
  "frame_receipts E c raw = {j. authenticated c \<and> (\<exists>d e rcp. json_loads (te_depth E) raw = Inr (JObj d) \<and>
     validate_envelope (te_pydantic E) d = Some e \<and> msg_type e = MESSAGE_SEND \<and>
     sender e = routing_identity c \<and> recipient e = Some rcp \<and> j = receipt_for (te_pydantic E) c e rcp)}"

lemma receipt_for_cong: "routing_identity c = routing_identity c' \<Longrightarrow> receipt_for P c e r = receipt_for P c' e r"
  by (simp add: receipt_for_def)

lemma allow_limits: "allow l now = (l', ok) \<Longrightarrow> 0 \<le> msg_count l \<Longrightarrow>
    rate_limiter.window_seconds l' = rate_limiter.window_seconds l \<and> max_messages l' = max_messages l \<and>
    0 \<le> msg_count l'"
  by (auto simp: allow_def Let_def split: if_splits)

lemma touch_limiter:
  assumes "context_ok l c" and "allow (limiter c) now = (r, ok)"
  shows "context_ok l (touch c now)" and "context_ok l ((touch c now)\<lparr>limiter := r\<rparr>)"
    and "same_standing c (touch c now)" and "same_standing (touch c now) ((touch c now)\<lparr>limiter := r\<rparr>)"
    and "outbound (touch c now) = outbound c" and "limiter (touch c now) = limiter c"
  using assms allow_limits [OF assms(2)] by (auto simp: context_ok_def touch_def same_standing_def)

lemma accepted_turn:
  assumes ok: "manager_ok (srv_manager sv)"
    and v: "validate_inbound E sv c raw = (sv', Accept e)"
    and c0: "same_standing c0 c"
  shows "turn_ok (srv_manager sv) (srv_manager (fst (dispatch E sv' cid c e wall_now))) (frame_receipts E c0 raw)"
proof -
  from v obtain d where d: "json_loads (te_depth E) raw = Inr (JObj d)"
    "validate_envelope (te_pydantic E) d = Some e"
    "authenticated c \<or> msg_type e \<in> UNAUTHENTICATED_SENDABLE_TYPES" "sv' = sv"
    by (rule validate_inbound_accept)
  have "sent_by E c e \<subseteq> frame_receipts E c0 raw"
    using d c0 same_standing_identity [OF c0]
    by (auto simp: sent_by_def frame_receipts_def receipt_for_def same_standing_def
        UNAUTHENTICATED_SENDABLE_TYPES_def split: if_splits)
  then show ?thesis using turn_ok_mono [OF dispatch_turn [OF ok]] d(4) by blast
qed

lemma recv_frame_turn:
  assumes ok: "manager_ok (srv_manager sv)" and c: "get_connection (srv_manager sv) cid = Some c"
  shows "turn_ok (srv_manager sv) (srv_manager (fst (recv_frame E sv cid raw now wall_now)))
    (frame_receipts E c raw)"
proof -
  let ?m = "srv_manager sv" and ?c = "touch c now"
  obtain l b where a: "allow (limiter c) now = (l, b)" by fastforce
  note ck = connection_ok [OF ok c] and tl = touch_limiter [OF connection_ok(2) [OF ok c] a]
  let ?m1 = "with_context ?m cid (\<lambda>_. ?c)"
  have c1: "get_connection ?m1 cid = Some ?c" using c by (simp add: get_connection_def with_context_get)
  have t1: "turn_ok ?m ?m1 {}" by (rule with_context_turn [OF ok c tl(3)]) (use tl in simp_all)
  let ?c2 = "?c\<lparr>limiter := l\<rparr>"
  let ?m2 = "with_context ?m1 cid (\<lambda>_. ?c2)"
  have t2: "turn_ok ?m1 ?m2 {}"
    by (rule with_context_turn [OF turn_okD(1) [OF t1] c1 tl(4)]) (use tl in simp_all)
  have t12: "turn_ok ?m ?m2 {}" using turn_ok_trans [OF t1 t2] by simp
  have add: "turn_ok ?m m' (frame_receipts E c raw)"
    if "turn_ok ?m mid {}" "turn_ok mid m' new" "\<And>j. is_receipt j \<Longrightarrow> j \<in> new \<Longrightarrow> j \<in> frame_receipts E c raw"
    for mid m' new
    using turn_ok_mono [OF turn_ok_trans [OF that(1,2)]] that(3) by blast
  have one: "turn_ok ?m (srv_manager (fst (enqueue_own sv' cid msg))) (frame_receipts E c raw)"
    if "turn_ok ?m (srv_manager sv') {}" "\<not> is_receipt msg" for sv' msg
    by (rule add [OF that(1) enqueue_own_turn]) (use that turn_okD(1) [OF that(1)] in auto)
  show ?thesis
  proof (cases "utf8_encode raw")
    case None
    then show ?thesis using turn_ok_mono [OF t1] c by (simp add: recv_frame_def Let_def)
  next
    case (Some bytes)
    show ?thesis
    proof (cases "int (length bytes) > max_message_bytes (limits ?m)")
      case True
      then show ?thesis using Some c t1
        by (simp add: recv_frame_def Let_def) (rule one, simp_all)
    next
      case fits: False
      show ?thesis
      proof (cases b)
        case False
        then show ?thesis using Some c fits a tl(6) t12
          by (simp add: recv_frame_def Let_def) (rule one, simp_all)
      next
        case True
        let ?sv2 = "sv\<lparr>srv_manager := ?m2\<rparr>"
        obtain sv3 v where v: "validate_inbound E ?sv2 ?c2 raw = (sv3, v)" by fastforce
        have m3: "srv_manager sv3 = ?m2" using validate_inbound_manager [of E ?sv2 ?c2 raw] v by simp
        have st: "same_standing c ?c2" using same_standing_trans tl(3,4) by blast
        have ok2: "manager_ok ?m2" using turn_okD(1) [OF t12] .
        have step: "recv_frame E sv cid raw now wall_now = (case v of
              Crash x \<Rightarrow> (sv3, Raised (JsonError x)) | Refuse errs \<Rightarrow> finish_frame sv3 cid errs
            | Accept e \<Rightarrow> dispatch E sv3 cid ?c2 e wall_now)"
          using Some c fits a tl(6) True v by (simp add: recv_frame_def Let_def)
        show ?thesis
        proof (cases v)
          case (Accept e)
          have "turn_ok ?m2 (srv_manager (fst (dispatch E sv3 cid ?c2 e wall_now))) (frame_receipts E c raw)"
            using accepted_turn [OF _ v [unfolded Accept] st] ok2 by simp
          then show ?thesis using turn_ok_trans [OF t12] Accept step by fastforce
        next
          case (Refuse errs)
          then have "\<forall>r \<in> set errs. \<not> is_receipt r"
            using v by (auto simp: validate_inbound_def Let_def
                split: sum.splits json_error.splits option.splits if_splits)
          then have "turn_ok ?m2 (srv_manager (fst (finish_frame sv3 cid errs))) {}"
            using finish_quietly [of sv3 errs cid] m3 ok2 by simp
          from add [OF t12 this] show ?thesis using Refuse step by simp
        next
          case (Crash x)
          then show ?thesis using turn_ok_mono [OF t12] step m3 by simp
        qed
      qed
    qed
  qed
qed

lemma recv_timeout_turn:
  assumes ok: "manager_ok (srv_manager sv)"
  shows "turn_ok (srv_manager sv) (srv_manager (fst (recv_timeout E sv cid))) {}"
proof -
  have one: "turn_ok (srv_manager sv) (srv_manager (fst (enqueue_own sv' cid msg))) {}"
    if "srv_manager sv' = srv_manager sv" "\<not> is_receipt msg" for sv' msg
    using turn_ok_mono [OF enqueue_own_turn [of sv' cid msg], of "{}"] that ok by auto
  show ?thesis using ok
    by (cases "get_connection (srv_manager sv) cid") (auto simp: recv_timeout_def intro: one)
qed

lemma bind_identity_inbox [simp]: "inbox_of (bind_identity m cid u n s) = inbox_of m"
  by (auto simp: inbox_of_def bind_identity_get fun_eq_iff split: option.splits)

lemma bind_identity_held [simp]: "held_for (bind_identity m cid u n s) = held_for m"
  by (simp add: held_for_def fun_eq_iff)

lemma drained_manager:
  assumes "manager_ok m" and "drain (offline_queue m) k = (q, es)"
  shows "manager_ok (m\<lparr>offline_queue := q\<rparr>)" and "es = held_for m k"
    and "held_for (m\<lparr>offline_queue := q\<rparr>) = (held_for m)(k := [])"
    and "inbox_of (m\<lparr>offline_queue := q\<rparr>) = inbox_of m"
proof -
  show "manager_ok (m\<lparr>offline_queue := q\<rparr>)"
    using assms drain_ok [OF _ assms(2)] drain_limits [OF assms(2)]
    by (auto simp: manager_ok_def registry_ok_def contexts_ok_def holds_identity_def bounds_ok_def)
  show "es = held_for m k" and "held_for (m\<lparr>offline_queue := q\<rparr>) = (held_for m)(k := [])"
    using drain_waiting [OF assms(2)] by (auto simp: held_for_def fun_eq_iff)
  show "inbox_of (m\<lparr>offline_queue := q\<rparr>) = inbox_of m" by (simp add: inbox_of_def fun_eq_iff)
qed

text \<open>Binding an identity moves the waiting messages of that account and nothing else.\<close>

definition bound :: "manager \<Rightarrow> ustr \<Rightarrow> exn + authenticated_identity \<Rightarrow> manager" where
  "bound m cid result = (case result of Inl _ \<Rightarrow> m
     | Inr i \<Rightarrow> bind_identity m cid (ai_user_id i) (ai_username i) (ai_session_id i))"

lemma auth_finish_effect:
  assumes ok: "manager_ok (srv_manager sv)"
  shows "manager_ok (srv_manager (fst (auth_finish E sv cid e result)))"
    and "quiet (bound (srv_manager sv) cid result) (srv_manager (fst (auth_finish E sv cid e result)))"
    and "receipt_in (srv_manager (fst (auth_finish E sv cid e result))) j \<Longrightarrow> receipt_in (srv_manager sv) j"
proof -
  let ?m = "srv_manager sv" and ?m' = "srv_manager (fst (auth_finish E sv cid e result))"
  have "manager_ok ?m' \<and> quiet (bound ?m cid result) ?m' \<and> (\<forall>j. receipt_in ?m' j \<longrightarrow> receipt_in ?m j)"
  proof (cases result)
    case (Inl x)
    show ?thesis
    proof (cases "\<exists>a. x = AuthError a")
      case True
      then obtain a where a: "x = AuthError a" by blast
      let ?sv = "emit sv ''websocket_auth_failure'' (get_connection ?m cid)
            [(''reason'', LStr (failure_reason a))]"
      have "turn_ok ?m (srv_manager (fst (finish_frame ?sv cid
          [error_message (te_pydantic E) WS_AUTH_FAILED (Some (message_id e))]))) {}"
        using finish_quietly [of ?sv] ok by simp
      then show ?thesis by (simp add: auth_finish_def Inl a bound_def turn_ok_def)
    next
      case False
      then have "auth_finish E sv cid e result = (sv, Raised (AuthException x))"
        by (cases x) (simp_all add: auth_finish_def Inl)
      then show ?thesis using ok by (simp add: bound_def Inl)
    qed
  next
    case (Inr i)
    let ?m1 = "bind_identity ?m cid (ai_user_id i) (ai_username i) (ai_session_id i)"
    obtain q es where d: "drain (offline_queue ?m1) (ai_username i) = (q, es)" by fastforce
    let ?sv2 = "(emit (sv\<lparr>srv_manager := ?m1\<rparr>) ''websocket_auth_success''
        (get_connection ?m1 cid) [])\<lparr>srv_manager := ?m1\<lparr>offline_queue := q\<rparr>\<rparr>"
    let ?ready = "dump (te_pydantic E) (AuthReady (message_id e) (ai_user_id i) (ai_username i) (ai_session_id i))"
    have m': "?m' = srv_manager (fst (finish_frame ?sv2 cid (?ready # es)))"
      using d by (simp add: auth_finish_def Inr Let_def)
    have ok1: "manager_ok ?m1" using bind_identity_ok [OF ok] .
    note dm = drained_manager [OF ok1 d]
    have t: "turn_ok (?m1\<lparr>offline_queue := q\<rparr>) ?m' (set (?ready # es))"
      unfolding m' using finish_frame_turn [of ?sv2 cid "?ready # es"] dm(1) by simp
    have "receipt_in ?m j" if "receipt_in ?m' j" for j
    proof -
      have "is_receipt j" using that by (simp add: receipt_in_def)
      moreover from t that have "receipt_in (?m1\<lparr>offline_queue := q\<rparr>) j \<or> j = ?ready \<or> j \<in> set es"
        by (auto simp: turn_ok_def)
      ultimately show ?thesis
        using dm by (auto simp: receipt_in_def split: if_splits)
    qed
    moreover have "quiet ?m1 ?m'" using quiet_trans [OF quiet_queue turn_okD(2) [OF t]] .
    ultimately show ?thesis using turn_okD(1) [OF t] by (simp add: bound_def Inr)
  qed
  then show "manager_ok ?m'" "quiet (bound ?m cid result) ?m'" "receipt_in ?m' j \<Longrightarrow> receipt_in ?m j"
    by blast+
qed

text \<open>The writer only takes messages out.\<close>

lemma task_done_quiet_frame [simp]:
  "aq_items (task_done_quiet q) = aq_items q" "aq_maxsize (task_done_quiet q) = aq_maxsize q"
  by (simp_all add: task_done_quiet_def aq_task_done_def)

lemma writer_turn_effect:
  assumes ok: "manager_ok (srv_manager sv)" and w: "writer_turn sv cid r = Some (sv', msg, st)"
  shows "turn_ok (srv_manager sv) (srv_manager sv') {}"
    and "inbox_of (srv_manager sv) cid = msg # inbox_of (srv_manager sv') cid"
    and "srv_log sv' = srv_log sv"
proof -
  let ?m = "srv_manager sv"
  from w obtain c q where c: "get_connection ?m cid = Some c" and g: "aq_get (outbound c) = Some (q, msg)"
    by (auto simp: writer_turn_def split: option.splits send_result.splits)
  from g have q: "aq_items (outbound c) = msg # aq_items q" "aq_maxsize q = aq_maxsize (outbound c)"
    by (auto simp: aq_get_def split: list.splits)
  from w c g obtain q' where sv': "sv' = sv\<lparr>srv_manager := with_context ?m cid (\<lambda>c. c\<lparr>outbound := q'\<rparr>)\<rparr>"
    and q': "aq_items q' = aq_items q" "aq_maxsize q' = aq_maxsize q"
    by (cases r) (auto simp: writer_turn_def Let_def intro: that [OF _ task_done_quiet_frame])
  have ck: "context_ok (limits ?m) c" using connection_ok [OF ok c] by simp
  then have c': "context_ok (limits ?m) (c\<lparr>outbound := q'\<rparr>)"
    using q q' by (auto simp: context_ok_def aq_ok_def)
  have "manager_ok (with_context ?m cid (\<lambda>c. c\<lparr>outbound := q'\<rparr>))"
    using c c' by (intro with_context_ok [OF ok]) (auto simp: get_connection_def routing_identity_def split: option.split)
  moreover have "quiet ?m (with_context ?m cid (\<lambda>c. c\<lparr>outbound := q'\<rparr>))"
    by (intro quiet_with_context) (simp add: same_standing_def)
  moreover have box: "inbox_of (with_context ?m cid (\<lambda>c. c\<lparr>outbound := q'\<rparr>)) x =
      (if x = cid then aq_items q else inbox_of ?m x)" for x
    using c q' by (auto simp: with_context_inbox get_connection_def)
  moreover have old: "inbox_of ?m cid = msg # aq_items q" using c q by (simp add: inbox_of_def get_connection_def)
  have sub: "set (inbox_of (with_context ?m cid (\<lambda>c. c\<lparr>outbound := q'\<rparr>)) x) \<subseteq> set (inbox_of ?m x)" for x
    using old by (auto simp: box)
  moreover have "receipt_in (with_context ?m cid (\<lambda>c. c\<lparr>outbound := q'\<rparr>)) j \<Longrightarrow> receipt_in ?m j" for j
    using sub unfolding receipt_in_def with_context_held by blast
  ultimately show "turn_ok ?m (srv_manager sv') {}"
    and "inbox_of ?m cid = msg # inbox_of (srv_manager sv') cid" and "srv_log sv' = srv_log sv"
    using old by (simp_all add: sv' turn_ok_def)
qed

section \<open>Opening and closing\<close>

lemma close_begin_effect:
  assumes ok: "manager_ok (srv_manager sv)"
  shows "manager_ok (srv_manager (close_begin sv cid))"
    and "receipt_in (srv_manager (close_begin sv cid)) j \<Longrightarrow> receipt_in (srv_manager sv) j"
    and "get_connection (srv_manager (close_begin sv cid)) x =
      (if x = cid then map_option mark_closing (get_connection (srv_manager sv) x)
       else get_connection (srv_manager sv) x)"
    and "owner_of (srv_manager (close_begin sv cid)) = owner_of (srv_manager sv)"
    and "inbox_of (srv_manager (close_begin sv cid)) = inbox_of (srv_manager sv)"
proof -
  let ?m = "srv_manager sv"
  have r: "routing_identity (mark_closing c) = routing_identity c" "connection_id (mark_closing c) = connection_id c"
    "context_ok l (mark_closing c) = context_ok l c" for l c
    by (simp_all add: mark_closing_def routing_identity_def context_ok_def split: option.split)
  show "manager_ok (srv_manager (close_begin sv cid))"
    unfolding close_begin_def using connection_ok(2) [OF ok] r
    by simp (intro with_context_ok [OF ok], auto simp: get_connection_def)
  show inbox: "inbox_of (srv_manager (close_begin sv cid)) = inbox_of ?m"
    by (auto simp: close_begin_def with_context_get inbox_of_def mark_closing_def fun_eq_iff split: option.split)
  then show "receipt_in (srv_manager (close_begin sv cid)) j \<Longrightarrow> receipt_in ?m j"
    by (simp add: receipt_in_def) (simp add: close_begin_def)
  show "get_connection (srv_manager (close_begin sv cid)) x =
      (if x = cid then map_option mark_closing (get_connection ?m x) else get_connection ?m x)"
    by (simp add: close_begin_def get_connection_def with_context_get)
  show "owner_of (srv_manager (close_begin sv cid)) = owner_of ?m"
    using r by (simp add: close_begin_def with_context_owner)
qed

lemma close_end_effect:
  assumes ok: "manager_ok (srv_manager sv)"
  shows "manager_ok (srv_manager (close_end sv cid w))"
    and "receipt_in (srv_manager (close_end sv cid w)) j \<Longrightarrow> receipt_in (srv_manager sv) j"
    and "get_connection (srv_manager (close_end sv cid w)) x =
      (if x = cid \<and> w \<noteq> WriterFailed then None else get_connection (srv_manager sv) x)"
proof -
  let ?m = "srv_manager sv"
  obtain m c where u: "unregister ?m cid = (m, c)" by fastforce
  have get: "get_connection m x = (if x = cid then None else get_connection ?m x)" for x
    using u by (auto simp: unregister_def get_connection_def Let_def split: option.splits)
  have held: "held_for m = held_for ?m"
    using u by (auto simp: unregister_def held_for_def Let_def split: option.splits)
  have m: "srv_manager (close_end sv cid w) = (if w = WriterFailed then ?m else m)"
    by (simp add: close_end_def u)
  show "manager_ok (srv_manager (close_end sv cid w))" using ok unregister_ok [OF ok u] m by simp
  have "inbox_of m x = (if x = cid then [] else inbox_of ?m x)" for x
    using get [of x] by (simp add: inbox_of_def get_connection_def)
  with held show "receipt_in (srv_manager (close_end sv cid w)) j \<Longrightarrow> receipt_in ?m j"
    by (auto simp: m receipt_in_def split: if_splits)
  show "get_connection (srv_manager (close_end sv cid w)) x =
      (if x = cid \<and> w \<noteq> WriterFailed then None else get_connection ?m x)"
    by (simp add: m get)
qed

lemma ws_connect_Inl:
  assumes "ws_connect sv origin host now wnow anon cid = (sv', Inl code)"
  shows "srv_manager sv' = srv_manager sv"
  using assms
  by (auto simp: ws_connect_def reject_upgrade_def emit_def register_def Let_def
      split: if_splits prod.splits sum.splits)

lemma ws_connect_Inr:
  assumes ok: "manager_ok (srv_manager sv)" and fresh: "get_connection (srv_manager sv) cid = None"
    and c: "ws_connect sv origin host now wnow anon cid = (sv', Inr cid')"
  shows "cid' = cid" and "is_origin_allowed (limits (srv_manager sv)) origin"
    and "manager_ok (srv_manager sv')"
    and "receipt_in (srv_manager sv') j \<longleftrightarrow> receipt_in (srv_manager sv) j"
    and "\<exists>k. get_connection (srv_manager sv') cid = Some k \<and> \<not> authenticated k \<and> \<not> closing k \<and>
          routing_identity k = lit ''anon-'' @ anon"
    and "x \<noteq> cid \<Longrightarrow> get_connection (srv_manager sv') x = get_connection (srv_manager sv) x"
    and "inbox_of (srv_manager sv') x = inbox_of (srv_manager sv) x"
    and "offline_queue (srv_manager sv') = offline_queue (srv_manager sv)"
    and "limits (srv_manager sv') = limits (srv_manager sv)"
proof -
  let ?m = "srv_manager sv"
  obtain m res where r: "register ?m (lit ''anon-'' @ anon) host now wnow cid = (m, res)" by fastforce
  show "is_origin_allowed (limits ?m) origin"
    using c by (auto simp: ws_connect_def reject_upgrade_def split: if_splits)
  then obtain k where res: "res = Inr k" and cid: "cid' = cid" and sv': "sv' = sv\<lparr>srv_manager := m\<rparr>"
    using c r by (auto simp: ws_connect_def reject_upgrade_def split: sum.splits)
  then show "cid' = cid" by simp
  show "manager_ok (srv_manager sv')" using register_ok [OF ok _ r] fresh by (simp add: get_connection_def sv')
  have k: "k = new_context (limits ?m) cid (lit ''anon-'' @ anon) wnow host now"
    and cs: "connections m = dict_set (connections ?m) cid k" and q: "offline_queue m = offline_queue ?m"
    and lm: "limits m = limits ?m"
    using r res by (auto simp: register_def Let_def split: if_splits)
  have inb: "inbox_of m x = inbox_of ?m x" for x
    using fresh by (simp add: inbox_of_def cs k get_connection_def)
  then show "receipt_in (srv_manager sv') j \<longleftrightarrow> receipt_in ?m j" "inbox_of (srv_manager sv') x = inbox_of ?m x"
    using q by (simp_all add: receipt_in_def held_for_def sv')
  show "offline_queue (srv_manager sv') = offline_queue ?m" "limits (srv_manager sv') = limits ?m"
    by (simp_all add: sv' q lm)
  show "\<exists>k. get_connection (srv_manager sv') cid = Some k \<and> \<not> authenticated k \<and> \<not> closing k \<and>
          routing_identity k = lit ''anon-'' @ anon"
    by (simp add: sv' get_connection_def cs k)
  show "get_connection (srv_manager sv') x = get_connection ?m x" if "x \<noteq> cid"
    using that by (simp add: sv' get_connection_def cs)
qed

text \<open>What runs when an upgrade has been accepted is a turn like any other.\<close>

lemma ws_accepted_turn:
  assumes "manager_ok (srv_manager sv)"
  shows "turn_ok (srv_manager sv) (srv_manager (ws_accepted E sv cid)) {}"
  using turn_ok_mono [OF enqueue_own_turn [of "emit sv ''websocket_connected'' (get_connection (srv_manager sv) cid)
        [(''active_connections'', LInt (connection_count (srv_manager sv)))]" cid
        "connection_ready (te_pydantic E) (limits (srv_manager sv)) cid"], of "{}"] assms
  by (auto simp: ws_accepted_def)

lemma ws_accepted_others:
  "x \<noteq> cid \<Longrightarrow> get_connection (srv_manager (ws_accepted E sv cid)) x = get_connection (srv_manager sv) x"
  unfolding ws_accepted_def
  by (rule enqueue_own_cases [of "emit sv ''websocket_connected'' (get_connection (srv_manager sv) cid)
        [(''active_connections'', LInt (connection_count (srv_manager sv)))]" cid
        "connection_ready (te_pydantic E) (limits (srv_manager sv)) cid"])
     (simp_all add: get_connection_def with_context_get)

end
