(* ===== verification/TransportSamples.thy ===== *)
theory TransportSamples
  imports EndpointInv
begin

text \<open>
  Concrete instances on which the transport's theorems are applied: pydantic reading dates from integers, and a
  manager with two authenticated connections and one that is not.
\<close>

definition sample_pydantic :: pydantic where
  "sample_pydantic = \<lparr>
     pyd_uuid = (\<lambda>j. Option.bind (json_str j) (uuid_of_str ascii_unicode)),
     pyd_datetime = (\<lambda>j. case j of JInt n \<Rightarrow> Some (utc n) | _ \<Rightarrow> None),
     pyd_show_datetime = (\<lambda>d. int_str (wall d)),
     pyd_dollar_newline = False,
     pyd_any_dict = (\<lambda>d. d)\<rparr>"

definition sample_transport :: transport_env where
  "sample_transport = \<lparr>te_unicode = ascii_unicode, te_pydantic = sample_pydantic, te_depth = 4\<rparr>"

definition joined :: "manager \<Rightarrow> string \<Rightarrow> manager" where
  "joined m cid = fst (register m (lit ''anon-'' @ lit cid) None 0 (utc 0) (lit cid))"

definition anonymous_trio :: manager where
  "anonymous_trio = joined (joined (joined (new_manager transport_limits_defaults) ''c1'') ''c2'') ''c3''"

definition trio :: manager where
  "trio = bind_identity (bind_identity anonymous_trio
     (lit ''c1'') (lit ''u1'') (lit ''alice'') (lit ''s1'')) (lit ''c2'') (lit ''u2'') (lit ''bob'') (lit ''s2'')"

definition trio_server :: server where
  "trio_server = \<lparr>srv_manager = trio, srv_log = []\<rparr>"

definition fresh_context :: "string \<Rightarrow> connection_context" where
  "fresh_context cid = new_context transport_limits_defaults (lit cid) (lit ''anon-'' @ lit cid) (utc 0) None 0"

lemma anon_neq [simp]: "lit ''anon-'' @ lit a = lit ''anon-'' @ lit b \<longleftrightarrow> a = b"
  by (simp add: lit_eq_iff)

lemma joined_simps [simp]:
  assumes "limits m = transport_limits_defaults" and "length (connections m) < 500"
    and "dict_get (by_client m) (lit ''anon-'' @ lit cid) = None"
    and "dict_get (connections m) (lit cid) = None"
  shows "connections (joined m cid) = connections m @ [(lit cid, fresh_context cid)]"
    and "by_client (joined m cid) = by_client m @ [(lit ''anon-'' @ lit cid, [lit cid])]"
    and "limits (joined m cid) = transport_limits_defaults"
    and "offline_queue (joined m cid) = offline_queue m"
  using assms
  by (simp_all add: joined_def register_def transport_limits_defaults_def Let_def index_add_def
      set_add_def fresh_context_def dict_set_absent new_context_def)

lemma anon_fresh [simp]: "lit ''anon-'' @ lit a \<noteq> lit ''alice''" "lit ''anon-'' @ lit a \<noteq> lit ''bob''"
proof -
  have "hd (tl (tl (lit ''anon-'' @ lit a))) = hd (tl (tl (lit ''anon-'')))" for a
    by (simp add: lit_def)
  moreover have "hd (tl (tl (lit ''anon-''))) \<noteq> hd (tl (tl (lit ''alice'')))"
    "hd (tl (tl (lit ''anon-''))) \<noteq> hd (tl (tl (lit ''bob'')))"
    by (simp_all add: lit_def)
  ultimately show "lit ''anon-'' @ lit a \<noteq> lit ''alice''" "lit ''anon-'' @ lit a \<noteq> lit ''bob''"
    by metis+
qed

lemma fresh_context_simps [simp]:
  "routing_identity (fresh_context cid) = lit ''anon-'' @ lit cid"
  "connection_id (fresh_context cid) = lit cid"
  "\<not> authenticated (fresh_context cid)" "\<not> closing (fresh_context cid)"
  "aq_items (outbound (fresh_context cid)) = []"
  "aq_maxsize (outbound (fresh_context cid)) = 100"
  "limiter (fresh_context cid) = new_limiter 30 (Fin 1)"
  by (simp_all add: fresh_context_def new_context_def aq_new_def transport_limits_defaults_def
      routing_identity_def)

definition alice_context :: connection_context where
  "alice_context = authenticate (fresh_context ''c1'') (lit ''u1'') (lit ''alice'') (lit ''s1'')"

definition bob_context :: connection_context where
  "bob_context = authenticate (fresh_context ''c2'') (lit ''u2'') (lit ''bob'') (lit ''s2'')"

lemma default_bounds [simp]:
  "max_queued_per_recipient transport_limits_defaults = 50"
  "max_queued_recipients transport_limits_defaults = 500"
  "max_message_bytes transport_limits_defaults = 65536"
  "max_pending_outbound transport_limits_defaults = 100"
  by (simp_all add: transport_limits_defaults_def)

lemma base_simps [simp]:
  "connections (new_manager l) = []" "by_client (new_manager l) = []" "limits (new_manager l) = l"
  "offline_queue (new_manager l) = new_queue (max_queued_per_recipient l) (max_queued_recipients l)"
  by (simp_all add: new_manager_def)

lemma anonymous_trio_simps:
  "connections anonymous_trio = [(lit ''c1'', fresh_context ''c1''), (lit ''c2'', fresh_context ''c2''),
     (lit ''c3'', fresh_context ''c3'')]"
  "by_client anonymous_trio = [(lit ''anon-'' @ lit ''c1'', [lit ''c1'']), (lit ''anon-'' @ lit ''c2'', [lit ''c2'']),
     (lit ''anon-'' @ lit ''c3'', [lit ''c3''])]"
  "limits anonymous_trio = transport_limits_defaults" "offline_queue anonymous_trio = new_queue 50 500"
  by (simp_all add: anonymous_trio_def)

lemma trio_simps [simp]:
  "connections trio = [(lit ''c1'', alice_context), (lit ''c2'', bob_context), (lit ''c3'', fresh_context ''c3'')]"
  "by_client trio = [(lit ''anon-'' @ lit ''c3'', [lit ''c3'']), (lit ''alice'', [lit ''c1'']), (lit ''bob'', [lit ''c2''])]"
  "limits trio = transport_limits_defaults" "offline_queue trio = new_queue 50 500"
  by (simp_all add: trio_def bind_identity_def anonymous_trio_simps index_discard_def index_add_def
      set_discard_def set_add_def alice_context_def bob_context_def
      anon_fresh [THEN not_sym])

lemma joined_ok:
  assumes "manager_ok m" and "dict_get (connections m) (lit cid) = None"
  shows "manager_ok (joined m cid)"
  using register_ok [OF assms] by (metis joined_def prod.collapse)

lemma trio_ok [simp]: "manager_ok trio"
proof -
  have "manager_ok anonymous_trio" unfolding anonymous_trio_def
    by (intro joined_ok manager_ok_new) simp_all
  then show ?thesis unfolding trio_def by (intro bind_identity_ok)
qed

lemma trio_owner [simp]:
  "owner_of trio (lit ''c1'') = Some (lit ''alice'')" "owner_of trio (lit ''c2'') = Some (lit ''bob'')"
  "owner_of trio (lit ''c3'') = Some (lit ''anon-'' @ lit ''c3'')"
  by (simp_all add: owner_of_def alice_context_def bob_context_def)

lemma trio_server_sel [simp]: "srv_manager trio_server = trio" "srv_log trio_server = []"
  by (simp_all add: trio_server_def)

lemma sample_transport_sel [simp]:
  "te_pydantic sample_transport = sample_pydantic" "te_unicode sample_transport = ascii_unicode"
  "te_depth sample_transport = 4"
  by (simp_all add: sample_transport_def)

lemma peer_sel [simp]:
  "routing_identity alice_context = lit ''alice''" "authenticated alice_context"
  "routing_identity bob_context = lit ''bob''" "authenticated bob_context"
  "\<not> closing alice_context" "\<not> closing bob_context"
  "outbound alice_context = aq_new 100" "outbound bob_context = aq_new 100"
  by (simp_all add: alice_context_def bob_context_def fresh_context_def new_context_def)

text \<open>A message between two accounts.\<close>

definition sample_envelope :: "string \<Rightarrow> string \<Rightarrow> envelope" where
  "sample_envelope from_id to_id = \<lparr>message_id = 7, msg_type = MESSAGE_SEND, sender = lit from_id,
     recipient = Some (lit to_id), timestamp = utc 1, payload = []\<rparr>"

lemma sample_envelope_sel [simp]:
  "message_id (sample_envelope a b) = 7" "msg_type (sample_envelope a b) = MESSAGE_SEND"
  "sender (sample_envelope a b) = lit a" "recipient (sample_envelope a b) = Some (lit b)"
  by (simp_all add: sample_envelope_def)

end
