(* ===== verification/WireSamples.thy ===== *)
theory WireSamples
  imports TransportSamples
begin

text \<open>
  Two real frames, as text, and what the JSON scanner and the envelope validation make of
  them: an authentication and a message from \<open>alice\<close> to \<open>bob\<close>.
\<close>

section \<open>Two frames\<close>

definition auth_frame :: ustr where
  "auth_frame = lit ''{\"version\":\"1\",\"message_id\":\"00000000-0000-0000-0000-000000000007\",\"type\":\"auth.authenticate\",\"sender\":\"a\",\"timestamp\":0,\"payload\":{\"access_token\":\"T\"}}''"

definition send_frame :: ustr where
  "send_frame = lit ''{\"version\":\"1\",\"message_id\":\"00000000-0000-0000-0000-000000000008\",\"type\":\"message.send\",\"sender\":\"alice\",\"recipient\":\"bob\",\"timestamp\":0,\"payload\":{}}''"

definition auth_fields :: "(ustr, json) dict" where
  "auth_fields = [(lit ''version'', JStr (lit ''1'')),
     (lit ''message_id'', JStr (lit ''00000000-0000-0000-0000-000000000007'')),
     (lit ''type'', JStr (lit ''auth.authenticate'')), (lit ''sender'', JStr (lit ''a'')),
     (lit ''timestamp'', JInt 0), (lit ''payload'', JObj [(lit ''access_token'', JStr (lit ''T''))])]"

definition send_fields :: "(ustr, json) dict" where
  "send_fields = [(lit ''version'', JStr (lit ''1'')),
     (lit ''message_id'', JStr (lit ''00000000-0000-0000-0000-000000000008'')),
     (lit ''type'', JStr (lit ''message.send'')), (lit ''sender'', JStr (lit ''alice'')),
     (lit ''recipient'', JStr (lit ''bob'')), (lit ''timestamp'', JInt 0), (lit ''payload'', JObj [])]"

definition auth_envelope :: envelope where
  "auth_envelope = \<lparr>message_id = 7, msg_type = AUTH_AUTHENTICATE, sender = lit ''a'', recipient = None,
     timestamp = utc 0, payload = [(lit ''access_token'', JStr (lit ''T''))]\<rparr>"

definition send_envelope :: envelope where
  "send_envelope = \<lparr>message_id = 8, msg_type = MESSAGE_SEND, sender = lit ''alice'',
     recipient = Some (lit ''bob''), timestamp = utc 0, payload = []\<rparr>"

lemmas number_eval = digit_list_def scan_number_def int_part_def frac_part_def exp_part_def
  is_digit_def digits_value_def max_str_digits_def

lemma frames_parse:
  "json_loads 4 auth_frame = Inr (JObj auth_fields)" "json_loads 4 send_frame = Inr (JObj send_fields)"
  unfolding auth_frame_def send_frame_def auth_fields_def send_fields_def
  by (simp_all add: json_eval number_eval)

lemma frames_encode: "utf8_encode auth_frame = Some auth_frame" "utf8_encode send_frame = Some send_frame"
  unfolding auth_frame_def send_frame_def by code_simp+

lemma frames_length: "length auth_frame \<le> 200" "length send_frame \<le> 200"
  unfolding auth_frame_def send_frame_def by simp_all

lemma sample_uuids:
  "uuid_of_str ascii_unicode (lit ''00000000-0000-0000-0000-000000000007'') = Some 7"
  "uuid_of_str ascii_unicode (lit ''00000000-0000-0000-0000-000000000008'') = Some 8"
  by code_simp+

lemma sample_identifiers:
  "transport_identifier sample_pydantic (lit ''a'')" "transport_identifier sample_pydantic (lit ''alice'')"
  "transport_identifier sample_pydantic (lit ''bob'')"
  by code_simp+

lemma sample_types:
  "message_type_of (lit ''auth.authenticate'') = Some AUTH_AUTHENTICATE"
  "message_type_of (lit ''message.send'') = Some MESSAGE_SEND"
  by code_simp+

lemma sample_pydantic_sel:
  "pyd_uuid sample_pydantic (JStr s) = uuid_of_str ascii_unicode s"
  "pyd_datetime sample_pydantic (JInt n) = Some (utc n)"
  by (simp_all add: sample_pydantic_def)

lemma frames_validate:
  "validate_envelope sample_pydantic auth_fields = Some auth_envelope"
  "validate_envelope sample_pydantic send_fields = Some send_envelope"
  by (simp_all add: validate_envelope_def auth_fields_def send_fields_def envelope_fields_def
      PROTOCOL_VERSION_def sample_pydantic_sel sample_uuids sample_types identifier_field_def
      recipient_field_def payload_field_def require_timezone_def utc_def auth_envelope_def
      send_envelope_def sample_identifiers)

lemma frames_accepted:
  "validate_inbound sample_transport sv c auth_frame = (sv, Accept auth_envelope)"
  "authenticated c \<Longrightarrow> validate_inbound sample_transport sv c send_frame = (sv, Accept send_envelope)"
  using frames_validate
  by (simp_all add: validate_inbound_def frames_parse Let_def)
     (simp_all add: auth_fields_def send_fields_def PROTOCOL_VERSION_def sample_types
        CLIENT_SENDABLE_TYPES_def UNAUTHENTICATED_SENDABLE_TYPES_def)

end
