(* ===== verification/TransportProps.thy ===== *)
theory TransportProps
  imports WireSamples
begin

text \<open>
  What the transport promises, turn by turn: where a message goes and what its sender is
  told, what an unauthenticated peer can do, which frames are accepted, and what happens to
  the messages that waited for an account.
\<close>

section \<open>Sending\<close>




section \<open>What an unauthenticated peer can do\<close>

text \<open>\<open>own_only\<close>: nothing but the handler's own connection differs.\<close>

definition own_only :: "manager \<Rightarrow> manager \<Rightarrow> ustr \<Rightarrow> bool" where
  "own_only m m' cid \<longleftrightarrow> limits m' = limits m \<and> by_client m' = by_client m \<and>
     offline_queue m' = offline_queue m \<and> (\<forall>x. x \<noteq> cid \<longrightarrow> get_connection m' x = get_connection m x)"

lemma own_only_refl [simp]: "own_only m m cid"
  by (simp add: own_only_def)

lemma own_only_trans: "own_only a b cid \<Longrightarrow> own_only b c cid \<Longrightarrow> own_only a c cid"
  by (simp add: own_only_def)

lemma own_only_with_context: "own_only m (with_context m cid f) cid"
  by (simp add: own_only_def get_connection_def with_context_get)

lemma own_only_enqueue: "own_only (srv_manager sv) (srv_manager (fst (enqueue_own sv cid msg))) cid"
  by (cases rule: enqueue_own_cases [of sv cid msg]) (simp_all add: own_only_with_context)

lemma own_only_responses: "own_only (srv_manager sv) (srv_manager (fst (enqueue_responses sv cid rs))) cid"
proof (induction rs arbitrary: sv)
  case (Cons r rs)
  obtain sv1 ok where e: "enqueue_own sv cid r = (sv1, ok)" by fastforce
  with own_only_enqueue [of sv cid r] have "own_only (srv_manager sv) (srv_manager sv1) cid" by simp
  with own_only_trans [OF this Cons.IH [of sv1]] e show ?case by (cases ok) auto
qed simp

lemma own_only_finish: "own_only (srv_manager sv) (srv_manager (fst (finish_frame sv cid rs))) cid"
  by (simp add: finish_frame_manager own_only_responses)

lemma dispatch_unprivileged:
  assumes "msg_type e \<in> UNAUTHENTICATED_SENDABLE_TYPES"
  shows "own_only (srv_manager sv) (srv_manager (fst (dispatch E sv cid c e wnow))) cid"
proof (cases "msg_type e = AUTH_AUTHENTICATE")
  case True
  obtain sv' r where b: "auth_begin E sv c e = (sv', r)" by fastforce
  with auth_begin_manager [of E sv c e] own_only_finish [of sv' cid] True show ?thesis
    by (cases r) (simp_all add: dispatch_def)
next
  case False
  with assms own_only_finish show ?thesis by (simp add: dispatch_def UNAUTHENTICATED_SENDABLE_TYPES_def)
qed

text \<open>The ways a frame is served.\<close>

lemma recv_frame_cases [consumes 2, case_names unencodable own crash refused accepted]:
  assumes c: "get_connection (srv_manager sv) cid = Some c"
    and r: "recv_frame E sv cid raw now wnow = (sv', t)"
  obtains (unencodable) "utf8_encode raw = None" "t = Raised EncodeError"
      "own_only (srv_manager sv) (srv_manager sv') cid"
  | (own) "t = Served" "own_only (srv_manager sv) (srv_manager sv') cid"
  | (crash) x where "json_loads (te_depth E) raw = Inl x" "t = Raised (JsonError x)"
      "own_only (srv_manager sv) (srv_manager sv') cid"
  | (refused) sv3 errs where "(sv', t) = finish_frame sv3 cid errs"
      "own_only (srv_manager sv) (srv_manager sv3) cid"
  | (accepted) sv3 c2 e where "(sv', t) = dispatch E sv3 cid c2 e wnow" "same_standing c c2"
      "validate_inbound E sv3 c2 raw = (sv3, Accept e)"
      "own_only (srv_manager sv) (srv_manager sv3) cid"
proof -
  let ?m = "srv_manager sv" and ?c = "touch c now"
  obtain l b where a: "allow (limiter c) now = (l, b)" by fastforce
  let ?sv1 = "sv\<lparr>srv_manager := with_context ?m cid (\<lambda>_. ?c)\<rparr>" and ?c2 = "?c\<lparr>limiter := l\<rparr>"
  let ?sv2 = "?sv1\<lparr>srv_manager := with_context (srv_manager ?sv1) cid (\<lambda>_. ?c2)\<rparr>"
  have o1: "own_only ?m (srv_manager ?sv1) cid" by (simp add: own_only_with_context)
  have o2: "own_only ?m (srv_manager ?sv2) cid"
    using own_only_trans [OF o1 own_only_with_context] by simp
  have lim: "limiter ?c = limiter c" by (simp add: touch_def)
  have own': "own_only ?m (srv_manager (fst (enqueue_own sv0 cid msg))) cid"
    if "own_only ?m (srv_manager sv0) cid" for sv0 msg
    using own_only_trans [OF that own_only_enqueue] .
  show thesis
  proof (cases "utf8_encode raw")
    case None
    with r c o1 show thesis by (intro unencodable) (auto simp: recv_frame_def Let_def)
  next
    case (Some bytes)
    consider (big) "int (length bytes) > max_message_bytes (limits ?m)"
      | (limited) "\<not> int (length bytes) > max_message_bytes (limits ?m)" "\<not> b"
      | (fine) "\<not> int (length bytes) > max_message_bytes (limits ?m)" "b" by blast
    then show thesis
    proof cases
      case big
      with r c Some o1 show thesis
        by (intro own) (auto simp: recv_frame_def Let_def intro: own')
    next
      case limited
      with r c Some o2 a lim show thesis
        by (intro own) (auto simp: recv_frame_def Let_def intro: own')
    next
      case fine
      obtain sv3 v where v: "validate_inbound E ?sv2 ?c2 raw = (sv3, v)" by fastforce
      have "srv_manager sv3 = srv_manager ?sv2"
        using validate_inbound_manager [of E ?sv2 ?c2 raw] unfolding v by simp
      then have m3: "own_only ?m (srv_manager sv3) cid" using o2 by (simp only:)
      have step: "(sv', t) = (case v of Crash x \<Rightarrow> (sv3, Raised (JsonError x))
          | Refuse errs \<Rightarrow> finish_frame sv3 cid errs | Accept e \<Rightarrow> dispatch E sv3 cid ?c2 e wnow)"
        using r c Some a lim fine v by (simp add: recv_frame_def Let_def)
      show thesis
      proof (cases v)
        case (Accept e)
        from v [unfolded Accept] have "sv3 = ?sv2" by (rule validate_inbound_accept)
        moreover have "same_standing c ?c2" by (simp add: same_standing_def touch_def)
        ultimately show thesis using accepted [of sv3 ?c2 e] step Accept v m3 by simp
      next
        case (Refuse errs)
        then show thesis using refused [of sv3 errs] step m3 by simp
      next
        case (Crash x)
        with v have "json_loads (te_depth E) raw = Inl x"
          by (auto simp: validate_inbound_def Let_def split: sum.splits json_error.splits option.splits if_splits)
        then show thesis using crash [of x] step Crash m3 by simp
      qed
    qed
  qed
qed

text \<open>
  C8: until it has authenticated, a peer's frames change nothing but its own connection:
  no other connection, no mailbox, not the index; and they leave it unauthenticated, under
  the throwaway identity it was given.
\<close>

theorem unauthenticated_confined:
  assumes ok: "manager_ok (srv_manager sv)"
    and c: "get_connection (srv_manager sv) cid = Some c" "\<not> authenticated c"
    and r: "recv_frame E sv cid raw now wnow = (sv', t)"
  shows "own_only (srv_manager sv) (srv_manager sv') cid \<and>
    (\<exists>c'. get_connection (srv_manager sv') cid = Some c' \<and> \<not> authenticated c' \<and>
       routing_identity c' = routing_identity c)"
proof
  show "own_only (srv_manager sv) (srv_manager sv') cid"
    using c(1) r
  proof (cases rule: recv_frame_cases)
    case (refused sv3 errs)
    with own_only_trans [OF refused(2) own_only_finish [of sv3 cid errs]] show ?thesis
      by (metis fst_conv)
  next
    case (accepted sv3 c2 e)
    from accepted(2) c(2) have "\<not> authenticated c2" by (simp add: same_standing_def)
    with accepted(3) have "msg_type e \<in> UNAUTHENTICATED_SENDABLE_TYPES"
      by (auto elim: validate_inbound_accept)
    from own_only_trans [OF accepted(4) dispatch_unprivileged [OF this, of sv3 E cid c2 wnow]] accepted(1)
    show ?thesis by (metis fst_conv)
  qed auto
  have "quiet (srv_manager sv) (srv_manager sv')"
    using turn_okD(2) [OF recv_frame_turn [OF ok c(1), where E = E and raw = raw and now = now and wall_now = wnow]]
    by (simp add: r)
  then show "\<exists>c'. get_connection (srv_manager sv') cid = Some c' \<and> \<not> authenticated c' \<and>
       routing_identity c' = routing_identity c"
  proof (cases rule: quiet_get [of _ _ cid])
    case (2 d c')
    then have "d = c" using c(1) by simp
    then have "\<not> authenticated c'" "routing_identity c' = routing_identity c"
      using 2(3) c(2) same_standing_identity [OF 2(3)] by (simp_all add: same_standing_def)
    with 2(2) show ?thesis by blast
  qed (use c(1) in simp)
qed

theorem unauthenticated_confined_witness:
  "own_only trio (srv_manager (fst (recv_frame sample_transport trio_server (lit ''c3'') (lit ''hello'') 1 (utc 1))))
     (lit ''c3'')"
proof -
  obtain sv' t where r: "recv_frame sample_transport trio_server (lit ''c3'') (lit ''hello'') 1 (utc 1) = (sv', t)"
    by fastforce
  have c: "get_connection (srv_manager trio_server) (lit ''c3'') = Some (fresh_context ''c3'')"
    by (simp add: get_connection_def)
  from unauthenticated_confined [OF _ c _ r] show ?thesis by (simp add: r)
qed

section \<open>Which frames are accepted\<close>

lemma inbound_accepted_iff:
  "snd (validate_inbound E sv c raw) = Accept e \<longleftrightarrow>
    (\<exists>d. json_loads (te_depth E) raw = Inr (JObj d) \<and> validate_envelope (te_pydantic E) d = Some e \<and>
       msg_type e \<in> CLIENT_SENDABLE_TYPES \<and>
       (authenticated c \<or> msg_type e \<in> UNAUTHENTICATED_SENDABLE_TYPES))" (is "?l \<longleftrightarrow> ?r")
proof
  assume ?l
  then obtain sv' where "validate_inbound E sv c raw = (sv', Accept e)" by (metis prod.collapse)
  then show ?r by (rule validate_inbound_accept) blast
next
  assume ?r
  then obtain d where d: "json_loads (te_depth E) raw = Inr (JObj d)"
    "validate_envelope (te_pydantic E) d = Some e" "msg_type e \<in> CLIENT_SENDABLE_TYPES"
    "authenticated c \<or> msg_type e \<in> UNAUTHENTICATED_SENDABLE_TYPES" by blast
  with validate_envelope_sound(2,4) [OF d(2)] show ?l by (auto simp: validate_inbound_def)
qed

text \<open>
  The checks a JSON object goes through, in the order in which they count, with the code of the
  error that is owed when the check is the first to fail.
\<close>

definition claimed_type :: "(ustr, json) dict \<Rightarrow> message_type option" where
  "claimed_type d = Option.bind (Option.bind (dict_get d (lit ''type'')) json_str) message_type_of"

definition inbound_checks :: "pydantic \<Rightarrow> bool \<Rightarrow> (ustr, json) dict \<Rightarrow> (bool \<times> protocol_error_code) list" where
  "inbound_checks P authed d =
     [(dict_get d (lit ''version'') = Some (JStr PROTOCOL_VERSION), WS_UNSUPPORTED_PROTOCOL_VERSION),
      (claimed_type d \<in> Some ` CLIENT_SENDABLE_TYPES, WS_UNKNOWN_MESSAGE_TYPE),
      (authed \<or> claimed_type d \<in> Some ` UNAUTHENTICATED_SENDABLE_TYPES, WS_AUTH_REQUIRED),
      (validate_envelope P d \<noteq> None, WS_SCHEMA_VALIDATION_FAILED)]"

definition first_failure :: "(bool \<times> 'a) list \<Rightarrow> 'a option" where
  "first_failure cs = map_option snd (find (\<lambda>(holds, _). \<not> holds) cs)"

lemma first_failure_simps [simp]:
  "first_failure [] = None" "first_failure ((b, x) # cs) = (if b then first_failure cs else Some x)"
  by (simp_all add: first_failure_def)

lemma object_verdict:
  assumes "json_loads (te_depth E) raw = Inr (JObj d)"
  shows "snd (validate_inbound E sv c raw) =
    (case first_failure (inbound_checks (te_pydantic E) (authenticated c) d) of
       Some code \<Rightarrow> Refuse [error_message (te_pydantic E) code (extract_message_id (te_unicode E) (JObj d))]
     | None \<Rightarrow> Accept (the (validate_envelope (te_pydantic E) d)))"
proof (cases "claimed_type d")
  case None
  then show ?thesis using assms by (auto simp: validate_inbound_def inbound_checks_def Let_def claimed_type_def)
next
  case (Some t)
  then show ?thesis using assms
    by (cases "t \<in> CLIENT_SENDABLE_TYPES"; cases "validate_envelope (te_pydantic E) d")
       (auto simp: validate_inbound_def inbound_checks_def Let_def claimed_type_def image_iff)
qed

text \<open>
  C16: what becomes of a frame. It is accepted exactly when it is a JSON object that validates as
  an envelope with a type a client may send, and the connection is authenticated or the type is one
  of the two that need no authentication. An object that is refused gets one error, under its own
  message id, with the code of the first check it fails in the order version, type,
  authentication, schema; text that is not JSON and JSON that is no object get one error of their
  own code without an id. The frame ends the handler instead when the parser raises something
  other than a decode error. Hence an unauthenticated peer cannot probe the schema: of a frame
  that needs authentication the answer depends on version, type and message id alone.
\<close>

theorem inbound_exactly:
  shows "(snd (validate_inbound E sv c raw) = Accept e \<longleftrightarrow>
      (\<exists>d. json_loads (te_depth E) raw = Inr (JObj d) \<and> validate_envelope (te_pydantic E) d = Some e \<and>
         msg_type e \<in> CLIENT_SENDABLE_TYPES \<and>
         (authenticated c \<or> msg_type e \<in> UNAUTHENTICATED_SENDABLE_TYPES))) \<and>
    (snd (validate_inbound E sv c raw) = Refuse errs \<longleftrightarrow>
      (case json_loads (te_depth E) raw of
         Inl x \<Rightarrow> x = JSONDecodeError \<and> errs = [error_message (te_pydantic E) WS_INVALID_JSON None]
       | Inr (JObj d) \<Rightarrow> (\<exists>code. first_failure (inbound_checks (te_pydantic E) (authenticated c) d) = Some code \<and>
           errs = [error_message (te_pydantic E) code (extract_message_id (te_unicode E) (JObj d))])
       | Inr _ \<Rightarrow> errs = [error_message (te_pydantic E) WS_SCHEMA_VALIDATION_FAILED None])) \<and>
    (snd (validate_inbound E sv c raw) = Crash x \<longleftrightarrow>
      json_loads (te_depth E) raw = Inl x \<and> x \<noteq> JSONDecodeError) \<and>
    (\<not> authenticated c \<longrightarrow> json_loads (te_depth E) raw = Inr (JObj d1) \<longrightarrow> json_loads (te_depth E) raw' = Inr (JObj d2) \<longrightarrow>
      (\<forall>k \<in> {''version'', ''type'', ''message_id''}. dict_get d1 (lit k) = dict_get d2 (lit k)) \<longrightarrow>
      claimed_type d1 \<notin> Some ` UNAUTHENTICATED_SENDABLE_TYPES \<longrightarrow>
      snd (validate_inbound E sv c raw) = snd (validate_inbound E sv c raw'))"
proof (intro conjI)
  show "snd (validate_inbound E sv c raw) = Accept e \<longleftrightarrow>
      (\<exists>d. json_loads (te_depth E) raw = Inr (JObj d) \<and> validate_envelope (te_pydantic E) d = Some e \<and>
         msg_type e \<in> CLIENT_SENDABLE_TYPES \<and>
         (authenticated c \<or> msg_type e \<in> UNAUTHENTICATED_SENDABLE_TYPES))"
    by (rule inbound_accepted_iff)
  show "snd (validate_inbound E sv c raw) = Crash x \<longleftrightarrow>
      json_loads (te_depth E) raw = Inl x \<and> x \<noteq> JSONDecodeError"
    by (auto simp: validate_inbound_def Let_def split: sum.splits json_error.splits option.splits if_splits)
  show "snd (validate_inbound E sv c raw) = Refuse errs \<longleftrightarrow>
      (case json_loads (te_depth E) raw of
         Inl x \<Rightarrow> x = JSONDecodeError \<and> errs = [error_message (te_pydantic E) WS_INVALID_JSON None]
       | Inr (JObj d) \<Rightarrow> (\<exists>code. first_failure (inbound_checks (te_pydantic E) (authenticated c) d) = Some code \<and>
           errs = [error_message (te_pydantic E) code (extract_message_id (te_unicode E) (JObj d))])
       | Inr _ \<Rightarrow> errs = [error_message (te_pydantic E) WS_SCHEMA_VALIDATION_FAILED None])"
  proof (cases "\<exists>d. json_loads (te_depth E) raw = Inr (JObj d)")
    case True
    then obtain d where "json_loads (te_depth E) raw = Inr (JObj d)" by blast
    from object_verdict [OF this, of sv c] this show ?thesis by (auto split: option.splits)
  next
    case False
    then show ?thesis by (auto simp: validate_inbound_def Let_def split: sum.splits json_error.splits json.splits)
  qed
  show "\<not> authenticated c \<longrightarrow> json_loads (te_depth E) raw = Inr (JObj d1) \<longrightarrow> json_loads (te_depth E) raw' = Inr (JObj d2) \<longrightarrow>
      (\<forall>k \<in> {''version'', ''type'', ''message_id''}. dict_get d1 (lit k) = dict_get d2 (lit k)) \<longrightarrow>
      claimed_type d1 \<notin> Some ` UNAUTHENTICATED_SENDABLE_TYPES \<longrightarrow>
      snd (validate_inbound E sv c raw) = snd (validate_inbound E sv c raw')"
    using object_verdict [of E raw d1 sv c] object_verdict [of E raw' d2 sv c]
    by (simp add: inbound_checks_def claimed_type_def extract_message_id_def)
qed

theorem inbound_exactly_witness:
  "\<not> (\<exists>e. snd (validate_inbound sample_transport trio_server (fresh_context ''c3'') (lit ''[]'')) = Accept e) \<and>
   snd (validate_inbound sample_transport trio_server (fresh_context ''c3'') (lit ''[]'')) =
     Refuse [error_message sample_pydantic WS_SCHEMA_VALIDATION_FAILED None] \<and>
   snd (validate_inbound sample_transport trio_server (fresh_context ''c3'') (lit ''{}'')) =
     Refuse [error_message sample_pydantic WS_UNSUPPORTED_PROTOCOL_VERSION None]"
proof -
  have j: "json_loads 4 (lit ''[]'') = Inr (JArr [])" "json_loads 4 (lit ''{}'') = Inr (JObj [])" by (simp_all add: json_eval)
  have "extract_message_id ascii_unicode (JObj []) = None" by (simp add: extract_message_id_def)
  then show ?thesis
    using inbound_exactly [of sample_transport trio_server "fresh_context ''c3''" "lit ''[]''" _
        "[error_message sample_pydantic WS_SCHEMA_VALIDATION_FAILED None]" JSONDecodeError "[]" "lit ''{}''" "[]"]
      inbound_exactly [of sample_transport trio_server "fresh_context ''c3''" "lit ''{}''" undefined
        "[error_message sample_pydantic WS_UNSUPPORTED_PROTOCOL_VERSION None]" JSONDecodeError "[]" "lit ''{}''" "[]"]
    by (auto simp: j inbound_checks_def sample_transport_def)
qed

section \<open>Messages that waited\<close>

lemma enqueue_own_accepts:
  "snd (enqueue_own sv cid msg) \<longleftrightarrow> (\<exists>c. get_connection (srv_manager sv) cid = Some c \<and> \<not> closing c \<and>
     (aq_maxsize (outbound c) \<le> 0 \<or> int (length (aq_items (outbound c))) < aq_maxsize (outbound c)))"
proof (cases rule: enqueue_own_cases [of sv cid msg])
  case (present c c' b)
  with enqueue_outbound_accepts_iff [of c msg] show ?thesis by simp
qed simp

text \<open>The free places of a connection's outbound queue.\<close>

definition room :: "connection_context \<Rightarrow> nat" where
  "room c = nat (aq_maxsize (outbound c)) - length (aq_items (outbound c))"

lemma enqueue_responses_take:
  assumes "get_connection (srv_manager sv) cid = Some c" and "\<not> closing c"
    and "0 < aq_maxsize (outbound c)"
  shows "inbox_of (srv_manager (fst (enqueue_responses sv cid rs))) cid =
      inbox_of (srv_manager sv) cid @ take (room c) rs \<and>
    (snd (enqueue_responses sv cid rs) \<longleftrightarrow> length rs \<le> room c)"
  using assms
proof (induction rs arbitrary: sv c)
  case (Cons r rs)
  have acc: "snd (enqueue_own sv cid r) \<longleftrightarrow> 0 < room c"
    using Cons.prems by (auto simp: enqueue_own_accepts room_def)
  show ?case
  proof (cases rule: enqueue_own_cases [of sv cid r])
    case (present d c' b)
    then have d: "d = c" using Cons.prems(1) by simp
    show ?thesis
    proof (cases b)
      case False
      with acc present(3) enqueue_own_inbox [of sv cid r cid] show ?thesis by simp
    next
      case True
      let ?sv = "fst (enqueue_own sv cid r)"
      have g: "get_connection (srv_manager ?sv) cid = Some c'"
        using present Cons.prems(1) by (simp add: get_connection_def with_context_get)
      have f: "closing c' = closing c" "aq_maxsize (outbound c') = aq_maxsize (outbound c)"
        "aq_items (outbound c') = aq_items (outbound c) @ [r]"
        using enqueue_outbound_frame(8,11) [OF present(2)] enqueue_outbound_items [OF present(2)] True d by auto
      have pos: "0 < room c" using acc present(3) True by simp
      then have rm: "room c = Suc (room c')" using f by (simp add: room_def)
      have "enqueue_responses sv cid (r # rs) = enqueue_responses ?sv cid rs"
        using present(3) True by simp
      with Cons.IH [OF g] f Cons.prems rm enqueue_own_inbox [of sv cid r cid] present(3) True
      show ?thesis by simp
    qed
  qed (use Cons.prems in simp)
qed simp

lemma enqueue_responses_held:
  "held_for (srv_manager (fst (enqueue_responses sv cid rs))) = held_for (srv_manager sv)"
proof (induction rs arbitrary: sv)
  case (Cons r rs)
  obtain sv1 ok where e: "enqueue_own sv cid r = (sv1, ok)" by fastforce
  with enqueue_own_frame(1) [of sv cid r] have "held_for (srv_manager sv1) = held_for (srv_manager sv)" by simp
  with Cons.IH [of sv1] e show ?case by (cases ok) simp_all
qed simp

text \<open>
  C19: on authentication the messages that waited for the account are handed to the
  connection, oldest first, behind the confirmation. They all arrive exactly when the
  outbound queue has room for them; otherwise the connection gets the first ones, is closed
  with 1008, and the rest is lost: the mailbox is empty in both cases.
\<close>

theorem waiting_messages_delivered:
  assumes ok: "manager_ok (srv_manager sv)"
    and c: "get_connection (srv_manager sv) cid = Some c" "\<not> closing c"
    and bounded: "0 < max_pending_outbound (limits (srv_manager sv))"
    and r: "auth_finish E sv cid e (Inr i) = (sv', t)"
  shows "inbox_of (srv_manager sv') cid = inbox_of (srv_manager sv) cid @
      take (room c) (dump (te_pydantic E) (AuthReady (message_id e) (ai_user_id i) (ai_username i) (ai_session_id i))
        # held_for (srv_manager sv) (ai_username i)) \<and>
    t = (if length (held_for (srv_manager sv) (ai_username i)) < room c then Served
         else CloseWith CLOSE_POLICY_VIOLATION) \<and>
    held_for (srv_manager sv') = (held_for (srv_manager sv))(ai_username i := []) \<and>
    owner_of (srv_manager sv') cid = Some (ai_username i)"
proof -
  let ?m1 = "bind_identity (srv_manager sv) cid (ai_user_id i) (ai_username i) (ai_session_id i)"
  let ?ready = "dump (te_pydantic E) (AuthReady (message_id e) (ai_user_id i) (ai_username i) (ai_session_id i))"
  obtain q es where d: "drain (offline_queue ?m1) (ai_username i) = (q, es)" by fastforce
  let ?sv2 = "(emit (sv\<lparr>srv_manager := ?m1\<rparr>) ''websocket_auth_success''
      (get_connection ?m1 cid) [])\<lparr>srv_manager := ?m1\<lparr>offline_queue := q\<rparr>\<rparr>"
  have ok1: "manager_ok ?m1" using bind_identity_ok [OF ok] .
  note dm = drained_manager [OF ok1 d]
  have r': "(sv', t) = finish_frame ?sv2 cid (?ready # es)"
    using r d by (simp add: auth_finish_def Let_def)
  let ?c = "authenticate c (ai_user_id i) (ai_username i) (ai_session_id i)"
  have g: "get_connection (srv_manager ?sv2) cid = Some ?c"
    using c(1) by (simp add: get_connection_def bind_identity_get)
  have "0 < aq_maxsize (outbound c)"
    using connection_ok(2) [OF ok c(1)] bounded by (simp add: context_ok_def)
  then have er: "inbox_of (srv_manager (fst (enqueue_responses ?sv2 cid (?ready # es)))) cid =
      inbox_of (srv_manager ?sv2) cid @ take (room c) (?ready # es) \<and>
    (snd (enqueue_responses ?sv2 cid (?ready # es)) \<longleftrightarrow> length (?ready # es) \<le> room c)"
    using enqueue_responses_take [OF g, of "?ready # es"] c(2) by (simp add: room_def)
  have es: "es = held_for (srv_manager sv) (ai_username i)" using dm(2) by simp
  have m': "srv_manager sv' = srv_manager (fst (enqueue_responses ?sv2 cid (?ready # es)))"
    using r' finish_frame_manager [of ?sv2 cid "?ready # es"] by (metis fst_conv)
  have t: "t = (if snd (enqueue_responses ?sv2 cid (?ready # es)) then Served else CloseWith CLOSE_POLICY_VIOLATION)"
    using r' by (auto simp: finish_frame_def split: prod.splits bool.splits)
  have fin: "turn_ok (srv_manager ?sv2) (srv_manager sv') (set (?ready # es))"
    unfolding m' by (rule enqueue_responses_turn) (use dm(1) in simp)
  have "held_for (srv_manager sv') = held_for (srv_manager ?sv2)"
    unfolding m' by (rule enqueue_responses_held)
  with dm(3) have "held_for (srv_manager sv') = (held_for (srv_manager sv))(ai_username i := [])" by simp
  moreover have "owner_of (srv_manager sv') cid = Some (ai_username i)"
    using quiet_owner [OF turn_okD(2) [OF fin]] g by (simp add: owner_of_def get_connection_def)
  moreover have "inbox_of (srv_manager sv') cid = inbox_of (srv_manager sv) cid @ take (room c) (?ready # es)"
    using er dm(4) unfolding m' by (simp del: enqueue_responses.simps)
  moreover have "t = (if length es < room c then Served else CloseWith CLOSE_POLICY_VIOLATION)"
    using er unfolding t by (simp del: enqueue_responses.simps add: Suc_le_eq)
  ultimately show ?thesis unfolding es by blast
qed

theorem waiting_messages_delivered_witness:
  "owner_of (srv_manager (fst (auth_finish sample_transport trio_server (lit ''c3'') (sample_envelope ''x'' ''y'')
      (Inr \<lparr>ai_user_id = lit ''u3'', ai_username = lit ''carol'', ai_session_id = lit ''s3''\<rparr>)))) (lit ''c3'') =
     Some (lit ''carol'')"
proof -
  let ?i = "\<lparr>ai_user_id = lit ''u3'', ai_username = lit ''carol'', ai_session_id = lit ''s3''\<rparr>"
  obtain sv' t where r: "auth_finish sample_transport trio_server (lit ''c3'') (sample_envelope ''x'' ''y'') (Inr ?i)
      = (sv', t)" by fastforce
  have c: "get_connection (srv_manager trio_server) (lit ''c3'') = Some (fresh_context ''c3'')"
    by (simp add: get_connection_def)
  from waiting_messages_delivered [OF _ c _ _ r] show ?thesis by (simp add: r)
qed

section \<open>Impersonation\<close>

text \<open>A frame within the bounds that is accepted goes straight to its dispatch.\<close>

lemma accepted_frame:
  assumes c: "get_connection (srv_manager sv) cid = Some c"
    and size: "utf8_encode raw = Some bytes" "int (length bytes) \<le> max_message_bytes (limits (srv_manager sv))"
    and rate: "snd (allow (limiter c) now)"
    and acc: "json_loads (te_depth E) raw = Inr (JObj d)" "validate_envelope (te_pydantic E) d = Some e"
      "msg_type e \<in> CLIENT_SENDABLE_TYPES" "authenticated c \<or> msg_type e \<in> UNAUTHENTICATED_SENDABLE_TYPES"
  obtains sv2 c2 where "recv_frame E sv cid raw now wnow = dispatch E sv2 cid c2 e wnow"
    and "get_connection (srv_manager sv2) cid = Some c2" and "same_standing c c2"
    and "closing c2 = closing c" and "outbound c2 = outbound c"
    and "own_only (srv_manager sv) (srv_manager sv2) cid"
proof -
  obtain l where a: "allow (limiter (touch c now)) now = (l, True)"
    using rate by (cases "allow (limiter c) now") (simp add: touch_def)
  let ?c = "touch c now" let ?c2 = "?c\<lparr>limiter := l\<rparr>"
  let ?sv1 = "sv\<lparr>srv_manager := with_context (srv_manager sv) cid (\<lambda>_. ?c)\<rparr>"
  let ?sv2 = "?sv1\<lparr>srv_manager := with_context (srv_manager ?sv1) cid (\<lambda>_. ?c2)\<rparr>"
  have "snd (validate_inbound E ?sv2 ?c2 raw) = Accept e"
    using acc by (auto simp: inbound_accepted_iff touch_def)
  then obtain sv3 where v: "validate_inbound E ?sv2 ?c2 raw = (sv3, Accept e)" by (metis prod.collapse)
  then have sv3: "sv3 = ?sv2" by (rule validate_inbound_accept)
  show thesis
  proof (rule that [of ?sv2 ?c2])
    show "recv_frame E sv cid raw now wnow = dispatch E ?sv2 cid ?c2 e wnow"
      using c size a v sv3 by (simp add: recv_frame_def Let_def)
    show "get_connection (srv_manager ?sv2) cid = Some ?c2"
      using c by (simp add: get_connection_def with_context_get)
    show "own_only (srv_manager sv) (srv_manager ?sv2) cid"
      using own_only_trans [OF own_only_with_context own_only_with_context] by simp
  qed (simp_all add: same_standing_def touch_def)
qed

lemma dispatch_mismatch:
  assumes "msg_type e = MESSAGE_SEND" and "sender e \<noteq> routing_identity c"
  shows "dispatch E sv cid c e wnow =
    finish_frame (emit sv ''message_rejected'' (Some c) [message_field e, (''reason'', LStr (lit ''sender_mismatch''))]) cid
      [error_message (te_pydantic E) WS_SENDER_MISMATCH (Some (message_id e)),
       dump (te_pydantic E) (DeliveryAck (message_id e) REJECTED)]"
  using assms by (simp add: dispatch_def handle_privileged_def handle_message_send_def PRIVILEGED_TYPES_def)

text \<open>
  C5: a frame that claims another identity goes nowhere. Whoever it is addressed to and
  whatever becomes of it, no connection but the one it came in on changes, no mailbox and no
  name. On an authenticated connection, within the size and rate limits, that connection is
  sent the sender-mismatch error and the rejection of the message, as far as its outbound
  queue has room, and nothing else.
\<close>

theorem impersonation_refused:
  assumes ok: "manager_ok (srv_manager sv)" and c: "get_connection (srv_manager sv) cid = Some c"
    and frame: "json_loads (te_depth E) raw = Inr (JObj d)" "validate_envelope (te_pydantic E) d = Some e"
      "msg_type e = MESSAGE_SEND" "sender e \<noteq> routing_identity c"
    and r: "recv_frame E sv cid raw now wnow = (sv', t)"
  shows "own_only (srv_manager sv) (srv_manager sv') cid \<and>
    (authenticated c \<and> \<not> closing c \<and> 0 < max_pending_outbound (limits (srv_manager sv)) \<and>
     snd (allow (limiter c) now) \<and> utf8_encode raw = Some bytes \<and>
     int (length bytes) \<le> max_message_bytes (limits (srv_manager sv)) \<longrightarrow>
     inbox_of (srv_manager sv') cid = inbox_of (srv_manager sv) cid @
       take (room c) [error_message (te_pydantic E) WS_SENDER_MISMATCH (Some (message_id e)),
                      dump (te_pydantic E) (DeliveryAck (message_id e) REJECTED)])"
proof (intro conjI impI)
  show "own_only (srv_manager sv) (srv_manager sv') cid"
    using c r
  proof (cases rule: recv_frame_cases)
    case (refused sv3 errs)
    with own_only_trans [OF refused(2) own_only_finish [of sv3 cid errs]] show ?thesis
      by (metis fst_conv)
  next
    case (accepted sv3 c2 e')
    from accepted(3) obtain d' where "json_loads (te_depth E) raw = Inr (JObj d')"
      "validate_envelope (te_pydantic E) d' = Some e'" by (auto elim: validate_inbound_accept)
    then have e': "e' = e" using frame by simp
    have other: "sender e \<noteq> routing_identity c2" using same_standing_identity [OF accepted(2)] frame(4) by simp
    from accepted(1) own_only_trans [OF accepted(4)] show ?thesis
      unfolding e' dispatch_mismatch [OF frame(3) other] by (metis own_only_finish emit_manager fst_conv)
  qed auto
next
  assume a: "authenticated c \<and> \<not> closing c \<and> 0 < max_pending_outbound (limits (srv_manager sv)) \<and>
     snd (allow (limiter c) now) \<and> utf8_encode raw = Some bytes \<and>
     int (length bytes) \<le> max_message_bytes (limits (srv_manager sv))"
  let ?rs = "[error_message (te_pydantic E) WS_SENDER_MISMATCH (Some (message_id e)),
     dump (te_pydantic E) (DeliveryAck (message_id e) REJECTED)]"
  have sendable: "msg_type e \<in> CLIENT_SENDABLE_TYPES" by (simp add: frame(3) CLIENT_SENDABLE_TYPES_def)
  obtain sv2 c2 where f: "recv_frame E sv cid raw now wnow = dispatch E sv2 cid c2 e wnow"
    "get_connection (srv_manager sv2) cid = Some c2" "same_standing c c2" "closing c2 = closing c"
    "outbound c2 = outbound c" "own_only (srv_manager sv) (srv_manager sv2) cid"
    by (rule accepted_frame [OF c _ _ _ frame(1,2) sendable, of bytes now wnow]) (use a in auto)
  let ?sv = "emit sv2 ''message_rejected'' (Some c2) [message_field e, (''reason'', LStr (lit ''sender_mismatch''))]"
  have "sender e \<noteq> routing_identity c2" using same_standing_identity [OF f(3)] frame(4) by simp
  from f(1) r dispatch_mismatch [OF frame(3) this] have "fst (finish_frame ?sv cid ?rs) = sv'" by (metis fst_conv)
  moreover have "0 < aq_maxsize (outbound c2)"
    using connection_ok(2) [OF ok c] a f(5) by (simp add: context_ok_def)
  ultimately have "inbox_of (srv_manager sv') cid = inbox_of (srv_manager sv2) cid @ take (room c2) ?rs"
    using enqueue_responses_take [of ?sv cid c2 ?rs] f(2,4) a
    by (simp add: finish_frame_manager [symmetric] del: enqueue_responses.simps)
  then show "inbox_of (srv_manager sv') cid = inbox_of (srv_manager sv) cid @ take (room c) ?rs"
    using f(2,5) c by (simp add: inbox_of_def get_connection_def room_def)
qed

theorem impersonation_refused_witness:
  "inbox_of (srv_manager (fst (recv_frame sample_transport trio_server (lit ''c2'') send_frame 0 (utc 0)))) (lit ''c2'') =
     [error_message sample_pydantic WS_SENDER_MISMATCH (Some 8), dump sample_pydantic (DeliveryAck 8 REJECTED)] \<and>
   held_for (srv_manager (fst (recv_frame sample_transport trio_server (lit ''c2'') send_frame 0 (utc 0)))) (lit ''bob'') = []"
proof -
  obtain sv' t where r: "recv_frame sample_transport trio_server (lit ''c2'') send_frame 0 (utc 0) = (sv', t)" by fastforce
  have c: "get_connection (srv_manager trio_server) (lit ''c2'') = Some bob_context" by (simp add: get_connection_def)
  have e: "msg_type send_envelope = MESSAGE_SEND" "sender send_envelope \<noteq> routing_identity bob_context"
    "message_id send_envelope = 8" by (simp_all add: send_envelope_def)
  have rate: "snd (allow (limiter bob_context) 0)"
    by (simp add: bob_context_def authenticate_def allow_def new_limiter_def Let_def)
  have room: "room bob_context = 100" by (simp add: room_def aq_new_def)
  have m: "0 < max_pending_outbound transport_limits_defaults" "max_message_bytes transport_limits_defaults = 65536"
    by (simp_all add: transport_limits_defaults_def)
  have "json_loads (te_depth sample_transport) send_frame = Inr (JObj send_fields)"
    "validate_envelope (te_pydantic sample_transport) send_fields = Some send_envelope"
    using frames_parse(2) frames_validate(2) by simp_all
  from impersonation_refused [OF _ c this e(1,2) r, of send_frame]
  show ?thesis using frames_encode(2) frames_length(2) rate room m
    by (simp add: r e(3) own_only_def inbox_of_def held_for_def aq_new_def waiting_def new_queue_def)
qed

end
