(* ===== verification/UuidProps.thy ===== *)
theory UuidProps
  imports Schemas
begin

text \<open>
  Reading back what \<open>str\<close> makes of a UUID: the reader \<open>uuid.UUID\<close> that the endpoint uses
  to correlate a rejection is the inverse of the writer that fills the log and the replies.
\<close>

section \<open>Deleting characters\<close>

lemma py_delete_Nil [simp]: "py_delete p [] = []"
  by (subst py_delete.simps) simp

lemma py_delete_absent:
  assumes "p \<noteq> []" and "hd p \<notin> set s"
  shows "py_delete p s = s"
  using assms
proof (induction s)
  case (Cons x xs)
  then have "\<not> starts_with p (x # xs)" by (cases p) auto
  with Cons show ?case by (subst py_delete.simps) simp
qed simp

lemma py_delete_char: "py_delete [c] s = filter (\<lambda>x. x \<noteq> c) s"
proof (induction s)
  case (Cons x xs)
  then show ?case by (subst py_delete.simps) auto
qed simp

section \<open>Hexadecimal digits\<close>

fun nibbles :: "nat \<Rightarrow> nat \<Rightarrow> nat list" where
  "nibbles 0 v = []"
| "nibbles (Suc n) v = nibbles n (v div 16) @ [v mod 16]"

lemma hex_digits_nibbles: "hex_digits n v = map hex_digit (nibbles n v)"
  by (induction n arbitrary: v) simp_all

lemma nibbles_small: "d \<in> set (nibbles n v) \<Longrightarrow> d < 16"
  by (induction n arbitrary: v) auto

lemma nibbles_value: "digits_value 16 (nibbles n v) = int (v mod 16 ^ n)"
proof (induction n arbitrary: v)
  case (Suc n)
  have "v mod 16 ^ Suc n = v div 16 mod 16 ^ n * 16 + v mod 16"
    using mod_mult2_eq [of v 16 "16 ^ n"] by simp
  with Suc [of "v div 16"] show ?case by (simp add: digits_value_def)
qed (simp add: digits_value_def)

lemma hex_char:
  assumes "c \<in> set (hex_digits n v)"
  shows "48 \<le> c \<and> c \<le> 57 \<or> 97 \<le> c \<and> c \<le> 102"
proof -
  obtain d where "d < 16" "c = hex_digit d" using assms nibbles_small by (auto simp: hex_digits_nibbles)
  then show ?thesis by (auto simp: hex_digit_def)
qed

lemma us_digits_hex:
  assumes "\<forall>d \<in> set ds. d < 16"
  shows "us_digits_aux (hex_or_decimal U) b acc (map hex_digit ds) =
    (if ds = [] \<and> \<not> b then None else Some (rev acc @ ds))"
  using assms
proof (induction ds arbitrary: b acc)
  case (Cons d ds)
  then have "hex_digit d \<noteq> 95" "hex_or_decimal U (hex_digit d) = Some d"
    using hex_value_digit [of d] by (auto simp: hex_digit_def hex_or_decimal_def)
  with Cons show ?case by auto
qed simp

lemma py_int16_hex:
  assumes "unicode_ok U" and "0 < n"
  shows "py_int16 U (hex_digits n v) = Some (int (v mod 16 ^ n))"
proof -
  let ?h = "hex_digits n v"
  have c: "48 \<le> c \<and> c \<le> 57 \<or> 97 \<le> c \<and> c \<le> 102" if "c \<in> set ?h" for c using hex_char [OF that] .
  have "\<not> is_space U c" if "c \<in> set ?h" for c
    using c [OF that] assms(1) by (auto simp: unicode_ok_def ascii_space_def)
  then have strip: "py_strip (is_space U) ?h = ?h" by (intro py_strip_id) blast
  obtain x xs where h: "?h = x # xs" using assms(2) by (cases ?h) (auto dest: arg_cong [of _ _ length])
  have sign: "split_sign ?h = (1, ?h)" using c [of x] by (auto simp: split_sign_def h)
  have "drop_0x ?h = ?h" using c [of "hd xs"] by (auto simp: drop_0x_def h split: list.splits)
  moreover have "nibbles n v \<noteq> []" using assms(2) by (cases n) auto
  ultimately show ?thesis
    using us_digits_hex [of "nibbles n v" U False "[]"] nibbles_small
    by (simp add: py_int16_def strip sign us_digits_def hex_digits_nibbles [of n v, symmetric] nibbles_value)
qed

section \<open>The round trip\<close>

lemma uuid_str_char: "c \<in> set (uuid_str v) \<Longrightarrow> c = 45 \<or> 48 \<le> c \<and> c \<le> 57 \<or> 97 \<le> c \<and> c \<le> 102"
  using hex_char [of c 32 v] by (auto simp: uuid_str_def uuid_hex_def Let_def dest: in_set_takeD in_set_dropD)

lemma split_8_4_4_4: "take 8 h @ take 4 (drop 8 h) @ take 4 (drop 12 h) @ take 4 (drop 16 h) @ drop 20 h = h"
proof -
  have "take 4 (drop 16 h) @ drop 20 h = drop 16 h" using append_take_drop_id [of 4 "drop 16 h"] by simp
  moreover have "take 4 (drop 12 h) @ drop 16 h = drop 12 h" using append_take_drop_id [of 4 "drop 12 h"] by simp
  moreover have "take 4 (drop 8 h) @ drop 12 h = drop 8 h" using append_take_drop_id [of 4 "drop 8 h"] by simp
  ultimately show ?thesis by simp
qed

lemma uuid_str_unhyphened: "filter (\<lambda>x. x \<noteq> 45) (uuid_str v) = uuid_hex v"
proof -
  let ?h = "uuid_hex v"
  have no: "x \<noteq> 45" if "x \<in> set ?h" for x using hex_char [of x 32 v] that by (auto simp: uuid_hex_def)
  have "filter (\<lambda>x. x \<noteq> 45) (take n (drop m ?h)) = take n (drop m ?h)"
    "filter (\<lambda>x. x \<noteq> 45) (drop m ?h) = drop m ?h" "filter (\<lambda>x. x \<noteq> 45) (take n ?h) = take n ?h" for n m
    using no by (auto simp: filter_id_conv dest: in_set_takeD in_set_dropD)
  then show ?thesis using split_8_4_4_4 [of ?h] by (simp add: uuid_str_def Let_def)
qed

lemma uuid_of_str_str:
  assumes "unicode_ok U" and "uuid_valid v"
  shows "uuid_of_str U (uuid_str v) = Some v"
proof -
  note c = uuid_str_char
  have "117 \<notin> set (uuid_str v)" using c by fastforce
  then have "py_delete (lit ''uuid:'') (py_delete (lit ''urn:'') (uuid_str v)) = uuid_str v"
    by (simp add: py_delete_absent lit_def)
  moreover have "py_strip (\<lambda>c. c = 123 \<or> c = 125) (uuid_str v) = uuid_str v"
    using c [of 123 v] c [of 125 v] by (intro py_strip_id) auto
  moreover have "py_delete (lit ''-'') (uuid_str v) = uuid_hex v"
    using py_delete_char [of 45] uuid_str_unhyphened [of v] by (simp add: lit_def)
  ultimately show ?thesis
    using py_int16_hex [OF assms(1), of 32 v] assms(2)
    by (simp add: uuid_of_str_def Let_def uuid_hex_def uuid_valid_def)
qed

lemma uuid_str_inj: "uuid_valid v \<Longrightarrow> uuid_valid w \<Longrightarrow> uuid_str v = uuid_str w \<Longrightarrow> v = w"
  using uuid_of_str_str [OF unicode_ok_ascii] by (metis option.inject)

end
