(* ===== verification/ComponentProps.thy ===== *)
theory ComponentProps
  imports AuthProps TransportProps UuidProps
begin

text \<open>
  What the smaller components promise by themselves: the limits read from the environment,
  the rate limiter, the offline queue, the failed-login window, the access tokens, the
  authentication settings and the password policy.
\<close>

section \<open>Limits and origins\<close>

text \<open>
  Whatever the environment says, a server started with the limits read from it has
  positive bounds and consistent state, and an upgrade gets through the Origin check only
  with a listed origin, never the wildcard, or with none at all; any other is closed with
  4403 and leaves the manager untouched.
\<close>

lemma origin_gate:
  assumes "srv_manager sv = new_manager (default_limits U env)"
  shows "limits_ok (default_limits U env) \<and> manager_ok (srv_manager sv) \<and>
    (case ws_connect sv origin host now wnow anon cid of
       (sv', Inl code) \<Rightarrow> srv_manager sv' = srv_manager sv \<and>
         (code = CLOSE_ORIGIN_REJECTED \<longleftrightarrow> \<not> is_origin_allowed (default_limits U env) origin)
     | (sv', Inr _) \<Rightarrow> origin = None \<or> origin \<noteq> Some (lit ''*'') \<and>
         (\<exists>v. origin = Some v \<and> v \<in> set (allowed_origins (default_limits U env))))"
proof -
  have l: "limits_ok (default_limits U env)" by (rule default_limits_ok)
  have ok: "manager_ok (srv_manager sv)"
    using l assms by (simp add: manager_ok_new limits_ok_def)
  have star: "lit ''*'' \<notin> set (allowed_origins (default_limits U env))"
    using origins_env_no_wildcard [of default_origins U env "lit ''WS_ALLOWED_ORIGINS''"]
    by (simp add: default_limits_def default_origins_def)
  have lm: "limits (srv_manager sv) = default_limits U env" by (simp add: assms)
  obtain sv' r where w: "ws_connect sv origin host now wnow anon cid = (sv', r)" by fastforce
  show ?thesis
  proof (cases r)
    case (Inl code)
    have "code = CLOSE_ORIGIN_REJECTED \<longleftrightarrow> \<not> is_origin_allowed (default_limits U env) origin"
      using w Inl by (auto simp: ws_connect_def reject_upgrade_def lm close_codes
          split: if_splits prod.splits sum.splits)
    with ws_connect_Inl [OF w [unfolded Inl]] l ok w Inl show ?thesis by simp
  next
    case (Inr c)
    have "is_origin_allowed (default_limits U env) origin"
      using w Inr by (auto simp: ws_connect_def reject_upgrade_def lm split: if_splits)
    with star l ok w Inr show ?thesis by (auto simp: is_origin_allowed_def split: option.splits)
  qed
qed

lemma origin_gate_witness:
  "\<exists>sv'. ws_connect
      \<lparr>srv_manager = new_manager (default_limits ascii_unicode (\<lambda>_. None)), srv_log = []\<rparr>
      (Some (lit ''http://evil.example'')) None 0 (utc 0) (lit ''a'') (lit ''c'') = (sv', Inl CLOSE_ORIGIN_REJECTED)"
proof -
  let ?sv = "\<lparr>srv_manager = new_manager (default_limits ascii_unicode (\<lambda>_. None)), srv_log = []\<rparr>"
  have no: "\<not> is_origin_allowed (default_limits ascii_unicode (\<lambda>_. None)) (Some (lit ''http://evil.example''))"
    by (simp add: is_origin_allowed_def default_limits_def origins_env_def default_origins_def)
  obtain sv' r where w: "ws_connect ?sv (Some (lit ''http://evil.example'')) None 0 (utc 0)
      (lit ''a'') (lit ''c'') = (sv', r)" by fastforce
  from origin_gate [where sv = ?sv and U = ascii_unicode and env = "\<lambda>_. None"
      and origin = "Some (lit ''http://evil.example'')" and host = None and now = 0
      and wnow = "utc 0" and anon = "lit ''a''" and cid = "lit ''c''"] w no
  show ?thesis by (cases r) (auto simp: is_origin_allowed_def)
qed

section \<open>Rate limiting\<close>

text \<open>
  C40: in every stretch of time as long as the window, at most twice the configured number
  of a connection's messages pass the limiter, however they are timed; the messages of a
  burst pass up to exactly that number.
\<close>

theorem rate_limit_bound:
  assumes "sorted ts" and "0 \<le> n" and "0 < w"
  shows "passed_between t0 (t0 + w) (allow_run (new_limiter n (Fin w)) ts) \<le> 2 * n \<and>
    (\<forall>t k. w \<le> t \<longrightarrow> passed_between t (t + w) (allow_run (new_limiter n (Fin w)) (replicate k t)) = min (int k) n)"
proof
  show "passed_between t0 (t0 + w) (allow_run (new_limiter n (Fin w)) ts) \<le> 2 * n"
    using passed_sliding [OF assms(1), of "new_limiter n (Fin w)" w t0] assms(2) by (simp add: new_limiter_def)
  have run: "passed_between t (t + w) (allow_run \<lparr>max_messages = n, window_seconds = Fin w,
      window_started_at = t, msg_count = c\<rparr> (replicate k t)) = min (int k) (max 0 (n - c))" for t c k
    using \<open>0 < w\<close> by (induction k arbitrary: c) (auto simp: allow_def Let_def min_def max_def)
  show "\<forall>t k. w \<le> t \<longrightarrow> passed_between t (t + w) (allow_run (new_limiter n (Fin w)) (replicate k t)) = min (int k) n"
  proof (intro allI impI)
    fix t k assume "w \<le> t"
    then show "passed_between t (t + w) (allow_run (new_limiter n (Fin w)) (replicate k t)) = min (int k) n"
      using run [of t 1] assms(2,3)
      by (cases k) (auto simp: new_limiter_def allow_def Let_def min_def max_def)
  qed
qed

theorem rate_limit_bound_witness:
  "passed_between 5 6 (allow_run (new_limiter 2 (Fin 1)) (replicate 7 5)) = 2"
  using rate_limit_bound [of "[]" 2 1, THEN conjunct2, rule_format, of 5 7] by simp

section \<open>The offline queue\<close>

text \<open>
  The offline queue after any use. A batch queued for one recipient is accepted as far
  as the recipient's places reach, in full order and without gaps, or not at all when the
  recipient is new and the table is full; draining then gives what waited before followed by
  what was accepted, once; nobody else's messages are touched, and what is stored never
  exceeds the product of the two bounds.
\<close>

lemma offline_queue_fifo:
  assumes "0 \<le> per" and "0 \<le> tot" and q: "q = foldl queue_step (new_queue per tot) xs"
    and b: "enqueue_batch q r es = (q1, acc)" and d: "drain q1 r = (q2, out)"
  shows "acc = (if dict_get (queues q) r = None \<and> tot \<le> recipient_count q then []
      else take (nat (per - count q r)) es) \<and>
    out = waiting q r @ acc \<and> snd (drain q2 r) = [] \<and>
    (\<forall>r'. r' \<noteq> r \<longrightarrow> waiting q2 r' = waiting q r') \<and> total_queued q1 \<le> tot * per"
proof -
  have lim: "max_per_recipient q = per" "max_recipients q = tot"
    using q by (simp_all add: new_queue_def)
  have ok: "queue_ok q" using q assms(1) by (simp add: queue_run_ok)
  note b' = b [unfolded enqueue_batch_mailbox]
  have ok1: "queue_ok q1" using oq.enq_all_inv [OF ok b'] .
  have out: "out = waiting q r @ acc" "waiting q2 = (waiting q)(r := [])"
    using oq.queue_then_drain [OF ok b' d] by auto
  obtain q3 out2 where d2: "drain q2 r = (q3, out2)" by fastforce
  have "out2 = []" using oq.drain_exactly_once [OF ok1 d d2] by simp
  moreover have lim1: "max_per_recipient q1 = per" "max_recipients q1 = tot"
    using enqueue_batch_limits [OF b] lim by simp_all
  have "recipient_count q1 \<le> tot"
    using ok1 lim1 \<open>0 \<le> tot\<close> by (auto simp: queue_ok_def recipient_count_def)
  then have "total_queued q1 \<le> tot * per"
    using total_queued_bounded [OF ok1] lim1 \<open>0 \<le> per\<close> by (metis mult_right_mono order_trans)
  ultimately show ?thesis using enqueue_batch_accepts [OF b] lim out d2 by simp
qed

lemma offline_queue_fifo_witness:
  "snd (enqueue_batch (new_queue 2 5) (lit ''bob'') [1, 2, 3 :: nat]) = [1, 2]"
proof -
  obtain q1 acc where b: "enqueue_batch (new_queue 2 5) (lit ''bob'') [1, 2, 3 :: nat] = (q1, acc)" by fastforce
  obtain q2 out where d: "drain q1 (lit ''bob'') = (q2, out)" by fastforce
  show ?thesis
    using offline_queue_fifo [OF _ _ _ b d, of 2 5 "[]"] b
    by (simp add: count_def recipient_count_def new_queue_def)
qed

section \<open>Settings and passwords\<close>

text \<open>
  The authentication settings. Whatever the environment says, the values stay at or
  above their minima; a secret is never empty, and unless a warning is logged it is the
  configured one and has at least 32 characters.
\<close>

lemma settings_hold:
  assumes "ephemeral \<noteq> []" and "default_auth_config U env ephemeral = (c, warnings)"
  shows "auth_config_ok c \<and> algorithm c = lit ''HS256'' \<and>
    (warnings = [] \<longrightarrow> 32 \<le> length (signing_secret c) \<and>
       (\<exists>raw. env (lit ''AUTH_SIGNING_SECRET'') = Some raw \<and> signing_secret c = py_strip (is_space U) raw))"
proof -
  obtain s where l: "load_signing_secret U env ephemeral = (s, warnings)"
    and c: "signing_secret c = s" "algorithm c = lit ''HS256''"
    using assms(2) by (auto simp: default_auth_config_def auth_config_defaults_def split: prod.splits)
  then show ?thesis
    using default_auth_config_ok [OF assms(1), of U env] assms(2)
      load_signing_secret_warns [of U env ephemeral s] by (auto simp: MIN_SIGNING_SECRET_LENGTH_def)
qed

lemma settings_hold_witness:
  "auth_config_ok (fst (default_auth_config ascii_unicode (\<lambda>_. None) (lit ''ephemeral'')))"
  using settings_hold [of "lit ''ephemeral''" ascii_unicode "\<lambda>_. None"]
  by (metis lit_Nil_iff(1) list.distinct(1) prod.collapse)

text \<open>
  An access token issued under settings read from the environment is good for exactly
  the configured minutes: before the second of its expiry it decodes to the user, session
  and token id it was issued for, and from that second on it is reported as expired.
\<close>

lemma token_lifetime:
  assumes J: "jwt_ok J (signing_secret c)" and c: "c = fst (default_auth_config U env ephemeral)"
    and t: "0 \<le> t" "t \<le> now"
    and range: "t + minutes_us (access_token_ttl_minutes c) < 253402300800 * 1000000"
  shows "decode_access_token J U' c (utc now) (issue_access_token J c uid sid jti (utc t)) =
    (if t div 1000000 + access_token_ttl_minutes c * 60 \<le> now div 1000000
     then Inl (auth_raise AUTH_TOKEN_EXPIRED (lit ''access token expired''))
     else Inr \<lparr>c_user_id = uid, c_session_id = sid, c_token_id = jti,
            c_issued_at = from_timestamp (t div 1000000),
            c_expires_at = from_timestamp (t div 1000000 + access_token_ttl_minutes c * 60)\<rparr>)"
proof -
  have alg: "algorithm c = lit ''HS256''" and ttl: "0 \<le> access_token_ttl_minutes c"
    using c auth_int_env_min [of 1 15 U env "lit ''ACCESS_TOKEN_TTL_MINUTES''"]
    by (simp_all add: default_auth_config_def auth_config_defaults_def split_beta)
  have "(t + minutes_us (access_token_ttl_minutes c)) div 1000000 =
      t div 1000000 + access_token_ttl_minutes c * 60"
    by (simp add: minutes_us_def)
  then show ?thesis using decode_issued [OF J alg t ttl range, of U' uid sid jti] by simp
qed

lemma token_lifetime_witness:
  "\<exists>c. decode_access_token sample_jwt ascii_unicode c (utc 900000000)
     (issue_access_token sample_jwt c (lit ''u1'') (lit ''s1'') (lit ''jti'') (utc 0)) =
   Inl (auth_raise AUTH_TOKEN_EXPIRED (lit ''access token expired''))"
proof -
  let ?c = "fst (default_auth_config ascii_unicode (\<lambda>_. None) (lit ''ephemeral''))"
  have "access_token_ttl_minutes ?c = 15"
    by (simp add: default_auth_config_def auth_int_env_def split_beta)
  then show ?thesis
    using token_lifetime [OF sample_jwt_ok refl, of 0 900000000 ascii_unicode "\<lambda>_. None" "lit ''ephemeral''"
        ascii_unicode "lit ''u1''" "lit ''s1''" "lit ''jti''"]
    by (intro exI [of _ ?c]) (simp add: minutes_us_def)
qed

text \<open>
  A password that passes the policy has a number of UTF-8 bytes within the configured
  bounds; its hash verifies exactly the passwords with the same normal form, whatever the
  parameters were at the time, and asks for a rehash exactly when the parameters have
  changed since.
\<close>

lemma password_round_trip:
  assumes A: "argon2_ok A" and pol: "validate_policy c pw = None"
  shows "(\<exists>bytes. utf8_encode pw = Some bytes \<and> min_password_length c \<le> int (length bytes) \<and>
      int (length bytes) \<le> max_password_length c) \<and>
    (verify_password A U (hash_password A U c salt pw) pw' \<longleftrightarrow>
       normalize_password U pw' = normalize_password U pw) \<and>
    (needs_rehash A c' (hash_password A U c salt pw) \<longleftrightarrow> hasher_params c' \<noteq> hasher_params c)"
proof -
  obtain bytes where "utf8_encode pw = Some bytes" "min_password_length c \<le> int (length bytes)"
    "int (length bytes) \<le> max_password_length c"
    using validate_policy_bounds [OF pol] by blast
  moreover have "needs_rehash A c' (hash_password A U c salt pw) \<longleftrightarrow> hasher_params c' \<noteq> hasher_params c"
    using A by (auto simp: argon2_ok_def needs_rehash_def hash_password_def)
  ultimately show ?thesis using verify_own_hash [OF A, of U c salt pw pw'] by blast
qed

lemma password_round_trip_witness:
  "verify_password sample_argon2 ascii_unicode
     (hash_password sample_argon2 ascii_unicode (e_config sample_env) 7 (lit ''correct horse battery''))
     (lit ''correct horse battery'')"
  using password_round_trip [OF sample_argon2_ok alice_password, of ascii_unicode 7
      "lit ''correct horse battery''" "e_config sample_env"] by simp

section \<open>Correlating replies\<close>

text \<open>
  A reply is correlated with its request: the message id that the endpoint's own reader
  finds in an acknowledgement, a receipt or an error is the id it was made for, for every
  128-bit id, and an error without an id has none; a client id written by \<open>str\<close> and read
  back is the same.
\<close>

lemma replies_correlate:
  assumes "unicode_ok U" and "uuid_valid i"
  shows "uuid_of_str U (uuid_str i) = Some i \<and>
    extract_message_id U (dump P (DeliveryAck i status)) = Some i \<and>
    extract_message_id U (receipt_for P c (e\<lparr>message_id := i\<rparr>) rcp) = Some i \<and>
    extract_message_id U (error_message P code (Some i)) = Some i \<and>
    extract_message_id U (error_message P code None) = None"
  using uuid_of_str_str [OF assms]
  by (simp add: extract_message_id_def dump_def receipt_for_def error_message_def opt_uuid_json_def)

lemma replies_correlate_witness:
  "extract_message_id ascii_unicode (error_message sample_pydantic WS_AUTH_REQUIRED (Some 7)) = Some 7"
  using replies_correlate [OF unicode_ok_ascii, of 7] by (simp add: uuid_valid_def)

end
