(* ===== verification/LoginWindow.thy ===== *)
theory LoginWindow
  imports AuthProps
begin

text \<open>
  The failed-login window of an account as the service uses it: one login after another keeps
  to the threshold, and what two coroutines that interleave at the database \<open>await\<close> can do.
\<close>

section \<open>A login and the tracker\<close>

lemma reset_failures_fixed [simp]:
  "max_failures (reset_failures t i) = max_failures t"
  "window_seconds (reset_failures t i) = window_seconds t"
  by (simp_all add: reset_failures_def)

lemma maybe_rehash_tracker [simp]:
  "a_failed_logins (maybe_rehash E st u pw salt now) = a_failed_logins st"
  by (simp add: maybe_rehash_def)

lemma open_session_tracker [simp]:
  "a_failed_logins (fst (open_session E st u f)) = a_failed_logins st"
  by (simp add: open_session_def split: sum.split prod.split)



section \<open>One login after another\<close>

record login_request =
  lr_username :: ustr
  lr_password :: ustr
  lr_start :: rat
  lr_end :: rat
  lr_salt :: nat
  lr_rehash :: datetime
  lr_fresh :: fresh





definition refused_guess :: "exn + issued_credentials \<Rightarrow> bool" where
  "refused_guess r = (case r of Inl (AuthError e) \<Rightarrow> err_code e = AUTH_INVALID_CREDENTIALS | _ \<Rightarrow> False)"


lemma refused_guess_simps [simp]:
  "refused_guess (Inl (auth_raise AUTH_INVALID_CREDENTIALS d))"
  "\<not> refused_guess (Inl (auth_raise_status AUTH_RATE_LIMITED 429 d))"
  by (simp_all add: refused_guess_def auth_raise_def auth_raise_status_def)






definition alice_guess :: "rat \<Rightarrow> login_request" where
  "alice_guess t = \<lparr>lr_username = lit ''alice'', lr_password = lit ''wrong'', lr_start = t, lr_end = t + 1,
     lr_salt = 8, lr_rehash = utc 0, lr_fresh = sample_fresh ''s1'' ''t1'' 5\<rparr>"

lemma alice_guess_sel [simp]:
  "lr_start (alice_guess t) = t" "lr_end (alice_guess t) = t + 1"
  "lr_username (alice_guess t) = lit ''alice''" "lr_password (alice_guess t) = lit ''wrong''"
  by (simp_all add: alice_guess_def)




section \<open>Logins that interleave\<close>

text \<open>
  Every login coroutine looks at the window before it awaits the database and records its
  failure after: a burst that arrives together is admitted together.
\<close>

lemma begin_burst:
  assumes "validate_username (e_unicode E) username = Inr n"
    and "\<not> snd (is_blocked (a_failed_logins st) n t)"
  shows "a_db (auth_run E (replicate k (OpLoginBegin username t)) st) = a_db st \<and>
    a_work (auth_run E (replicate k (OpLoginBegin username t)) st) = a_work st \<and>
    \<not> snd (is_blocked (a_failed_logins (auth_run E (replicate k (OpLoginBegin username t)) st)) n t)"
  using assms(2)
proof (induction k arbitrary: st)
  case (Suc k)
  let ?st = "fst (login_begin E st username t)"
  have b: "login_begin E st username t =
     (st\<lparr>a_failed_logins := fst (is_blocked (a_failed_logins st) n t)\<rparr>, Inr n)"
    using assms(1) Suc.prems by (simp add: login_begin_Inr)
  have "live_window (fst (prune (a_failed_logins st) n t)) n t = live_window (a_failed_logins st) n t"
    by (auto simp: live_window_def [of "fst (prune (a_failed_logins st) n t)"] live_window_def [of "a_failed_logins st"]
        dropWhile_dropWhile1)
  then have "\<not> snd (is_blocked (a_failed_logins ?st) n t)"
    using Suc.prems by (simp add: b is_blocked_fst is_blocked_snd)
  from Suc.IH [OF this] show ?case by (simp add: auth_run_def b)
qed (simp add: auth_run_def)

lemma finish_burst:
  assumes "db_ok (a_db st)" and "user_named (a_db st) n = Some u"
    and "\<And>pw. pw \<in> set pws \<Longrightarrow> \<not> verify_password (e_argon2 E) (e_unicode E) (u_password_hash u) pw"
  shows "a_work (auth_run E (map (\<lambda>pw. OpLoginFinish n pw t salt rnow f) pws) st) =
    a_work st @ replicate (length pws) (u_password_hash u)"
  using assms
proof (induction pws arbitrary: st)
  case (Cons pw pws)
  let ?st = "auth_step E (OpLoginFinish n pw t salt rnow f) st"
  have "a_db ?st = a_db st" "a_work ?st = a_work st @ [u_password_hash u]"
    using Cons.prems by (simp_all add: login_finish_def verify_with_def transaction_db)
  with Cons.IH [of ?st] Cons.prems show ?case by (simp add: auth_run_def del: auth_step.simps)
qed (simp add: auth_run_def)

text \<open>
  The threshold does not hold for logins that overlap: as many guesses as arrive before
  the first is refused are all tried against the account's own hash, however small the
  configured number.
\<close>

lemma overlapping_guesses_unbounded:
  assumes "db_ok (a_db st)" and "validate_username (e_unicode E) username = Inr n"
    and "user_named (a_db st) n = Some u" and "\<not> snd (is_blocked (a_failed_logins st) n t)"
    and "\<And>pw. pw \<in> set pws \<Longrightarrow> \<not> verify_password (e_argon2 E) (e_unicode E) (u_password_hash u) pw"
  shows "a_work (auth_run E (replicate (length pws) (OpLoginBegin username t) @
      map (\<lambda>pw. OpLoginFinish n pw t' salt rnow f) pws) st) =
    a_work st @ replicate (length pws) (u_password_hash u)"
proof -
  let ?s = "auth_run E (replicate (length pws) (OpLoginBegin username t)) st"
  have b: "a_db ?s = a_db st" "a_work ?s = a_work st"
    using begin_burst [OF assms(2,4), of "length pws"] by auto
  then have "a_work (auth_run E (map (\<lambda>pw. OpLoginFinish n pw t' salt rnow f) pws) ?s) =
      a_work ?s @ replicate (length pws) (u_password_hash u)"
    using assms by (intro finish_burst) auto
  then show ?thesis using b by (simp add: auth_run_def)
qed

lemma overlapping_guesses_unbounded_witness:
  "length (a_work (auth_run sample_env (replicate 12 (OpLoginBegin (lit ''alice'') 0) @
      map (\<lambda>pw. OpLoginFinish (lit ''alice'') pw 1 8 (utc 0) (sample_fresh ''s1'' ''t1'' 5))
        (replicate 12 (lit ''wrong''))) alice_state)) = length (a_work alice_state) + 12"
  using overlapping_guesses_unbounded [OF sample_db_ok(2), of sample_env "lit ''alice''" "lit ''alice''" alice_row
      0 "replicate 12 (lit ''wrong'')" 1 8 "utc 0" "sample_fresh ''s1'' ''t1'' 5"]
  by (simp add: alice_names del: replicate.simps)

end
