(* ===== verification/System.thy ===== *)
theory System
  imports EndpointInv AuthInv
begin

text \<open>
  The whole server as a transition system: the authentication service, the connection
  manager, and one handler per open connection with its phase and the state of its writer
  task. A label is what the environment makes happen next, with the values it chooses; a
  step is the piece of code that then runs to its next \<open>await\<close>. \<open>sys_step\<close> is
  executable and gives \<open>None\<close> when the label is not enabled.
\<close>

section \<open>State and steps\<close>

text \<open>
  Where a handler is: awaiting \<open>accept\<close>; awaiting a frame; awaiting the database's answer about
  a token; with that answer, awaiting the release of the database session; in the \<open>finally\<close> block.
\<close>

datatype phase =
    Accepting
  | Receiving
  | Resolving envelope ustr
  | Resolved envelope "exn + authenticated_identity"
  | Closing int

record handler =
  h_phase :: phase
  h_writer :: writer_state

record system =
  sys_auth :: auth_state
  sys_server :: server
  sys_handlers :: "(ustr, handler) dict"

datatype label =
    LAuth auth_op
  | LConnect "ustr option" "ustr option" rat datetime ustr ustr
  | LAccepted ustr
  | LAcceptFailed ustr
  | LFrame ustr ustr rat datetime
  | LResolve ustr datetime datetime
  | LBind ustr
  | LTimeout ustr
  | LDisconnect ustr
  | LWrite ustr send_result
  | LClose ustr

definition initial :: "auth_config \<Rightarrow> database \<Rightarrow> transport_limits \<Rightarrow> system" where
  "initial c db l = \<lparr>sys_auth = new_service c db,
     sys_server = \<lparr>srv_manager = new_manager l, srv_log = []\<rparr>, sys_handlers = []\<rparr>"

text \<open>
  How a turn leaves the handler: a turn that returns a close code or raises runs into the
  \<open>finally\<close> block, which closes with code 1000 unless the loop returned one.
\<close>

definition after_turn :: "system \<Rightarrow> ustr \<Rightarrow> handler \<Rightarrow> server \<times> turn \<Rightarrow> system" where
  "after_turn s cid h r = (case r of
     (sv, Served) \<Rightarrow> s\<lparr>sys_server := sv, sys_handlers := dict_set (sys_handlers s) cid (h\<lparr>h_phase := Receiving\<rparr>)\<rparr>
   | (sv, AwaitToken e tok) \<Rightarrow>
       s\<lparr>sys_server := sv, sys_handlers := dict_set (sys_handlers s) cid (h\<lparr>h_phase := Resolving e tok\<rparr>)\<rparr>
   | (sv, CloseWith code) \<Rightarrow>
       s\<lparr>sys_server := close_begin sv cid, sys_handlers := dict_set (sys_handlers s) cid (h\<lparr>h_phase := Closing code\<rparr>)\<rparr>
   | (sv, Raised x) \<Rightarrow>
       s\<lparr>sys_server := close_begin sv cid, sys_handlers := dict_set (sys_handlers s) cid (h\<lparr>h_phase := Closing CLOSE_NORMAL\<rparr>)\<rparr>
   | (sv, NotRegistered) \<Rightarrow> s\<lparr>sys_server := sv\<rparr>)"

definition receiving :: "system \<Rightarrow> ustr \<Rightarrow> handler option" where
  "receiving s cid = (case dict_get (sys_handlers s) cid of
     Some h \<Rightarrow> if h_phase h = Receiving then Some h else None | None \<Rightarrow> None)"

definition accepting :: "system \<Rightarrow> ustr \<Rightarrow> bool" where
  "accepting s cid \<longleftrightarrow> (case dict_get (sys_handlers s) cid of
     Some h \<Rightarrow> h_phase h = Accepting | None \<Rightarrow> False)"

text \<open>
  The two reads of one token check are one step; its result is used in a later one. A failed
  \<open>accept\<close> ends the handler outside the \<open>try\<close> block, so nothing unregisters the connection.
\<close>

fun sys_step :: "auth_env \<Rightarrow> transport_env \<Rightarrow> label \<Rightarrow> system \<Rightarrow> system option" where
  "sys_step A E (LAuth op) s = Some (s\<lparr>sys_auth := auth_step A op (sys_auth s)\<rparr>)"
| "sys_step A E (LConnect origin host now wall_now anon cid) s =
     (if get_connection (srv_manager (sys_server s)) cid \<noteq> None \<or> dict_get (sys_handlers s) cid \<noteq> None then None
      else (case ws_connect (sys_server s) origin host now wall_now anon cid of
              (sv, Inl _) \<Rightarrow> Some (s\<lparr>sys_server := sv\<rparr>)
            | (sv, Inr _) \<Rightarrow> Some (s\<lparr>sys_server := sv,
                sys_handlers := dict_set (sys_handlers s) cid \<lparr>h_phase = Accepting, h_writer = NoWriter\<rparr>\<rparr>)))"
| "sys_step A E (LAccepted cid) s =
     (if accepting s cid
      then Some (s\<lparr>sys_server := ws_accepted E (sys_server s) cid,
        sys_handlers := dict_set (sys_handlers s) cid \<lparr>h_phase = Receiving, h_writer = WriterRunning\<rparr>\<rparr>)
      else None)"
| "sys_step A E (LAcceptFailed cid) s =
     (if accepting s cid then Some (s\<lparr>sys_handlers := dict_del (sys_handlers s) cid\<rparr>) else None)"
| "sys_step A E (LFrame cid raw now wall_now) s =
     map_option (\<lambda>h. after_turn s cid h (recv_frame E (sys_server s) cid raw now wall_now)) (receiving s cid)"
| "sys_step A E (LResolve cid t now) s =
     (case dict_get (sys_handlers s) cid of
        None \<Rightarrow> None
      | Some h \<Rightarrow> (case h_phase h of
          Resolving e tok \<Rightarrow> Some (s\<lparr>sys_handlers := dict_set (sys_handlers s) cid
             (h\<lparr>h_phase := Resolved e (resolve_access_token A (a_db (sys_auth s)) t now tok)\<rparr>)\<rparr>)
        | _ \<Rightarrow> None))"
| "sys_step A E (LBind cid) s =
     (case dict_get (sys_handlers s) cid of
        None \<Rightarrow> None
      | Some h \<Rightarrow> (case h_phase h of
          Resolved e result \<Rightarrow> Some (after_turn s cid h (auth_finish E (sys_server s) cid e result))
        | _ \<Rightarrow> None))"
| "sys_step A E (LTimeout cid) s =
     map_option (\<lambda>h. after_turn s cid h (recv_timeout E (sys_server s) cid)) (receiving s cid)"
| "sys_step A E (LDisconnect cid) s =
     map_option (\<lambda>h. after_turn s cid h (recv_disconnect (sys_server s) cid)) (receiving s cid)"
| "sys_step A E (LWrite cid r) s =
     (case dict_get (sys_handlers s) cid of
        None \<Rightarrow> None
      | Some h \<Rightarrow> if h_writer h \<noteq> WriterRunning then None
          else (case writer_turn (sys_server s) cid r of
                  None \<Rightarrow> None
                | Some (sv, msg, w) \<Rightarrow> Some (s\<lparr>sys_server := sv,
                    sys_handlers := dict_set (sys_handlers s) cid (h\<lparr>h_writer := w\<rparr>)\<rparr>)))"
| "sys_step A E (LClose cid) s =
     (case dict_get (sys_handlers s) cid of
        None \<Rightarrow> None
      | Some h \<Rightarrow> (case h_phase h of
          Closing code \<Rightarrow> Some (s\<lparr>sys_server := close_end (sys_server s) cid (h_writer h),
             sys_handlers := dict_del (sys_handlers s) cid\<rparr>)
        | _ \<Rightarrow> None))"

text \<open>The states a server can reach, with the labels that led there, latest first.\<close>

inductive reaches :: "auth_env \<Rightarrow> transport_env \<Rightarrow> system \<Rightarrow> label list \<Rightarrow> system \<Rightarrow> bool"
  for A E s0 where
  start: "reaches A E s0 [] s0"
| step: "reaches A E s0 ls s \<Longrightarrow> sys_step A E l s = Some s' \<Longrightarrow> reaches A E s0 (l # ls) s'"

inductive_cases reaches_NilE: "reaches A E s0 [] s"
inductive_cases reaches_ConsE: "reaches A E s0 (l # ls) s"
inductive_simps reaches_Cons: "reaches A E s0 (l # ls) s'"

fun sys_run :: "auth_env \<Rightarrow> transport_env \<Rightarrow> label list \<Rightarrow> system \<Rightarrow> system option" where
  "sys_run A E [] s = Some s"
| "sys_run A E (l # ls) s = Option.bind (sys_run A E ls s) (sys_step A E l)"

lemma reaches_run: "reaches A E s0 ls s \<longleftrightarrow> sys_run A E ls s0 = Some s"
proof (induction ls arbitrary: s)
  case Nil
  show ?case by (auto intro: start elim: reaches_NilE)
next
  case (Cons l ls)
  then show ?case by (auto simp: reaches_Cons bind_eq_Some_conv)
qed

end
