(* ===== verification/SystemInv.thy ===== *)
theory SystemInv
  imports System
begin

text \<open>
  Invariants of the reachable states, by rule induction: the manager and the tables stay
  consistent, every handler has its registered connection, whose closing flag agrees with
  the handler's phase, every authenticated connection holds an identity that a token
  resolved to, and every message under way carries the name of such an identity.
\<close>

section \<open>Steps that bring nobody in\<close>

definition same_identity :: "connection_context \<Rightarrow> connection_context \<Rightarrow> bool" where
  "same_identity c c' \<longleftrightarrow> authenticated c' = authenticated c \<and> user_id c' = user_id c \<and>
     account_username c' = account_username c \<and> session_id c' = session_id c"

definition keeps :: "manager \<Rightarrow> manager \<Rightarrow> json set \<Rightarrow> bool" where
  "keeps m m' new \<longleftrightarrow> manager_ok m' \<and> (\<forall>j. receipt_in m' j \<longrightarrow> receipt_in m j \<or> j \<in> new) \<and>
     (\<forall>x c'. get_connection m' x = Some c' \<longrightarrow> (\<exists>c. get_connection m x = Some c \<and> same_identity c c'))"

lemma same_identity_refl [simp]: "same_identity c c"
  by (simp add: same_identity_def)

lemma same_identity_trans: "same_identity a b \<Longrightarrow> same_identity b c \<Longrightarrow> same_identity a c"
  by (simp add: same_identity_def)

lemma same_standing_same_identity: "same_standing c c' \<Longrightarrow> same_identity c c'"
  by (simp add: same_identity_def same_standing_def)

lemma keeps_refl: "manager_ok m \<Longrightarrow> keeps m m new"
  by (auto simp: keeps_def)

lemma keeps_trans:
  assumes "keeps a b new" and "keeps b c new'"
  shows "keeps a c (new \<union> new')"
  unfolding keeps_def
proof (intro conjI allI impI)
  show "manager_ok c" using assms by (simp add: keeps_def)
  show "receipt_in a j \<or> j \<in> new \<union> new'" if "receipt_in c j" for j
    using assms that by (auto simp: keeps_def)
  show "\<exists>k. get_connection a x = Some k \<and> same_identity k k'" if "get_connection c x = Some k'" for x k'
    using assms that same_identity_trans unfolding keeps_def by meson
qed

lemma quiet_get_back:
  assumes "quiet m m'" and "get_connection m' x = Some c'"
  shows "\<exists>c. get_connection m x = Some c \<and> same_standing c c'"
  using assms by (cases rule: quiet_get [of m m' x]) auto

lemma turn_ok_keeps: "turn_ok m m' new \<Longrightarrow> keeps m m' new"
  unfolding turn_ok_def keeps_def using quiet_get_back same_standing_same_identity by blast

lemma close_begin_keeps:
  assumes "manager_ok (srv_manager sv)"
  shows "keeps (srv_manager sv) (srv_manager (close_begin sv cid)) {}"
  unfolding keeps_def
proof (intro conjI allI impI)
  show "\<exists>k. get_connection (srv_manager sv) x = Some k \<and> same_identity k k'"
    if "get_connection (srv_manager (close_begin sv cid)) x = Some k'" for x k'
    using that close_begin_effect(3) [OF assms, of cid x]
    by (auto simp: same_identity_def mark_closing_def split: if_splits)
qed (use close_begin_effect [OF assms] in auto)

lemma close_end_keeps:
  assumes "manager_ok (srv_manager sv)"
  shows "keeps (srv_manager sv) (srv_manager (close_end sv cid w)) {}"
  unfolding keeps_def
  using close_end_effect [OF assms] by (auto split: if_splits)

lemma after_turn_keeps:
  assumes "manager_ok (srv_manager sv)"
  shows "keeps (srv_manager sv) (srv_manager (sys_server (after_turn s cid h (sv, t)))) {}"
  using keeps_refl [OF assms] close_begin_keeps [OF assms] by (cases t) (simp_all add: after_turn_def)

lemma after_turn_auth [simp]: "sys_auth (after_turn s cid h r) = sys_auth s"
  by (cases r; cases "snd r") (simp_all add: after_turn_def)

section \<open>The history of identities\<close>

text \<open>The identities that tokens resolved to in a run, with the connections they were bound to.\<close>

definition resolved_at :: "auth_env \<Rightarrow> label \<Rightarrow> system \<Rightarrow> (ustr \<times> authenticated_identity) set" where
  "resolved_at A l s = {(cid, i). \<exists>t now h e tok. l = LResolve cid t now \<and>
     dict_get (sys_handlers s) cid = Some h \<and> h_phase h = Resolving e tok \<and>
     resolve_access_token A (a_db (sys_auth s)) t now tok = Inr i}"

fun identities :: "auth_env \<Rightarrow> transport_env \<Rightarrow> system \<Rightarrow> label list \<Rightarrow> (ustr \<times> authenticated_identity) set" where
  "identities A E s0 [] = {}"
| "identities A E s0 (l # ls) = identities A E s0 ls \<union>
     (case sys_run A E ls s0 of None \<Rightarrow> {} | Some s \<Rightarrow> resolved_at A l s)"

definition holds :: "connection_context \<Rightarrow> authenticated_identity \<Rightarrow> bool" where
  "holds c i \<longleftrightarrow> account_username c = Some (ai_username i) \<and> user_id c = Some (ai_user_id i) \<and>
     session_id c = Some (ai_session_id i)"

text \<open>The results that handlers have and have not bound yet.\<close>

definition pending :: "(ustr, handler) dict \<Rightarrow> (ustr \<times> authenticated_identity) set" where
  "pending hs = {(cid, i). \<exists>h e. dict_get hs cid = Some h \<and> h_phase h = Resolved e (Inr i)}"

definition accounted :: "manager \<Rightarrow> (ustr \<times> authenticated_identity) set \<Rightarrow> bool" where
  "accounted m ids \<longleftrightarrow>
     (\<forall>cid c. get_connection m cid = Some c \<longrightarrow> authenticated c \<longrightarrow> (\<exists>i. (cid, i) \<in> ids \<and> holds c i)) \<and>
     (\<forall>j. receipt_in m j \<longrightarrow> (\<exists>cid i. (cid, i) \<in> ids \<and> jfield j ''sender'' = Some (JStr (ai_username i))))"

lemma holds_same: "holds c i \<Longrightarrow> same_identity c c' \<Longrightarrow> holds c' i"
  by (simp add: holds_def same_identity_def)

lemma keepsD:
  assumes "keeps m m' new"
  shows "manager_ok m'" and "receipt_in m' j \<Longrightarrow> receipt_in m j \<or> j \<in> new"
    and "get_connection m' x = Some c' \<Longrightarrow> \<exists>c. get_connection m x = Some c \<and> same_identity c c'"
  using assms unfolding keeps_def by blast+

lemma accountedD:
  assumes "accounted m ids"
  shows "get_connection m cid = Some c \<Longrightarrow> authenticated c \<Longrightarrow> \<exists>i. (cid, i) \<in> ids \<and> holds c i"
    and "receipt_in m j \<Longrightarrow> \<exists>cid i. (cid, i) \<in> ids \<and> jfield j ''sender'' = Some (JStr (ai_username i))"
  using assms unfolding accounted_def by blast+

lemma accounted_keeps:
  assumes a: "accounted m ids" and k: "keeps m m' new"
    and new: "\<And>j. j \<in> new \<Longrightarrow> \<exists>cid i. (cid, i) \<in> ids \<and> jfield j ''sender'' = Some (JStr (ai_username i))"
  shows "accounted m' ids"
  unfolding accounted_def
proof (intro conjI allI impI)
  fix cid c' assume c': "get_connection m' cid = Some c'" "authenticated c'"
  from keepsD(3) [OF k c'(1)] obtain c where c: "get_connection m cid = Some c" "same_identity c c'" by blast
  then have "authenticated c" using c'(2) by (simp add: same_identity_def)
  from accountedD(1) [OF a c(1) this] c(2) show "\<exists>i. (cid, i) \<in> ids \<and> holds c' i"
    using holds_same by blast
next
  fix j assume "receipt_in m' j"
  with k new a show "\<exists>cid i. (cid, i) \<in> ids \<and> jfield j ''sender'' = Some (JStr (ai_username i))"
    unfolding keeps_def accounted_def by blast
qed

lemma pending_after_turn: "pending (sys_handlers (after_turn s cid h r)) \<subseteq> pending (sys_handlers s)"
  by (cases r; cases "snd r") (auto simp: after_turn_def pending_def split: if_splits)

lemma pending_dict_set:
  "\<forall>e i. h_phase h \<noteq> Resolved e (Inr i) \<Longrightarrow> pending (dict_set hs cid h) \<subseteq> pending hs"
  by (auto simp: pending_def split: if_splits)

lemma pending_dict_del: "pending (dict_del hs cid) \<subseteq> pending hs"
  by (auto simp: pending_def split: if_splits)

lemma pending_step:
  assumes st: "sys_step A E l s = Some s'"
  shows "pending (sys_handlers s') \<subseteq> pending (sys_handlers s) \<union> resolved_at A l s"
proof (cases l)
  case (LAuth op)
  with st show ?thesis by auto
next
  case (LConnect origin host now wnow anon cid)
  with st show ?thesis using pending_dict_set [where h = "\<lparr>h_phase = Accepting, h_writer = NoWriter\<rparr>" and hs = "sys_handlers s" and cid = cid]
    by (auto split: if_splits prod.splits sum.splits)
next
  case (LAccepted cid)
  with st show ?thesis using pending_dict_set [where h = "\<lparr>h_phase = Receiving, h_writer = WriterRunning\<rparr>" and hs = "sys_handlers s" and cid = cid]
    by (auto split: if_splits)
next
  case (LAcceptFailed cid)
  with st show ?thesis using pending_dict_del [where hs = "sys_handlers s" and cid = cid] by (auto split: if_splits)
next
  case (LFrame cid raw now wnow)
  with st obtain hn where "s' = after_turn s cid hn (recv_frame E (sys_server s) cid raw now wnow)" by auto
  then show ?thesis using pending_after_turn by blast
next
  case (LResolve cid t now)
  with st show ?thesis
    by (auto simp: pending_def resolved_at_def split: option.splits phase.splits if_splits)
next
  case (LBind cid)
  with st obtain hn e res where "s' = after_turn s cid hn (auth_finish E (sys_server s) cid e res)"
    by (auto split: option.splits phase.splits)
  then show ?thesis using pending_after_turn by blast
next
  case (LTimeout cid)
  with st obtain hn where "s' = after_turn s cid hn (recv_timeout E (sys_server s) cid)" by auto
  then show ?thesis using pending_after_turn by blast
next
  case (LDisconnect cid)
  with st obtain hn where "s' = after_turn s cid hn (recv_disconnect (sys_server s) cid)" by auto
  then show ?thesis using pending_after_turn by blast
next
  case (LWrite cid r)
  with st show ?thesis by (auto simp: pending_def split: option.splits if_splits)
next
  case (LClose cid)
  with st show ?thesis using pending_dict_del [where hs = "sys_handlers s" and cid = cid] by (auto split: option.splits phase.splits)
qed

lemma accounted_mono: "accounted m ids \<Longrightarrow> ids \<subseteq> ids' \<Longrightarrow> accounted m ids'"
  unfolding accounted_def by blast

lemma frame_receipts_sender:
  assumes "accounted m ids" and "get_connection m cid = Some c" and "j \<in> frame_receipts E c raw"
  shows "\<exists>cid i. (cid, i) \<in> ids \<and> jfield j ''sender'' = Some (JStr (ai_username i))"
proof -
  from assms(3) have "authenticated c" by (simp add: frame_receipts_def)
  from accountedD(1) [OF assms(1,2) this] obtain i where i: "(cid, i) \<in> ids" "holds c i" by blast
  then have "routing_identity c = ai_username i" by (simp add: holds_def routing_identity_def)
  with assms(3) have "jfield j ''sender'' = Some (JStr (ai_username i))"
    by (auto simp: frame_receipts_def receipt_for_def)
  with i(1) show ?thesis by blast
qed

section \<open>Every step\<close>

definition handlers_ok :: "system \<Rightarrow> bool" where
  "handlers_ok s \<longleftrightarrow> (\<forall>cid h. dict_get (sys_handlers s) cid = Some h \<longrightarrow>
     (\<exists>c. get_connection (srv_manager (sys_server s)) cid = Some c \<and>
        closing c = (\<exists>code. h_phase h = Closing code)))"

lemma handlers_okD:
  assumes "handlers_ok s" and "dict_get (sys_handlers s) cid = Some h"
  obtains c where "get_connection (srv_manager (sys_server s)) cid = Some c"
    and "closing c = (\<exists>code. h_phase h = Closing code)"
  using assms unfolding handlers_ok_def by blast

definition sys_ok :: "auth_env \<Rightarrow> transport_env \<Rightarrow> system \<Rightarrow> label list \<Rightarrow> system \<Rightarrow> bool" where
  "sys_ok A E s0 ls s \<longleftrightarrow> manager_ok (srv_manager (sys_server s)) \<and> db_ok (a_db (sys_auth s)) \<and>
     accounted (srv_manager (sys_server s)) (identities A E s0 ls) \<and>
     pending (sys_handlers s) \<subseteq> identities A E s0 ls \<and> handlers_ok s"

lemma receivingD: "receiving s cid = Some h \<Longrightarrow> dict_get (sys_handlers s) cid = Some h \<and> h_phase h = Receiving"
  by (auto simp: receiving_def split: option.splits if_splits)

text \<open>A turn that keeps the manager, followed by the handler's bookkeeping.\<close>

lemma turn_step:
  assumes k: "keeps (srv_manager (sys_server s)) (srv_manager sv) new"
  shows "keeps (srv_manager (sys_server s)) (srv_manager (sys_server (after_turn s cid h (sv, t)))) new"
  using keeps_trans [OF k after_turn_keeps [OF keepsD(1) [OF k]]] by simp

lemma frame_step:
  assumes ok: "manager_ok (srv_manager (sys_server s))"
    and c: "get_connection (srv_manager (sys_server s)) cid = Some c"
  shows "keeps (srv_manager (sys_server s))
    (srv_manager (sys_server (after_turn s cid h (recv_frame E (sys_server s) cid raw now wnow))))
    (frame_receipts E c raw)"
proof -
  obtain sv t where r: "recv_frame E (sys_server s) cid raw now wnow = (sv, t)" by fastforce
  with recv_frame_turn [OF ok c, of E raw now wnow] have "turn_ok (srv_manager (sys_server s)) (srv_manager sv)
      (frame_receipts E c raw)" by simp
  from turn_step [OF turn_ok_keeps [OF this]] r show ?thesis by simp
qed

text \<open>Resolving a token: the manager with the identity bound is kept.\<close>

lemma resolve_step:
  assumes ok: "manager_ok (srv_manager (sys_server s))"
  shows "keeps (bound (srv_manager (sys_server s)) cid res)
    (srv_manager (sys_server (after_turn s cid h (auth_finish E (sys_server s) cid e res)))) {}"
proof -
  let ?m = "srv_manager (sys_server s)"
  obtain sv t where r: "auth_finish E (sys_server s) cid e res = (sv, t)" by fastforce
  note ef = auth_finish_effect [OF ok, where E = E and cid = cid and e = e and result = res, unfolded r fst_conv]
  have same: "receipt_in (bound ?m cid res) j = receipt_in ?m j" for j
    by (simp add: bound_def receipt_in_def split: sum.split)
  have "keeps (bound ?m cid res) (srv_manager sv) {}"
    unfolding keeps_def using ef same quiet_get_back [OF ef(2)] same_standing_same_identity by blast
  from keeps_trans [OF this after_turn_keeps [OF ef(1)]] show ?thesis by (simp add: r)
qed

lemma accounted_bound:
  assumes a: "accounted m ids" and i: "\<And>i. res = Inr i \<Longrightarrow> (cid, i) \<in> ids"
  shows "accounted (bound m cid res) ids"
proof (cases res)
  case (Inl x)
  with a show ?thesis by (simp add: bound_def)
next
  case (Inr i)
  have "receipt_in (bound m cid res) j = receipt_in m j" for j
    by (simp add: Inr bound_def receipt_in_def)
  moreover have "\<exists>i. (x, i) \<in> ids \<and> holds c i"
    if "get_connection (bound m cid res) x = Some c" "authenticated c" for x c
  proof (cases "x = cid")
    case True
    with that i [OF Inr] show ?thesis
      by (auto simp: Inr bound_def get_connection_def bind_identity_get holds_def)
  next
    case False
    with that accountedD(1) [OF a] show ?thesis
      by (simp add: Inr bound_def get_connection_def bind_identity_get)
  qed
  ultimately show ?thesis using accountedD(2) [OF a] unfolding accounted_def by blast
qed

lemma step_accounted:
  assumes st: "sys_step A E l s = Some s'" and ok: "manager_ok (srv_manager (sys_server s))"
    and a: "accounted (srv_manager (sys_server s)) ids" and h: "handlers_ok s"
    and p: "pending (sys_handlers s) \<subseteq> ids"
  shows "manager_ok (srv_manager (sys_server s'))"
    and "accounted (srv_manager (sys_server s')) (ids \<union> resolved_at A l s)"
proof -
  let ?m = "srv_manager (sys_server s)" and ?m' = "srv_manager (sys_server s')"
  have via: "manager_ok ?m' \<and> accounted ?m' (ids \<union> resolved_at A l s)"
    if "keeps ?m ?m' new" "\<And>j. j \<in> new \<Longrightarrow> \<exists>cid i. (cid, i) \<in> ids \<and>
        jfield j ''sender'' = Some (JStr (ai_username i))" for new
    using accounted_mono [OF accounted_keeps [OF a that]] keepsD(1) [OF that(1)] by blast
  have "manager_ok ?m' \<and> accounted ?m' (ids \<union> resolved_at A l s)"
  proof (cases l)
    case (LAuth op)
    with st have "?m' = ?m" by auto
    with via [of "{}"] keeps_refl [OF ok] show ?thesis by simp
  next
    case (LConnect origin host now wnow anon cid)
    with st obtain sv r where c: "ws_connect (sys_server s) origin host now wnow anon cid = (sv, r)"
      and fresh: "get_connection ?m cid = None" and m': "?m' = srv_manager sv"
      by (auto split: if_splits prod.splits sum.splits)
    show ?thesis
    proof (cases r)
      case (Inl code)
      then have "?m' = ?m" using ws_connect_Inl c m' by metis
      with via [of "{}"] keeps_refl [OF ok] show ?thesis by simp
    next
      case (Inr cid')
      note ef = ws_connect_Inr [OF ok fresh c [unfolded Inr]]
      have "\<exists>i. (x, i) \<in> ids \<and> holds k i" if k: "get_connection ?m' x = Some k" "authenticated k" for x k
      proof (cases "x = cid")
        case True
        with ef(5) k m' show ?thesis by auto
      next
        case False
        with ef(6) [OF False] k m' accountedD(1) [OF a] show ?thesis by simp
      qed
      with ef(4) m' accountedD(2) [OF a] have "accounted ?m' ids" unfolding accounted_def by metis
      with accounted_mono ef(3) m' show ?thesis by auto
    qed
  next
    case (LAccepted cid)
    with st have "?m' = srv_manager (ws_accepted E (sys_server s) cid)" by (auto split: if_splits)
    with via [of "{}"] turn_ok_keeps [OF ws_accepted_turn [OF ok]] show ?thesis by simp
  next
    case (LAcceptFailed cid)
    with st have "?m' = ?m" by (auto split: if_splits)
    with via [of "{}"] keeps_refl [OF ok] show ?thesis by simp
  next
    case (LFrame cid raw now wnow)
    with st obtain hn where hn: "receiving s cid = Some hn"
      and s': "s' = after_turn s cid hn (recv_frame E (sys_server s) cid raw now wnow)" by auto
    from receivingD [OF hn] obtain c where c: "get_connection ?m cid = Some c"
      using handlers_okD [OF h] by metis
    have "keeps ?m ?m' (frame_receipts E c raw)" unfolding s' by (rule frame_step [OF ok c])
    from via [OF this frame_receipts_sender [OF a c]] show ?thesis .
  next
    case (LResolve cid t now)
    with st have "?m' = ?m" by (auto split: option.splits phase.splits)
    with via [of "{}"] keeps_refl [OF ok] show ?thesis by simp
  next
    case (LBind cid)
    with st obtain hn e res where hn: "dict_get (sys_handlers s) cid = Some hn" "h_phase hn = Resolved e res"
      and s': "s' = after_turn s cid hn (auth_finish E (sys_server s) cid e res)"
      by (auto split: option.splits phase.splits)
    have "accounted (bound ?m cid res) (ids \<union> resolved_at A l s)"
      by (rule accounted_bound [OF accounted_mono [OF a]]) (use hn p in \<open>auto simp: pending_def\<close>)
    moreover have k: "keeps (bound ?m cid res) ?m' {}" unfolding s' by (rule resolve_step [OF ok])
    ultimately have "accounted ?m' (ids \<union> resolved_at A l s)" by (rule accounted_keeps) simp
    with keepsD(1) [OF k] show ?thesis by blast
  next
    case (LTimeout cid)
    with st obtain hn where s': "s' = after_turn s cid hn (recv_timeout E (sys_server s) cid)" by auto
    obtain sv t where r: "recv_timeout E (sys_server s) cid = (sv, t)" by fastforce
    with recv_timeout_turn [OF ok, where E = E and cid = cid] have "turn_ok ?m (srv_manager sv) {}" by simp
    from via [of "{}"] turn_step [OF turn_ok_keeps [OF this], of cid hn t] show ?thesis by (simp add: s' r)
  next
    case (LDisconnect cid)
    with st obtain hn where s': "s' = after_turn s cid hn (sys_server s, CloseWith CLOSE_NORMAL)"
      by (auto simp: recv_disconnect_def)
    from via [of "{}"] turn_step [OF keeps_refl [OF ok], of cid hn "CloseWith CLOSE_NORMAL"]
    show ?thesis by (simp add: s')
  next
    case (LWrite cid r)
    with st obtain sv msg w where "writer_turn (sys_server s) cid r = Some (sv, msg, w)"
      and m': "?m' = srv_manager sv"
      by (auto split: option.splits if_splits)
    from turn_ok_keeps [OF writer_turn_effect(1) [OF ok this(1)]] via [of "{}"] m' show ?thesis by simp
  next
    case (LClose cid)
    with st obtain w where "?m' = srv_manager (close_end (sys_server s) cid w)"
      by (auto split: option.splits phase.splits)
    with close_end_keeps [OF ok, of cid w] via [of "{}"] show ?thesis by simp
  qed
  then show "manager_ok ?m'" and "accounted ?m' (ids \<union> resolved_at A l s)" by blast+
qed

section \<open>Handlers and their connections\<close>

text \<open>Every connection is still there, with its closing flag.\<close>

definition still_open :: "manager \<Rightarrow> manager \<Rightarrow> bool" where
  "still_open m m' \<longleftrightarrow> (\<forall>x c. get_connection m x = Some c \<longrightarrow>
     (\<exists>c'. get_connection m' x = Some c' \<and> closing c' = closing c))"

lemma still_open_refl [simp]: "still_open m m"
  by (auto simp: still_open_def)

lemma still_openD: "still_open m m' \<Longrightarrow> get_connection m x = Some c \<Longrightarrow>
    \<exists>c'. get_connection m' x = Some c' \<and> closing c' = closing c"
  unfolding still_open_def by blast

lemma quiet_still_open: "quiet m m' \<Longrightarrow> still_open m m'"
  unfolding still_open_def
proof (intro allI impI)
  fix x c assume "quiet m m'" and c: "get_connection m x = Some c"
  then show "\<exists>c'. get_connection m' x = Some c' \<and> closing c' = closing c"
    by (cases rule: quiet_get [of m m' x]) (auto simp: same_standing_def)
qed

lemma bound_still_open: "still_open m (bound m cid res)"
  by (auto simp: still_open_def bound_def get_connection_def bind_identity_get split: sum.split)

lemma still_open_trans: "still_open a b \<Longrightarrow> still_open b c \<Longrightarrow> still_open a c"
  unfolding still_open_def by metis

lemma handlers_after_turn:
  assumes h: "handlers_ok s" and hn: "dict_get (sys_handlers s) cid = Some hn"
    and open_phase: "\<And>code. h_phase hn \<noteq> Closing code" and ok: "manager_ok (srv_manager sv)"
    and so: "still_open (srv_manager (sys_server s)) (srv_manager sv)"
  shows "handlers_ok (after_turn s cid hn (sv, t))"
  unfolding handlers_ok_def
proof (intro allI impI)
  fix x k assume k: "dict_get (sys_handlers (after_turn s cid hn (sv, t))) x = Some k"
  from handlers_okD [OF h hn] open_phase obtain c where
    c: "get_connection (srv_manager (sys_server s)) cid = Some c" "\<not> closing c" by metis
  from still_openD [OF so c(1)] c(2) obtain c' where
    c': "get_connection (srv_manager sv) cid = Some c'" "\<not> closing c'" by auto
  note cb = close_begin_effect(3) [OF ok, of cid]
  show "\<exists>c. get_connection (srv_manager (sys_server (after_turn s cid hn (sv, t)))) x = Some c \<and>
      closing c = (\<exists>code. h_phase k = Closing code)"
  proof (cases "x = cid")
    case True
    with k hn c' open_phase show ?thesis
      by (cases t) (auto simp: after_turn_def cb mark_closing_def)
  next
    case False
    with k have "dict_get (sys_handlers s) x = Some k" by (cases t) (simp_all add: after_turn_def)
    from handlers_okD [OF h this] obtain d where
      d: "get_connection (srv_manager (sys_server s)) x = Some d" "closing d = (\<exists>code. h_phase k = Closing code)" .
    from still_openD [OF so d(1)] d(2) False show ?thesis
      by (cases t) (simp_all add: after_turn_def cb)
  qed
qed

text \<open>A step that changes nothing but the phase of a handler, and not to or from closing.\<close>

lemma handlers_set_phase:
  assumes h: "handlers_ok s" and hn: "dict_get (sys_handlers s) cid = Some hn"
    and open_phase: "\<And>code. h_phase hn \<noteq> Closing code" "\<And>code. h_phase hn' \<noteq> Closing code"
    and so: "still_open (srv_manager (sys_server s)) (srv_manager sv)"
  shows "handlers_ok (s\<lparr>sys_server := sv, sys_handlers := dict_set (sys_handlers s) cid hn'\<rparr>)"
  unfolding handlers_ok_def
proof (intro allI impI)
  let ?s = "s\<lparr>sys_server := sv, sys_handlers := dict_set (sys_handlers s) cid hn'\<rparr>"
  fix x k assume k: "dict_get (sys_handlers ?s) x = Some k"
  then obtain k0 where k0: "dict_get (sys_handlers s) x = Some k0"
    "(\<exists>code. h_phase k0 = Closing code) = (\<exists>code. h_phase k = Closing code)"
    using hn open_phase by (cases "x = cid") auto
  from handlers_okD [OF h k0(1)] obtain d where d: "get_connection (srv_manager (sys_server s)) x = Some d"
    "closing d = (\<exists>code. h_phase k0 = Closing code)" .
  from still_openD [OF so d(1)] d(2) k0(2) show "\<exists>c. get_connection (srv_manager (sys_server ?s)) x = Some c \<and>
      closing c = (\<exists>code. h_phase k = Closing code)" by auto
qed

lemma acceptingD: "accepting s cid \<Longrightarrow> \<exists>h. dict_get (sys_handlers s) cid = Some h \<and> h_phase h = Accepting"
  by (auto simp: accepting_def split: option.splits)

lemma step_handlers:
  assumes st: "sys_step A E l s = Some s'" and ok: "manager_ok (srv_manager (sys_server s))"
    and h: "handlers_ok s"
  shows "handlers_ok s'"
proof (cases l)
  case (LAuth op)
  with st h show ?thesis by (auto simp: handlers_ok_def)
next
  case (LConnect origin host now wnow anon cid)
  with st obtain sv r where c: "ws_connect (sys_server s) origin host now wnow anon cid = (sv, r)"
    and fresh: "get_connection (srv_manager (sys_server s)) cid = None"
    by (auto split: if_splits prod.splits sum.splits)
  show ?thesis
  proof (cases r)
    case (Inl code)
    with st LConnect c ws_connect_Inl [of "sys_server s" origin host now wnow anon cid sv code] h
    show ?thesis by (auto simp: handlers_ok_def split: if_splits)
  next
    case (Inr cid')
    note ef = ws_connect_Inr [OF ok fresh c [unfolded Inr]]
    have s': "s' = s\<lparr>sys_server := sv,
        sys_handlers := dict_set (sys_handlers s) cid \<lparr>h_phase = Accepting, h_writer = NoWriter\<rparr>\<rparr>"
      using st LConnect c Inr by (auto split: if_splits)
    show ?thesis unfolding handlers_ok_def
    proof (intro allI impI)
      fix x k assume k: "dict_get (sys_handlers s') x = Some k"
      show "\<exists>c. get_connection (srv_manager (sys_server s')) x = Some c \<and> closing c = (\<exists>code. h_phase k = Closing code)"
      proof (cases "x = cid")
        case True
        with k ef(5) show ?thesis by (auto simp: s')
      next
        case False
        with k have "dict_get (sys_handlers s) x = Some k" by (simp add: s')
        from handlers_okD [OF h this] ef(6) [OF False] show ?thesis by (metis s' select_convs(2)
            system.select_convs(2) system.update_convs(2) system.update_convs(3) system.surjective)
      qed
    qed
  qed
next
  case (LAccepted cid)
  with st obtain hn where hn: "dict_get (sys_handlers s) cid = Some hn" "h_phase hn = Accepting"
    and s': "s' = s\<lparr>sys_server := ws_accepted E (sys_server s) cid,
        sys_handlers := dict_set (sys_handlers s) cid \<lparr>h_phase = Receiving, h_writer = WriterRunning\<rparr>\<rparr>"
    using acceptingD [of s cid] by (auto split: if_splits)
  show ?thesis unfolding s'
    by (rule handlers_set_phase [OF h hn(1) _ _ quiet_still_open [OF turn_okD(2) [OF ws_accepted_turn [OF ok]]]])
       (simp_all add: hn)
next
  case (LAcceptFailed cid)
  with st have "s' = s\<lparr>sys_handlers := dict_del (sys_handlers s) cid\<rparr>" by (auto split: if_splits)
  with h show ?thesis by (auto simp: handlers_ok_def split: if_splits)
next
  case (LFrame cid raw now wnow)
  with st obtain hn where hn: "receiving s cid = Some hn"
    and s': "s' = after_turn s cid hn (recv_frame E (sys_server s) cid raw now wnow)" by auto
  obtain sv t where r: "recv_frame E (sys_server s) cid raw now wnow = (sv, t)" by fastforce
  from receivingD [OF hn] obtain c where "get_connection (srv_manager (sys_server s)) cid = Some c"
    using handlers_okD [OF h] by metis
  from recv_frame_turn [OF ok this, where E = E and raw = raw and now = now and wall_now = wnow] r
  have "turn_ok (srv_manager (sys_server s)) (srv_manager sv) (frame_receipts E c raw)" by simp
  from handlers_after_turn [OF h _ _ turn_okD(1) [OF this] quiet_still_open [OF turn_okD(2) [OF this]]]
    receivingD [OF hn] show ?thesis by (simp add: s' r)
next
  case (LResolve cid t now)
  with st obtain hn e tok where hn: "dict_get (sys_handlers s) cid = Some hn" "h_phase hn = Resolving e tok"
    and s': "s' = s\<lparr>sys_handlers := dict_set (sys_handlers s) cid
       (hn\<lparr>h_phase := Resolved e (resolve_access_token A (a_db (sys_auth s)) t now tok)\<rparr>)\<rparr>"
    by (auto split: option.splits phase.splits)
  have "handlers_ok (s\<lparr>sys_server := sys_server s, sys_handlers := sys_handlers s'\<rparr>)"
    unfolding s' using handlers_set_phase [where sv = "sys_server s", OF h hn(1) _ _ still_open_refl] hn(2) by simp
  then show ?thesis by (simp add: s')
next
  case (LBind cid)
  with st obtain hn e res where hn: "dict_get (sys_handlers s) cid = Some hn" "h_phase hn = Resolved e res"
    and s': "s' = after_turn s cid hn (auth_finish E (sys_server s) cid e res)"
    by (auto split: option.splits phase.splits)
  obtain sv u where r: "auth_finish E (sys_server s) cid e res = (sv, u)" by fastforce
  note ef = auth_finish_effect [OF ok, where E = E and cid = cid and e = e and result = res, unfolded r fst_conv]
  have "still_open (srv_manager (sys_server s)) (srv_manager sv)"
    using still_open_trans [OF bound_still_open quiet_still_open [OF ef(2)]] .
  from handlers_after_turn [OF h hn(1) _ ef(1) this] hn(2) show ?thesis by (simp add: s' r)
next
  case (LTimeout cid)
  with st obtain hn where hn: "receiving s cid = Some hn"
    and s': "s' = after_turn s cid hn (recv_timeout E (sys_server s) cid)" by auto
  obtain sv t where r: "recv_timeout E (sys_server s) cid = (sv, t)" by fastforce
  with recv_timeout_turn [OF ok, where E = E and cid = cid]
  have t: "turn_ok (srv_manager (sys_server s)) (srv_manager sv) {}" by simp
  from handlers_after_turn [OF h _ _ turn_okD(1) [OF t] quiet_still_open [OF turn_okD(2) [OF t]]]
    receivingD [OF hn] show ?thesis by (simp add: s' r)
next
  case (LDisconnect cid)
  with st obtain hn where hn: "receiving s cid = Some hn"
    and s': "s' = after_turn s cid hn (sys_server s, CloseWith CLOSE_NORMAL)"
    by (auto simp: recv_disconnect_def)
  from handlers_after_turn [OF h _ _ ok still_open_refl] receivingD [OF hn] show ?thesis by (simp add: s')
next
  case (LWrite cid r)
  with st obtain hn sv msg w where hn: "dict_get (sys_handlers s) cid = Some hn"
    and w: "writer_turn (sys_server s) cid r = Some (sv, msg, w)"
    and s': "s' = s\<lparr>sys_server := sv, sys_handlers := dict_set (sys_handlers s) cid (hn\<lparr>h_writer := w\<rparr>)\<rparr>"
    by (auto split: option.splits if_splits)
  note so = still_openD [OF quiet_still_open [OF turn_okD(2) [OF writer_turn_effect(1) [OF ok w]]]]
  show ?thesis unfolding handlers_ok_def
  proof (intro allI impI)
    fix x k assume "dict_get (sys_handlers s') x = Some k"
    then obtain k0 where "dict_get (sys_handlers s) x = Some k0" "h_phase k0 = h_phase k"
      using hn by (auto simp: s' split: if_splits)
    with handlers_okD [OF h this(1)] so [of x] show "\<exists>c. get_connection (srv_manager (sys_server s')) x = Some c \<and>
        closing c = (\<exists>code. h_phase k = Closing code)" by (auto simp: s') metis
  qed
next
  case (LClose cid)
  with st obtain hn where "dict_get (sys_handlers s) cid = Some hn"
    and s': "s' = s\<lparr>sys_server := close_end (sys_server s) cid (h_writer hn),
      sys_handlers := dict_del (sys_handlers s) cid\<rparr>"
    by (auto split: option.splits phase.splits)
  show ?thesis unfolding handlers_ok_def
  proof (intro allI impI)
    fix x k assume k: "dict_get (sys_handlers s') x = Some k"
    then have "x \<noteq> cid" "dict_get (sys_handlers s) x = Some k" by (auto simp: s' split: if_splits)
    from handlers_okD [OF h this(2)] this(1) close_end_effect(3) [OF ok, of cid "h_writer hn" x]
    show "\<exists>c. get_connection (srv_manager (sys_server s')) x = Some c \<and>
        closing c = (\<exists>code. h_phase k = Closing code)" by (simp add: s') metis
  qed
qed

lemma step_auth:
  "sys_step A E l s = Some s' \<Longrightarrow>
     sys_auth s' = (case l of LAuth op \<Rightarrow> auth_step A op (sys_auth s) | _ \<Rightarrow> sys_auth s)"
  by (cases l) (auto split: option.splits if_splits prod.splits sum.splits phase.splits)

text \<open>The invariant of the reachable states.\<close>

lemma reaches_ok:
  assumes r: "reaches A E s0 ls s" and init: "sys_ok A E s0 [] s0"
  shows "sys_ok A E s0 ls s"
  using r
proof (induction rule: reaches.induct)
  case start
  show ?case by (rule init)
next
  case (step ls s l s')
  have run: "sys_run A E ls s0 = Some s" using step.hyps(1) by (simp add: reaches_run)
  have ids: "identities A E s0 (l # ls) = identities A E s0 ls \<union> resolved_at A l s" by (simp add: run)
  from step.IH have ok: "manager_ok (srv_manager (sys_server s))" "db_ok (a_db (sys_auth s))"
    "accounted (srv_manager (sys_server s)) (identities A E s0 ls)" "handlers_ok s"
    "pending (sys_handlers s) \<subseteq> identities A E s0 ls"
    by (simp_all add: sys_ok_def)
  have "db_ok (a_db (sys_auth s'))"
    using step_auth [OF step.hyps(2)] ok(2) auth_step_db_ok by (cases l) auto
  moreover have "pending (sys_handlers s') \<subseteq> identities A E s0 (l # ls)"
    using pending_step [OF step.hyps(2)] ok(5) ids by blast
  ultimately show ?case
    using step_accounted [OF step.hyps(2) ok(1,3,4,5)] step_handlers [OF step.hyps(2) ok(1,4)] ids
    by (simp add: sys_ok_def)
qed

end
