(* ===== verification/Registry.thy ===== *)
theory Registry
  imports SystemInv
begin

text \<open>
  Which connections the registry holds along a run: a step of the system touches the standing
  of no connection but that of the handler it belongs to, and registrations and handlers come
  and go together except where a writer task or the acceptance of an upgrade failed.
\<close>

section \<open>What a step leaves alone\<close>

lemma standing_quiet:
  assumes "quiet m m'" and "get_connection m x = Some c"
  obtains c' where "get_connection m' x = Some c'" and "same_standing c c'"
  using assms by (cases rule: quiet_get [of m m' x]) auto

lemma quiet_present: "quiet m m' \<Longrightarrow> get_connection m' x = None \<longleftrightarrow> get_connection m x = None"
  by (erule quiet_get [of m m' x]) auto

lemma bound_present [simp]: "get_connection (bound m cid r) x = None \<longleftrightarrow> get_connection m x = None"
  by (auto simp: bound_def get_connection_def bind_identity_get split: sum.split option.splits)

lemma bound_other: "x \<noteq> cid \<Longrightarrow> get_connection (bound m cid r) x = get_connection m x"
  by (simp add: bound_def get_connection_def bind_identity_get split: sum.split)

lemma after_turn_get:
  assumes "manager_ok (srv_manager sv)"
  shows "get_connection (srv_manager (sys_server (after_turn s cid h (sv, t)))) x = None \<longleftrightarrow>
      get_connection (srv_manager sv) x = None"
    and "x \<noteq> cid \<Longrightarrow> get_connection (srv_manager (sys_server (after_turn s cid h (sv, t)))) x =
      get_connection (srv_manager sv) x"
  using close_begin_effect(3) [OF assms, of cid x] by (cases t; auto simp: after_turn_def)+

lemma after_turn_handlers:
  assumes "dict_get (sys_handlers s) cid = Some h"
  shows "dict_get (sys_handlers (after_turn s cid h r)) x = None \<longleftrightarrow> dict_get (sys_handlers s) x = None"
    and "dict_get (sys_handlers (after_turn s cid h r)) x = Some k \<Longrightarrow>
      \<exists>k0. dict_get (sys_handlers s) x = Some k0 \<and> h_writer k = h_writer k0"
  using assms by (cases r; cases "snd r"; auto simp: after_turn_def split: if_splits)+

lemma ws_connect_limits:
  "limits (srv_manager (fst (ws_connect sv origin host now wnow anon cid))) = limits (srv_manager sv)"
  by (auto simp: ws_connect_def reject_upgrade_def register_def Let_def split: prod.splits sum.splits if_splits)

lemma close_end_limits: "limits (srv_manager (close_end sv cid w)) = limits (srv_manager sv)"
  by (simp add: close_end_def unregister_def Let_def split: option.split prod.split)

text \<open>
  The steps by shape: an operation of the service, an upgrade, its acceptance, a turn of a
  handler that keeps every standing up to the binding of its own identity, the answer about a
  token, a turn of a writer, the end of a handler, and the end of one whose upgrade was not
  accepted.
\<close>

lemma step_shape [consumes 3, case_names service joined accepted turn answered writer ended dropped]:
  assumes st: "sys_step A E l s = Some s'" and ok: "manager_ok (srv_manager (sys_server s))"
    and h: "handlers_ok s"
  obtains (service) "srv_manager (sys_server s') = srv_manager (sys_server s)" "sys_handlers s' = sys_handlers s"
  | (joined) cid where "get_connection (srv_manager (sys_server s)) cid = None"
      and "dict_get (sys_handlers s) cid = None"
      and "get_connection (srv_manager (sys_server s')) cid \<noteq> None"
      and "\<And>x. x \<noteq> cid \<Longrightarrow> get_connection (srv_manager (sys_server s')) x = get_connection (srv_manager (sys_server s)) x"
      and "sys_handlers s' = dict_set (sys_handlers s) cid \<lparr>h_phase = Accepting, h_writer = NoWriter\<rparr>"
      and "limits (srv_manager (sys_server s')) = limits (srv_manager (sys_server s))"
  | (accepted) cid hn where "dict_get (sys_handlers s) cid = Some hn" and "h_phase hn = Accepting"
      and "quiet (srv_manager (sys_server s)) (srv_manager (sys_server s'))"
      and "sys_handlers s' = dict_set (sys_handlers s) cid \<lparr>h_phase = Receiving, h_writer = WriterRunning\<rparr>"
  | (turn) cid hn sv t r where "dict_get (sys_handlers s) cid = Some hn"
      and "s' = after_turn s cid hn (sv, t)" and "manager_ok (srv_manager sv)"
      and "quiet (bound (srv_manager (sys_server s)) cid r) (srv_manager sv)"
  | (answered) cid hn p where "dict_get (sys_handlers s) cid = Some hn" and "sys_server s' = sys_server s"
      and "sys_handlers s' = dict_set (sys_handlers s) cid (hn\<lparr>h_phase := p\<rparr>)" and "p \<noteq> Accepting"
  | (writer) cid hn w where "dict_get (sys_handlers s) cid = Some hn" and "h_writer hn = WriterRunning"
      and "quiet (srv_manager (sys_server s)) (srv_manager (sys_server s'))"
      and "sys_handlers s' = dict_set (sys_handlers s) cid (hn\<lparr>h_writer := w\<rparr>)"
      and "w = WriterFailed \<Longrightarrow> l = LWrite cid SendFailed"
  | (ended) cid hn code where "dict_get (sys_handlers s) cid = Some hn" and "h_phase hn = Closing code"
      and "\<And>x. get_connection (srv_manager (sys_server s')) x =
        (if x = cid \<and> h_writer hn \<noteq> WriterFailed then None else get_connection (srv_manager (sys_server s)) x)"
      and "sys_handlers s' = dict_del (sys_handlers s) cid"
      and "limits (srv_manager (sys_server s')) = limits (srv_manager (sys_server s))"
  | (dropped) cid hn where "dict_get (sys_handlers s) cid = Some hn" and "l = LAcceptFailed cid"
      and "sys_server s' = sys_server s" and "sys_handlers s' = dict_del (sys_handlers s) cid"
proof -
  let ?m = "srv_manager (sys_server s)"
  have none: "bound ?m cid (Inl TypeError) = ?m" for cid by (simp add: bound_def)
  show thesis
  proof (cases l)
    case (LAuth op)
    with st show thesis by (intro service) auto
  next
    case (LConnect origin host now wnow anon cid)
    with st obtain sv r where c: "ws_connect (sys_server s) origin host now wnow anon cid = (sv, r)"
      and fresh: "get_connection ?m cid = None" "dict_get (sys_handlers s) cid = None"
      by (auto split: if_splits prod.splits sum.splits)
    show thesis
    proof (cases r)
      case (Inl code)
      with st LConnect c fresh ws_connect_Inl [of "sys_server s" origin host now wnow anon cid sv code]
      show thesis by (intro service) auto
    next
      case (Inr cid')
      have "s' = s\<lparr>sys_server := sv,
          sys_handlers := dict_set (sys_handlers s) cid \<lparr>h_phase = Accepting, h_writer = NoWriter\<rparr>\<rparr>"
        using st LConnect c fresh Inr by simp
      moreover have "limits (srv_manager sv) = limits ?m" using ws_connect_limits [of "sys_server s"] c by (metis fst_conv)
      ultimately show thesis using ws_connect_Inr(5,6) [OF ok fresh(1) c [unfolded Inr]] fresh
        by (intro joined [of cid]) auto
    qed
  next
    case (LAccepted cid)
    with st acceptingD [of s cid] turn_okD(2) [OF ws_accepted_turn [OF ok, of E cid]] show thesis
      by (auto split: if_splits intro: accepted)
  next
    case (LAcceptFailed cid)
    with st acceptingD [of s cid] show thesis by (auto split: if_splits intro: dropped)
  next
    case (LFrame cid raw now wnow)
    with st obtain hn where hn: "receiving s cid = Some hn"
      and s': "s' = after_turn s cid hn (recv_frame E (sys_server s) cid raw now wnow)" by auto
    from receivingD [OF hn] obtain c where "get_connection ?m cid = Some c" using handlers_okD [OF h] by metis
    from recv_frame_turn [OF ok this, where E = E and raw = raw and now = now and wall_now = wnow]
    show thesis using receivingD [OF hn] s' none turn_okD
      by (intro turn [of cid hn "fst (recv_frame E (sys_server s) cid raw now wnow)"
          "snd (recv_frame E (sys_server s) cid raw now wnow)" "Inl TypeError"]) auto
  next
    case (LResolve cid t now)
    with st show thesis by (auto split: option.splits phase.splits intro: answered)
  next
    case (LBind cid)
    with st obtain hn e res where "dict_get (sys_handlers s) cid = Some hn"
      and "s' = after_turn s cid hn (auth_finish E (sys_server s) cid e res)"
      by (auto split: option.splits phase.splits)
    with auth_finish_effect(1,2) [OF ok, where E = E and cid = cid and e = e and result = res]
    show thesis
      by (intro turn [of cid hn "fst (auth_finish E (sys_server s) cid e res)"
          "snd (auth_finish E (sys_server s) cid e res)" res]) auto
  next
    case (LTimeout cid)
    with st obtain hn where hn: "receiving s cid = Some hn"
      and s': "s' = after_turn s cid hn (recv_timeout E (sys_server s) cid)" by auto
    with recv_timeout_turn [OF ok, where E = E and cid = cid] receivingD [OF hn] none turn_okD
    show thesis
      by (intro turn [of cid hn "fst (recv_timeout E (sys_server s) cid)" "snd (recv_timeout E (sys_server s) cid)"
          "Inl TypeError"]) auto
  next
    case (LDisconnect cid)
    with st obtain hn where hn: "receiving s cid = Some hn"
      and s': "s' = after_turn s cid hn (sys_server s, CloseWith CLOSE_NORMAL)"
      by (auto simp: recv_disconnect_def)
    with receivingD [OF hn] none ok show thesis
      by (intro turn [of cid hn "sys_server s" "CloseWith CLOSE_NORMAL" "Inl TypeError"]) auto
  next
    case (LWrite cid r)
    with st obtain hn sv msg w where hn: "dict_get (sys_handlers s) cid = Some hn" "h_writer hn = WriterRunning"
      and w: "writer_turn (sys_server s) cid r = Some (sv, msg, w)"
      and s': "s' = s\<lparr>sys_server := sv, sys_handlers := dict_set (sys_handlers s) cid (hn\<lparr>h_writer := w\<rparr>)\<rparr>"
      by (auto split: option.splits if_splits)
    have "w = WriterFailed \<Longrightarrow> r = SendFailed"
      using w by (auto simp: writer_turn_def Let_def split: option.splits send_result.splits)
    with turn_okD(2) [OF writer_turn_effect(1) [OF ok w]] hn s' LWrite show thesis
      by (intro writer [of cid hn w]) auto
  next
    case (LClose cid)
    with st obtain hn code where "dict_get (sys_handlers s) cid = Some hn" "h_phase hn = Closing code"
      and "s' = s\<lparr>sys_server := close_end (sys_server s) cid (h_writer hn),
        sys_handlers := dict_del (sys_handlers s) cid\<rparr>"
      by (auto split: option.splits phase.splits)
    with close_end_effect(3) [OF ok, of cid "h_writer hn"] close_end_limits [of "sys_server s" cid "h_writer hn"]
    show thesis by (intro ended [of cid hn code]) auto
  qed
qed

section \<open>A connection without a handler stays as it is\<close>

lemma step_stranded:
  assumes "sys_step A E l s = Some s'" and "manager_ok (srv_manager (sys_server s))" and "handlers_ok s"
    and "get_connection (srv_manager (sys_server s)) x = Some c" and "dict_get (sys_handlers s) x = None"
  shows "\<exists>c'. get_connection (srv_manager (sys_server s')) x = Some c' \<and> same_standing c c' \<and>
    dict_get (sys_handlers s') x = None"
  using assms(1-3)
proof (cases rule: step_shape)
  case (turn cid hn sv t r)
  with assms(5) have "x \<noteq> cid" by auto
  from standing_quiet [OF turn(4), of x c] bound_other [OF this, of "srv_manager (sys_server s)" r] assms(4)
  obtain c' where "get_connection (srv_manager sv) x = Some c'" "same_standing c c'" by metis
  with after_turn_get(2) [OF turn(3) \<open>x \<noteq> cid\<close>] after_turn_handlers(1) [OF turn(1)] assms(5)
  show ?thesis unfolding turn(2) by simp
next
  case (writer cid hn w)
  with assms(5) have "dict_get (sys_handlers s') x = None" by auto
  with standing_quiet [OF writer(3) assms(4)] show ?thesis by blast
next
  case service
  with assms(4,5) show ?thesis by simp
next
  case (joined cid)
  with assms(4,5) have "x \<noteq> cid" by auto
  with joined(4,5) assms(4,5) show ?thesis by simp
next
  case (ended cid hn code)
  with assms(5) have "x \<noteq> cid" by auto
  with ended(3,4) assms(4,5) show ?thesis by simp
next
  case (accepted cid hn)
  with assms(5) have "dict_get (sys_handlers s') x = None" by auto
  with standing_quiet [OF accepted(3) assms(4)] show ?thesis by blast
next
  case (answered cid hn p)
  with assms(4,5) show ?thesis by auto
next
  case (dropped cid hn)
  with assms(4,5) show ?thesis by auto
qed

lemma reaches_trans: "reaches A E s ls' s' \<Longrightarrow> reaches A E s0 ls s \<Longrightarrow> reaches A E s0 (ls' @ ls) s'"
  by (induction rule: reaches.induct) (auto intro: reaches.step)

lemma sys_okD:
  assumes "sys_ok A E s0 ls s"
  shows "manager_ok (srv_manager (sys_server s))" and "db_ok (a_db (sys_auth s))" and "handlers_ok s"
  using assms by (simp_all add: sys_ok_def)

lemma reaches_stranded:
  assumes r: "reaches A E s ls' s'" and r0: "reaches A E s0 ls s" and init: "sys_ok A E s0 [] s0"
    and c: "get_connection (srv_manager (sys_server s)) x = Some c" and h: "dict_get (sys_handlers s) x = None"
  shows "\<exists>c'. get_connection (srv_manager (sys_server s')) x = Some c' \<and> same_standing c c' \<and>
    dict_get (sys_handlers s') x = None"
  using r
proof (induction rule: reaches.induct)
  case start
  then show ?case using c h by auto
next
  case (step ls1 s1 l s2)
  then obtain c1 where c1: "get_connection (srv_manager (sys_server s1)) x = Some c1" "same_standing c c1"
    "dict_get (sys_handlers s1) x = None" by blast
  note ok = sys_okD [OF reaches_ok [OF reaches_trans [OF step.hyps(1) r0] init]]
  from step_stranded [OF step.hyps(2) ok(1,3) c1(1,3)] c1(2) same_standing_trans show ?case by blast
qed

section \<open>Writers start with the acceptance\<close>

definition unstarted :: "system \<Rightarrow> bool" where
  "unstarted s \<longleftrightarrow> (\<forall>x h. dict_get (sys_handlers s) x = Some h \<longrightarrow> h_phase h = Accepting \<longrightarrow> h_writer h = NoWriter)"

lemma after_turn_unstarted: "unstarted s \<Longrightarrow> unstarted (after_turn s cid h r)"
  by (cases r; cases "snd r") (auto simp: after_turn_def unstarted_def)

lemma step_unstarted:
  assumes "sys_step A E l s = Some s'" and "manager_ok (srv_manager (sys_server s))" and "handlers_ok s"
    and u: "unstarted s"
  shows "unstarted s'"
  using assms(1-3)
proof (cases rule: step_shape)
  case (turn cid hn sv t r)
  with u after_turn_unstarted show ?thesis by simp
next
  case (writer cid hn w)
  with u show ?thesis by (auto simp: unstarted_def)
qed (use u in \<open>auto simp: unstarted_def split: if_splits\<close>)

lemma reaches_unstarted:
  assumes "reaches A E s0 ls s" and "sys_ok A E s0 [] s0" and "unstarted s0"
  shows "unstarted s"
  using assms(1)
proof (induction rule: reaches.induct)
  case (step ls s l s')
  with step_unstarted [OF step.hyps(2)] sys_okD [OF reaches_ok [OF step.hyps(1) assms(2)]] show ?case by blast
qed (rule assms(3))

lemma initial_unstarted: "unstarted (initial c db l)"
  by (simp add: unstarted_def initial_def)

section \<open>The limits stay\<close>

lemma step_limits:
  assumes "sys_step A E l s = Some s'" and "manager_ok (srv_manager (sys_server s))" and "handlers_ok s"
  shows "limits (srv_manager (sys_server s')) = limits (srv_manager (sys_server s))"
  using assms
proof (cases rule: step_shape)
  case (turn cid hn sv t r)
  have "limits (srv_manager sv) = limits (srv_manager (sys_server s))"
    using turn(4) by (simp add: quiet_def bound_def split: sum.splits)
  then show ?thesis
    unfolding turn(2) by (cases t) (simp_all add: after_turn_def close_begin_def with_context_def split: option.splits)
next
  case (writer cid hn w)
  then show ?thesis by (simp add: quiet_def)
next
  case (accepted cid hn)
  then show ?thesis by (simp add: quiet_def)
qed simp_all

lemma reaches_limits:
  assumes "reaches A E s0 ls s" and "sys_ok A E s0 [] s0"
  shows "limits (srv_manager (sys_server s)) = limits (srv_manager (sys_server s0))"
  using assms(1)
proof (induction rule: reaches.induct)
  case (step ls s l s')
  with step_limits [OF step.hyps(2)] sys_okD [OF reaches_ok [OF step.hyps(1) assms(2)]] show ?case by simp
qed simp

section \<open>Registrations and handlers\<close>

definition paired :: "system \<Rightarrow> bool" where
  "paired s \<longleftrightarrow> (\<forall>x. get_connection (srv_manager (sys_server s)) x = None \<longleftrightarrow> dict_get (sys_handlers s) x = None) \<and>
     (\<forall>x h. dict_get (sys_handlers s) x = Some h \<longrightarrow> h_writer h \<noteq> WriterFailed)"

lemma step_paired:
  assumes "sys_step A E l s = Some s'" and "manager_ok (srv_manager (sys_server s))" and "handlers_ok s"
    and p: "paired s" and l: "\<And>cid. l \<noteq> LWrite cid SendFailed" "\<And>cid. l \<noteq> LAcceptFailed cid"
  shows "paired s'"
  using assms(1-3)
proof (cases rule: step_shape)
  case service
  with p show ?thesis by (simp add: paired_def)
next
  case (joined cid)
  with p show ?thesis unfolding paired_def by (auto split: if_splits)
next
  case (turn cid hn sv t r)
  have "get_connection (srv_manager (sys_server s')) x = None \<longleftrightarrow> get_connection (srv_manager (sys_server s)) x = None" for x
    using turn after_turn_get(1) [OF turn(3)] quiet_present [OF turn(4)] by simp
  moreover have "\<exists>k0. dict_get (sys_handlers s) x = Some k0 \<and> h_writer k = h_writer k0"
    if "dict_get (sys_handlers s') x = Some k" for x k
    using after_turn_handlers(2) [OF turn(1)] that turn(2) by simp
  ultimately show ?thesis
    using p turn(2) after_turn_handlers(1) [OF turn(1)] unfolding paired_def by metis
next
  case (writer cid hn w)
  with p l quiet_present [OF writer(3)] show ?thesis unfolding paired_def by (auto split: if_splits)
next
  case (ended cid hn code)
  with p show ?thesis unfolding paired_def by (auto split: if_splits)
next
  case (accepted cid hn)
  with p quiet_present [OF accepted(3)] show ?thesis unfolding paired_def by (auto split: if_splits)
next
  case (answered cid hn q)
  with p show ?thesis unfolding paired_def by (auto split: if_splits)
next
  case (dropped cid hn)
  with l show ?thesis by blast
qed

lemma reaches_paired:
  assumes "reaches A E s0 ls s" and "sys_ok A E s0 [] s0" and "paired s0"
    and "\<And>cid. LWrite cid SendFailed \<notin> set ls \<and> LAcceptFailed cid \<notin> set ls"
  shows "paired s"
  using assms(1,4)
proof (induction rule: reaches.induct)
  case start
  show ?case by (rule assms(3))
next
  case (step ls s l s')
  then have "paired s" and "\<And>cid. l \<noteq> LWrite cid SendFailed" "\<And>cid. l \<noteq> LAcceptFailed cid" by fastforce+
  with step_paired [OF step.hyps(2)] sys_okD [OF reaches_ok [OF step.hyps(1) assms(2)]] show ?case by blast
qed

section \<open>Emptying the server\<close>

text \<open>
  From any state each handler can be brought to its end, in at most four steps, without a
  failure: accept the upgrade, resolve the token it waits for and use the result, let the peer
  disconnect, close.
\<close>

definition clean :: "label list \<Rightarrow> bool" where
  "clean ls \<longleftrightarrow> (\<forall>cid. LWrite cid SendFailed \<notin> set ls \<and> LAcceptFailed cid \<notin> set ls)"

lemma clean_simps [simp]: "clean []" "clean (ls @ ls') \<longleftrightarrow> clean ls \<and> clean ls'"
  "clean (LClose cid # ls) \<longleftrightarrow> clean ls" "clean (LDisconnect cid # ls) \<longleftrightarrow> clean ls"
  "clean (LResolve cid t now # ls) \<longleftrightarrow> clean ls" "clean (LBind cid # ls) \<longleftrightarrow> clean ls"
  "clean (LAccepted cid # ls) \<longleftrightarrow> clean ls"
  by (auto simp: clean_def)

text \<open>\<open>only_lacks s s' cid\<close>: the handlers of \<open>s'\<close> are those of \<open>s\<close> without \<open>cid\<close>.\<close>

definition only_lacks :: "system \<Rightarrow> system \<Rightarrow> ustr \<Rightarrow> bool" where
  "only_lacks s s' cid \<longleftrightarrow>
     (\<forall>x. dict_get (sys_handlers s') x = None \<longleftrightarrow> x = cid \<or> dict_get (sys_handlers s) x = None)"

definition can_end :: "auth_env \<Rightarrow> transport_env \<Rightarrow> system \<Rightarrow> ustr \<Rightarrow> bool" where
  "can_end A E s cid \<longleftrightarrow> (\<exists>ls s'. reaches A E s ls s' \<and> clean ls \<and> only_lacks s s' cid)"

lemma can_end_step:
  assumes "sys_step A E l s = Some s1" and "clean [l]" and "can_end A E s1 cid"
    and "\<And>x. dict_get (sys_handlers s1) x = None \<longleftrightarrow> dict_get (sys_handlers s) x = None"
  shows "can_end A E s cid"
proof -
  from assms(3) obtain ls s' where "reaches A E s1 ls s'" "clean ls" "only_lacks s1 s' cid"
    unfolding can_end_def by blast
  moreover have "reaches A E s [l] s1" using reaches.step [OF reaches.start assms(1)] .
  ultimately show ?thesis
    using reaches_trans [of A E s1 ls s' s "[l]"] assms(2,4) unfolding can_end_def only_lacks_def
    by (intro exI [of _ "ls @ [l]"] exI [of _ s']) (auto simp: clean_def)
qed

lemma closing_can_end:
  assumes "dict_get (sys_handlers s) cid = Some h" and "h_phase h = Closing code"
  shows "can_end A E s cid"
proof -
  have "sys_step A E (LClose cid) s = Some (s\<lparr>sys_server := close_end (sys_server s) cid (h_writer h),
      sys_handlers := dict_del (sys_handlers s) cid\<rparr>)" (is "_ = Some ?s")
    using assms by simp
  from reaches.step [OF reaches.start this]
  show ?thesis unfolding can_end_def
    by (intro exI [of _ "[LClose cid]"] exI [of _ ?s]) (auto simp: only_lacks_def)
qed

lemma receiving_can_end:
  assumes h: "dict_get (sys_handlers s) cid = Some h" and "h_phase h = Receiving"
  shows "can_end A E s cid"
proof -
  let ?s = "after_turn s cid h (sys_server s, CloseWith CLOSE_NORMAL)"
  have st: "sys_step A E (LDisconnect cid) s = Some ?s"
    using assms by (simp add: receiving_def recv_disconnect_def)
  have e: "can_end A E ?s cid"
    by (rule closing_can_end [where h = "h\<lparr>h_phase := Closing CLOSE_NORMAL\<rparr>" and code = CLOSE_NORMAL])
       (simp_all add: after_turn_def)
  show ?thesis by (rule can_end_step [OF st _ e after_turn_handlers(1) [OF h]]) simp
qed

lemma auth_finish_turns:
  "snd (auth_finish E sv cid e r) = Served \<or> (\<exists>code. snd (auth_finish E sv cid e r) = CloseWith code) \<or>
   (\<exists>x. snd (auth_finish E sv cid e r) = Raised x)"
proof -
  have "snd (finish_frame sv' cid rs) = Served \<or> (\<exists>code. snd (finish_frame sv' cid rs) = CloseWith code)" for sv' rs
    by (simp add: finish_frame_def split: prod.split bool.split)
  then show ?thesis by (auto simp: auth_finish_def Let_def split: sum.split exn.split prod.split)
qed

lemma resolved_can_end:
  assumes h: "dict_get (sys_handlers s) cid = Some h" and p: "h_phase h = Resolved e res"
  shows "can_end A E s cid"
proof -
  let ?s = "after_turn s cid h (auth_finish E (sys_server s) cid e res)"
  have st: "sys_step A E (LBind cid) s = Some ?s" using h p by simp
  obtain sv t where r: "auth_finish E (sys_server s) cid e res = (sv, t)" by fastforce
  from auth_finish_turns [of E "sys_server s" cid e res]
  consider "t = Served" | code where "t = CloseWith code" | x where "t = Raised x" by (auto simp: r)
  then have e: "can_end A E ?s cid"
  proof cases
    case 1
    show ?thesis by (rule receiving_can_end [where h = "h\<lparr>h_phase := Receiving\<rparr>"]) (simp_all add: r 1 after_turn_def)
  next
    case 2
    show ?thesis by (rule closing_can_end [where h = "h\<lparr>h_phase := Closing code\<rparr>"]) (simp_all add: r 2 after_turn_def)
  next
    case 3
    show ?thesis
      by (rule closing_can_end [where h = "h\<lparr>h_phase := Closing CLOSE_NORMAL\<rparr>"]) (simp_all add: r 3 after_turn_def)
  qed
  show ?thesis by (rule can_end_step [OF st _ e after_turn_handlers(1) [OF h]]) simp
qed

lemma handler_can_end:
  assumes h: "dict_get (sys_handlers s) cid = Some h"
  shows "can_end A E s cid"
proof (cases "h_phase h")
  case Accepting
  let ?s = "s\<lparr>sys_server := ws_accepted E (sys_server s) cid,
      sys_handlers := dict_set (sys_handlers s) cid \<lparr>h_phase = Receiving, h_writer = WriterRunning\<rparr>\<rparr>"
  have st: "sys_step A E (LAccepted cid) s = Some ?s" using h Accepting by (simp add: accepting_def)
  have e: "can_end A E ?s cid"
    by (rule receiving_can_end [where h = "\<lparr>h_phase = Receiving, h_writer = WriterRunning\<rparr>"]) simp_all
  show ?thesis by (rule can_end_step [OF st _ e]) (use h in auto)
next
  case Receiving
  with h show ?thesis by (rule receiving_can_end)
next
  case (Closing code)
  with h show ?thesis by (rule closing_can_end)
next
  case (Resolved e res)
  with h show ?thesis by (rule resolved_can_end)
next
  case (Resolving e tok)
  let ?h = "h\<lparr>h_phase := Resolved e (resolve_access_token A (a_db (sys_auth s)) (utc 0) (utc 0) tok)\<rparr>"
  let ?s = "s\<lparr>sys_handlers := dict_set (sys_handlers s) cid ?h\<rparr>"
  have st: "sys_step A E (LResolve cid (utc 0) (utc 0)) s = Some ?s" using h Resolving by simp
  have e: "can_end A E ?s cid" by (rule resolved_can_end [where h = ?h]) simp_all
  show ?thesis by (rule can_end_step [OF st _ e]) (use h in auto)
qed

lemma drains:
  "\<exists>ls s'. reaches A E s ls s' \<and> clean ls \<and> sys_handlers s' = []"
proof (induction "card (dom (dict_get (sys_handlers s)))" arbitrary: s rule: less_induct)
  case less
  show ?case
  proof (cases "sys_handlers s")
    case Nil
    then show ?thesis using reaches.start [of A E s] by (intro exI [of _ "[]"] exI [of _ s]) simp
  next
    case (Cons p ps)
    then obtain h where h: "dict_get (sys_handlers s) (fst p) = Some h" by (cases p) auto
    from handler_can_end [OF this] obtain ls s1 where
      one: "reaches A E s ls s1" "clean ls" "only_lacks s s1 (fst p)" unfolding can_end_def by blast
    have "dom (dict_get (sys_handlers s1)) = dom (dict_get (sys_handlers s)) - {fst p}"
      by (rule set_eqI) (use one(3) in \<open>simp add: only_lacks_def dom_def conj_commute\<close>)
    moreover have "fst p \<in> dom (dict_get (sys_handlers s))" using h by blast
    ultimately have "card (dom (dict_get (sys_handlers s1))) < card (dom (dict_get (sys_handlers s)))"
      using card_Diff1_less [OF finite_dom_map_of] by metis
    from less.hyps [OF this] obtain ls' s' where "reaches A E s1 ls' s'" "clean ls'" "sys_handlers s' = []" by blast
    with reaches_trans [OF _ one(1)] one(2) show ?thesis
      by (intro exI [of _ "ls' @ ls"] exI [of _ s']) simp
  qed
qed

end
