(* ===== verification/SystemSamples.thy ===== *)
theory SystemSamples
  imports Registry WireSamples Samples
begin

text \<open>
  A concrete run of the whole system, on which the theorems about reachable states are
  applied: a connection is opened, presents a token, is bound to the account \<open>alice\<close> and
  sends a message to \<open>bob\<close>, who is offline. The texts are real frames
  (\<open>WireSamples\<close>); the token library knows the single token \<open>T\<close>.
\<close>

section \<open>The run\<close>

definition pocket_jwt :: jwt_lib where
  "pocket_jwt = \<lparr>jwt_encode = (\<lambda>_ _ _. lit ''T''),
     jwt_decode = (\<lambda>token _ _ _ _ _ _. if token = lit ''T''
       then JwtClaims [(lit ''sub'', JStr (lit ''u1'')), (lit ''sid'', JStr (lit ''s1'')), (lit ''jti'', JStr (lit ''j'')),
          (lit ''iat'', JInt 0), (lit ''exp'', JInt 900), (lit ''token_type'', JStr TOKEN_ACCESS)]
       else InvalidTokenError (lit ''DecodeError''))\<rparr>"

definition pocket_env :: auth_env where
  "pocket_env = sample_env\<lparr>e_jwt := pocket_jwt\<rparr>"

definition pocket_db :: database where
  "pocket_db = \<lparr>user_table = [alice_row\<lparr>u_username := lit ''alice''\<rparr>], session_table = [alice_session]\<rparr>"

definition alice_identity :: authenticated_identity where
  "alice_identity = \<lparr>ai_user_id = lit ''u1'', ai_username = lit ''alice'', ai_session_id = lit ''s1''\<rparr>"

lemma pocket_db_ok: "db_ok pocket_db"
  by (simp add: pocket_db_def db_ok_def)

lemma pocket_resolves: "resolve_access_token pocket_env pocket_db (utc 6) (utc 7) (lit ''T'') = Inr alice_identity"
proof -
  have "alice_row\<lparr>u_username := lit ''alice''\<rparr> = load_user (\<lambda>d. d) (alice_row\<lparr>u_username := lit ''alice''\<rparr>)"
    by (simp add: load_user_def alice_row_def)
  then show ?thesis
    by (simp add: resolve_access_token_def decode_access_token_def pocket_env_def pocket_jwt_def TOKEN_ACCESS_def
        claim_time_def claim_int_def session_get_def pocket_db_def scalar_one_or_none_def is_usable_def
        refresh_expiry_def days_us_def get_by_id_def load_user_def alice_identity_def is_active_def alice_row_def)
qed

definition ready_message :: json where
  "ready_message = connection_ready sample_pydantic transport_limits_defaults (lit ''c1'')"

definition auth_ready_message :: json where
  "auth_ready_message = dump sample_pydantic (AuthReady 7 (lit ''u1'') (lit ''alice'') (lit ''s1''))"

definition receipt_message :: json where
  "receipt_message = dump sample_pydantic (MessageReceipt 8 (lit ''alice'') (lit ''bob'') (utc 0) [])"

text \<open>The connection with a given queue, clock reading, message count and window.\<close>

definition online :: "json list \<Rightarrow> rat \<Rightarrow> rat \<Rightarrow> connection_context" where
  "online msgs now start = (fresh_context ''c1'')\<lparr>
     outbound := \<lparr>aq_items = msgs, aq_maxsize = 100, aq_unfinished = int (length msgs)\<rparr>,
     limiter := \<lparr>max_messages = 30, window_seconds = Fin 1, window_started_at = start,
       msg_count = (if start = 0 then 0 else 1)\<rparr>,
     last_activity_monotonic := now\<rparr>"

definition solo :: "connection_context \<Rightarrow> ustr \<Rightarrow> json offline_queue \<Rightarrow> manager" where
  "solo c k q = \<lparr>limits = transport_limits_defaults, connections = [(lit ''c1'', c)],
     by_client = [(k, [lit ''c1''])], offline_queue = q\<rparr>"

definition solo_at :: "connection_context \<Rightarrow> ustr \<Rightarrow> json offline_queue \<Rightarrow> phase \<Rightarrow> log_record list \<Rightarrow> system" where
  "solo_at c k q ph logged = \<lparr>sys_auth = new_service (e_config pocket_env) pocket_db,
     sys_server = \<lparr>srv_manager = solo c k q, srv_log = logged\<rparr>,
     sys_handlers = [(lit ''c1'', \<lparr>h_phase = ph, h_writer = WriterRunning\<rparr>)]\<rparr>"

definition alice_online_as :: "json list \<Rightarrow> rat \<Rightarrow> rat \<Rightarrow> connection_context" where
  "alice_online_as msgs now start = authenticate (online msgs now start) (lit ''u1'') (lit ''alice'') (lit ''s1'')"

lemma default_sel:
  "max_total_connections transport_limits_defaults = 500"
  "max_connections_per_client transport_limits_defaults = 3"
  "allow_missing_origin transport_limits_defaults"
  by (simp_all add: transport_limits_defaults_def)

text \<open>Registered, before its upgrade is accepted.\<close>

definition dialled :: "log_record list \<Rightarrow> system" where
  "dialled logged = (solo_at (fresh_context ''c1'') (lit ''anon-'' @ lit ''c1'') (new_queue 50 500) Accepting logged)
     \<lparr>sys_handlers := [(lit ''c1'', \<lparr>h_phase = Accepting, h_writer = NoWriter\<rparr>)]\<rparr>"

lemma run_connect:
  "sys_step pocket_env sample_transport (LConnect None None 0 (utc 0) (lit ''c1'') (lit ''c1''))
     (initial (e_config pocket_env) pocket_db transport_limits_defaults) = Some (dialled [])"
proof -
  have new: "new_context transport_limits_defaults (lit ''c1'') (lit ''anon-'' @ lit ''c1'') (utc 0) None 0 = fresh_context ''c1''"
    by (simp add: fresh_context_def)
  show ?thesis
    by (simp add: initial_def ws_connect_def is_origin_allowed_def register_def get_connection_def
        index_add_def set_add_def new dialled_def solo_at_def solo_def Let_def new_manager_def default_sel)
qed

lemma run_accept:
  "\<exists>logged. sys_step pocket_env sample_transport (LAccepted (lit ''c1'')) (dialled []) =
   Some (solo_at (online [ready_message] 0 0) (lit ''anon-'' @ lit ''c1'') (new_queue 50 500) Receiving logged)"
proof -
  have c: "fst (enqueue_outbound (fresh_context ''c1'') ready_message) = online [ready_message] 0 0"
    "snd (enqueue_outbound (fresh_context ''c1'') ready_message)"
    by (simp_all add: enqueue_outbound_def aq_put_nowait_def aq_full_def online_def fresh_context_def new_context_def
        aq_new_def new_limiter_def transport_limits_defaults_def)
  show ?thesis
    using c
    by (simp add: dialled_def solo_at_def accepting_def ws_accepted_def enqueue_own_def get_connection_def
        with_context_def solo_def ready_message_def emit_def split_beta)
qed

lemma online_sel:
  "outbound (online ms now start) = \<lparr>aq_items = ms, aq_maxsize = 100, aq_unfinished = int (length ms)\<rparr>"
  "\<not> authenticated (online ms now start)" "\<not> closing (online ms now start)"
  "connection_id (online ms now start) = lit ''c1''"
  "routing_identity (online ms now start) = lit ''anon-'' @ lit ''c1''"
  "authenticated (alice_online_as ms now start)" "\<not> closing (alice_online_as ms now start)"
  "routing_identity (alice_online_as ms now start) = lit ''alice''"
  by (simp_all add: online_def alice_online_as_def fresh_context_def new_context_def routing_identity_def
      authenticate_def)

lemma online_heard:
  assumes "start + 1 \<le> now" and "0 < now"
  shows "(touch (online ms t start) now)\<lparr>limiter := fst (allow (limiter (online ms t start)) now)\<rparr> = online ms now now"
    and "snd (allow (limiter (online ms t start)) now)"
    and "(touch (alice_online_as ms t start) now)\<lparr>limiter := fst (allow (limiter (alice_online_as ms t start)) now)\<rparr> =
      alice_online_as ms now now"
    and "snd (allow (limiter (alice_online_as ms t start)) now)"
  using assms by (simp_all add: online_def alice_online_as_def authenticate_def touch_def allow_def Let_def)

lemma online_put:
  assumes "length ms < 100"
  shows "enqueue_outbound (alice_online_as ms t start) msg = (alice_online_as (ms @ [msg]) t start, True)"
  using assms
  by (simp add: enqueue_outbound_def alice_online_as_def online_def fresh_context_def new_context_def
      authenticate_def aq_put_nowait_def aq_full_def)

text \<open>A frame the manager \<open>solo\<close> receives within its bounds, up to the dispatch.\<close>

lemma solo_get: "get_connection (solo c k q) (lit ''c1'') = Some c"
  by (simp add: solo_def get_connection_def)

lemma solo_put: "with_context (solo c k q) (lit ''c1'') f = solo (f c) k q"
  by (simp add: solo_def with_context_def)

lemma solo_limits [simp]: "limits (solo c k q) = transport_limits_defaults" "offline_queue (solo c k q) = q"
  "(solo c k q)\<lparr>offline_queue := q'\<rparr> = solo c k q'"
  by (simp_all add: solo_def)

lemma touch_sel [simp]: "limiter (touch c now) = limiter c"
  by (simp add: touch_def)

lemma envelope_sel [simp]:
  "msg_type auth_envelope = AUTH_AUTHENTICATE" "message_id auth_envelope = 7"
  "payload auth_envelope = [(lit ''access_token'', JStr (lit ''T''))]"
  "msg_type send_envelope = MESSAGE_SEND" "message_id send_envelope = 8"
  "sender send_envelope = lit ''alice''" "recipient send_envelope = Some (lit ''bob'')"
  "timestamp send_envelope = utc 0" "payload send_envelope = []"
  by (simp_all add: auth_envelope_def send_envelope_def)

lemma run_auth:
  "sys_step pocket_env sample_transport (LFrame (lit ''c1'') auth_frame 2 (utc 0))
     (solo_at (online [ready_message] 0 0) (lit ''anon-'' @ lit ''c1'') q Receiving logged) =
   Some (solo_at (online [ready_message] 2 2) (lit ''anon-'' @ lit ''c1'') q
     (Resolving auth_envelope (lit ''T'')) logged)"
proof -
  have "auth_begin sample_transport sv (online [ready_message] 2 2) auth_envelope = (sv, Inr (lit ''T''))" for sv
    by (simp add: auth_begin_def online_sel MAX_TOKEN_LENGTH_def)
  then show ?thesis
    using online_heard(1,2) [of 0 2 "[ready_message]" 0] frames_encode(1) frames_length(1) frames_accepted(1)
    by (simp add: solo_at_def receiving_def recv_frame_def solo_get solo_put Let_def split_beta after_turn_def
        dispatch_def)
qed

lemma run_resolve:
  "sys_step pocket_env sample_transport (LResolve (lit ''c1'') (utc 6) (utc 7))
     (solo_at c k q (Resolving auth_envelope (lit ''T'')) logged) =
   Some (solo_at c k q (Resolved auth_envelope (Inr alice_identity)) logged)"
  using pocket_resolves by (simp add: solo_at_def new_service_def)

lemma run_bind:
  "\<exists>logged'. sys_step pocket_env sample_transport (LBind (lit ''c1''))
     (solo_at (online [ready_message] 2 2) (lit ''anon-'' @ lit ''c1'') (new_queue 50 500)
       (Resolved auth_envelope (Inr alice_identity)) logged) =
   Some (solo_at (alice_online_as [ready_message, auth_ready_message] 2 2) (lit ''alice'') (new_queue 50 500)
     Receiving logged')"
proof -
  have b: "bind_identity (solo (online [ready_message] 2 2) (lit ''anon-'' @ lit ''c1'') (new_queue 50 500)) (lit ''c1'')
      (lit ''u1'') (lit ''alice'') (lit ''s1'') =
    solo (alice_online_as [ready_message] 2 2) (lit ''alice'') (new_queue 50 500)"
    by (simp add: bind_identity_def solo_def online_sel alice_online_as_def index_discard_def index_add_def
        set_discard_def set_add_def)
  have d: "drain (new_queue 50 500) r = (new_queue 50 500, [])" for r
    by (simp add: drain_def new_queue_def)
  show ?thesis
    using online_put [of "[ready_message]" 2 2 auth_ready_message]
    by (simp add: solo_at_def auth_finish_def alice_identity_def b d finish_frame_def enqueue_own_def solo_get
        solo_put emit_def auth_ready_message_def Let_def after_turn_def)
qed

definition ack_message :: json where
  "ack_message = dump sample_pydantic (DeliveryAck 8 QUEUED)"

definition bob_box :: "json offline_queue" where
  "bob_box = \<lparr>queues = [(lit ''bob'', [receipt_message])], max_per_recipient = 50, max_recipients = 500\<rparr>"

lemma run_send:
  "\<exists>logged'. sys_step pocket_env sample_transport (LFrame (lit ''c1'') send_frame 4 (utc 0))
     (solo_at (alice_online_as [ready_message, auth_ready_message] 2 2) (lit ''alice'') (new_queue 50 500)
       Receiving logged) =
   Some (solo_at (alice_online_as [ready_message, auth_ready_message, ack_message] 4 4) (lit ''alice'') bob_box
     Receiving logged')"
proof -
  let ?k = "alice_online_as [ready_message, auth_ready_message] 4 4"
  have e: "enqueue (new_queue 50 500) (lit ''bob'') receipt_message = (bob_box, True)"
    by (simp add: enqueue_def new_queue_def bob_box_def Let_def)
  have "receipt_for sample_pydantic ?k send_envelope (lit ''bob'') = receipt_message"
    by (simp add: receipt_for_def online_sel receipt_message_def)
  then have h: "\<exists>lg'. handle_privileged sample_transport \<lparr>srv_manager = solo ?k (lit ''alice'') (new_queue 50 500), srv_log = lg\<rparr>
      ?k send_envelope = (\<lparr>srv_manager = solo ?k (lit ''alice'') bob_box, srv_log = lg'\<rparr>, [ack_message])" for lg
    using e
    by (simp add: handle_privileged_def handle_message_send_def route_message_def online_sel is_connected_def
        emit_def Let_def ack_message_def solo_def)
  show ?thesis
    using online_heard(3,4) [of 2 4 "[ready_message, auth_ready_message]" 2] frames_encode(2) frames_length(2)
      frames_accepted(2) [of ?k] online_put [of "[ready_message, auth_ready_message]" 4 4 ack_message] h [of logged]
    by (auto simp: solo_at_def receiving_def recv_frame_def solo_get solo_put Let_def split_beta after_turn_def
        dispatch_def PRIVILEGED_TYPES_def online_sel finish_frame_def enqueue_own_def)
qed

text \<open>The whole run, latest label first.\<close>

definition demo_start :: system where
  "demo_start = initial (e_config pocket_env) pocket_db transport_limits_defaults"

definition demo_labels :: "label list" where
  "demo_labels = [LFrame (lit ''c1'') send_frame 4 (utc 0), LBind (lit ''c1''), LResolve (lit ''c1'') (utc 6) (utc 7),
     LFrame (lit ''c1'') auth_frame 2 (utc 0), LAccepted (lit ''c1''), LConnect None None 0 (utc 0) (lit ''c1'') (lit ''c1'')]"

lemma demo_authenticated:
  "\<exists>logged. reaches pocket_env sample_transport demo_start (tl demo_labels)
     (solo_at (alice_online_as [ready_message, auth_ready_message] 2 2) (lit ''alice'') (new_queue 50 500)
       Receiving logged)"
proof -
  let ?r = "reaches pocket_env sample_transport demo_start"
  note one = reaches.step [OF reaches.start run_connect, folded demo_start_def]
  obtain g1 where "?r [LAccepted (lit ''c1''), LConnect None None 0 (utc 0) (lit ''c1'') (lit ''c1'')]
      (solo_at (online [ready_message] 0 0) (lit ''anon-'' @ lit ''c1'') (new_queue 50 500) Receiving g1)"
    using reaches.step [OF one] run_accept by blast
  note three = reaches.step [OF reaches.step [OF this run_auth] run_resolve]
  obtain g2 where "sys_step pocket_env sample_transport (LBind (lit ''c1''))
     (solo_at (online [ready_message] 2 2) (lit ''anon-'' @ lit ''c1'') (new_queue 50 500)
       (Resolved auth_envelope (Inr alice_identity)) g1) =
   Some (solo_at (alice_online_as [ready_message, auth_ready_message] 2 2) (lit ''alice'') (new_queue 50 500)
     Receiving g2)" using run_bind by blast
  from reaches.step [OF three this] show ?thesis unfolding demo_labels_def list.sel by blast
qed

lemma demo_run:
  "\<exists>logged. reaches pocket_env sample_transport demo_start demo_labels
     (solo_at (alice_online_as [ready_message, auth_ready_message, ack_message] 4 4) (lit ''alice'') bob_box
       Receiving logged)"
proof -
  obtain g2 where three: "reaches pocket_env sample_transport demo_start (tl demo_labels)
     (solo_at (alice_online_as [ready_message, auth_ready_message] 2 2) (lit ''alice'') (new_queue 50 500) Receiving g2)"
    using demo_authenticated by blast
  obtain g3 where "sys_step pocket_env sample_transport (LFrame (lit ''c1'') send_frame 4 (utc 0))
     (solo_at (alice_online_as [ready_message, auth_ready_message] 2 2) (lit ''alice'') (new_queue 50 500)
       Receiving g2) =
   Some (solo_at (alice_online_as [ready_message, auth_ready_message, ack_message] 4 4) (lit ''alice'') bob_box
     Receiving g3)" using run_send by blast
  from reaches.step [OF three this] show ?thesis unfolding demo_labels_def list.sel by blast
qed

lemma demo_receipt:
  "receipt_in (srv_manager (sys_server (solo_at c k bob_box ph logged))) receipt_message"
  by (auto simp: receipt_in_def receipt_message_def solo_at_def held_for_def waiting_def bob_box_def
      intro!: exI [of _ "lit ''bob''"])

text \<open>The run goes on with a writer that fails and a peer that leaves.\<close>

lemma demo_strands:
  "\<exists>s. reaches pocket_env sample_transport demo_start
       (LDisconnect (lit ''c1'') # LWrite (lit ''c1'') SendFailed # demo_labels) s \<and>
    sys_handlers s = [(lit ''c1'', \<lparr>h_phase = Closing CLOSE_NORMAL, h_writer = WriterFailed\<rparr>)] \<and>
    owner_of (srv_manager (sys_server s)) (lit ''c1'') = Some (lit ''alice'') \<and>
    (\<forall>x. holds_identity (srv_manager (sys_server s)) (lit ''alice'') x \<longrightarrow> x = lit ''c1'')"
proof -
  let ?k = "alice_online_as [ready_message, auth_ready_message, ack_message] 4 4"
  obtain g where r: "reaches pocket_env sample_transport demo_start demo_labels
      (solo_at ?k (lit ''alice'') bob_box Receiving g)" using demo_run by blast
  obtain k1 where w: "writer_turn \<lparr>srv_manager = solo ?k (lit ''alice'') bob_box, srv_log = g\<rparr> (lit ''c1'') SendFailed =
      Some (\<lparr>srv_manager = solo k1 (lit ''alice'') bob_box, srv_log = g\<rparr>, ready_message, WriterFailed)"
    and k1: "routing_identity k1 = lit ''alice''"
  proof
    show "writer_turn \<lparr>srv_manager = solo ?k (lit ''alice'') bob_box, srv_log = g\<rparr> (lit ''c1'') SendFailed =
      Some (\<lparr>srv_manager = solo (?k\<lparr>outbound := \<lparr>aq_items = [auth_ready_message, ack_message], aq_maxsize = 100,
        aq_unfinished = 2\<rparr>\<rparr>) (lit ''alice'') bob_box, srv_log = g\<rparr>, ready_message, WriterFailed)"
      by (simp add: writer_turn_def solo_get solo_put alice_online_as_def online_sel aq_get_def task_done_quiet_def
          aq_task_done_def Let_def)
    show "routing_identity (?k\<lparr>outbound := \<lparr>aq_items = [auth_ready_message, ack_message], aq_maxsize = 100,
        aq_unfinished = 2\<rparr>\<rparr>) = lit ''alice''"
      by (simp add: routing_identity_def alice_online_as_def)
  qed
  let ?s1 = "(solo_at k1 (lit ''alice'') bob_box Receiving g)
    \<lparr>sys_handlers := [(lit ''c1'', \<lparr>h_phase = Receiving, h_writer = WriterFailed\<rparr>)]\<rparr>"
  have "sys_step pocket_env sample_transport (LWrite (lit ''c1'') SendFailed)
      (solo_at ?k (lit ''alice'') bob_box Receiving g) = Some ?s1"
    using w by (simp add: solo_at_def)
  note r1 = reaches.step [OF r this]
  let ?s2 = "(solo_at (mark_closing k1) (lit ''alice'') bob_box Receiving g)
    \<lparr>sys_handlers := [(lit ''c1'', \<lparr>h_phase = Closing CLOSE_NORMAL, h_writer = WriterFailed\<rparr>)]\<rparr>"
  have "sys_step pocket_env sample_transport (LDisconnect (lit ''c1'')) ?s1 = Some ?s2"
    by (simp add: solo_at_def receiving_def recv_disconnect_def after_turn_def close_begin_def solo_put)
  note r2 = reaches.step [OF r1 this]
  have "routing_identity (mark_closing k1) = lit ''alice''"
    using k1 by (simp add: mark_closing_def routing_identity_def split: option.splits)
  then have "owner_of (srv_manager (sys_server ?s2)) (lit ''c1'') = Some (lit ''alice'')"
    "\<forall>x. holds_identity (srv_manager (sys_server ?s2)) (lit ''alice'') x \<longrightarrow> x = lit ''c1''"
    by (simp_all add: solo_at_def solo_def owner_of_def holds_identity_def)
  with r2 show ?thesis by (intro exI [of _ ?s2]) simp
qed

end
