(* ===== verification/Gaps.thy ===== *)
theory Gaps
  imports ComponentProps SystemSamples
begin

text \<open>
  Where the code does something else than its comments say: names with a capital letter, the
  bound on connections per account, numbers with too many digits, and the work of the dummy
  verification.
\<close>

section \<open>Names with a capital letter\<close>

definition has_capital :: "ustr \<Rightarrow> bool" where
  "has_capital s \<longleftrightarrow> (\<exists>ch \<in> set s. 65 \<le> ch \<and> ch \<le> 90)"

lemma capital_not_identifier:
  assumes "has_capital s"
  shows "\<not> transport_identifier P s"
proof
  assume t: "transport_identifier P s"
  obtain ch where ch: "ch \<in> set s" "65 \<le> ch" "ch \<le> 90" using assms by (auto simp: has_capital_def)
  have none: "ch \<notin> set u" if "is_valid_identifier u" for u
    using that id_pattern_chars [of 0 63 u] ch
    by (fastforce simp: is_valid_identifier_def id_char_def id_start_def)
  consider "is_valid_identifier s" | "s \<noteq> []" "last s = 10" "is_valid_identifier (butlast s)"
    using t by (auto simp: transport_identifier_def)
  then show False
  proof cases
    case 1
    with none ch show ?thesis by blast
  next
    case 2
    then have "set s = insert 10 (set (butlast s))"
      by (metis append_butlast_last_id list.simps(15) rotate1.simps(2) set_rotate1)
    with none [OF 2(3)] ch show ?thesis by auto
  qed
qed

text \<open>
  C39: an account registered with a capital letter in its name is mute and deaf. The name is
  kept for display as typed, and it is also the routing identity of the account's
  connections; but no envelope can carry it. Every envelope such a connection gets through
  validation has another sender, so every \<open>message.send\<close> of it is refused as an
  impersonation, and no validated envelope of anybody is addressed to it.
\<close>

theorem capitalised_account_mute:
  assumes reg: "service_register E st username password new_id salt now = (st', Inr u)"
    and cap: "has_capital (py_strip (is_space (e_unicode E)) username)"
    and c: "account_username c = Some (u_username u)"
    and acc: "snd (validate_inbound T sv d raw) = Accept e"
  shows "recipient e \<noteq> Some (u_username u) \<and>
    srv_manager (fst (handle_message_send T sv c e)) = srv_manager sv \<and>
    snd (handle_message_send T sv c e) =
      [error_message (te_pydantic T) WS_SENDER_MISMATCH (Some (message_id e)),
       dump (te_pydantic T) (DeliveryAck (message_id e) REJECTED)]"
proof -
  have "u_username u = py_strip (is_space (e_unicode E)) username"
    using reg by (rule register_Inr) auto
  then have no: "\<not> transport_identifier (te_pydantic T) (u_username u)"
    using cap capital_not_identifier by simp
  obtain dct where "validate_envelope (te_pydantic T) dct = Some e"
    using acc validate_inbound_accept [of T sv d raw "fst (validate_inbound T sv d raw)" e] by (metis prod.collapse)
  from validate_envelope_sound(6,7) [OF this] have "transport_identifier (te_pydantic T) (sender e)"
    "\<And>r. recipient e = Some r \<Longrightarrow> transport_identifier (te_pydantic T) r" by auto
  with no have ne: "sender e \<noteq> u_username u" "recipient e \<noteq> Some (u_username u)" by auto
  then have "sender e \<noteq> routing_identity c" using c by (simp add: routing_identity_def)
  with ne show ?thesis by (simp add: handle_message_send_def)
qed

theorem capitalised_account_mute_witness:
  "snd (handle_message_send sample_transport trio_server
       (authenticate (fresh_context ''c1'') (lit ''u1'') (lit ''Alice'') (lit ''s1'')) send_envelope) =
     [error_message sample_pydantic WS_SENDER_MISMATCH (Some 8), dump sample_pydantic (DeliveryAck 8 REJECTED)]"
proof -
  let ?c = "authenticate (fresh_context ''c1'') (lit ''u1'') (lit ''Alice'') (lit ''s1'')"
  have "has_capital (py_strip (is_space (e_unicode sample_env)) (lit ''Alice''))"
    by (simp add: alice_names) (simp add: has_capital_def lit_def)
  moreover have "snd (validate_inbound sample_transport trio_server alice_context send_frame) = Accept send_envelope"
    using frames_accepted(2) [of alice_context] by simp
  ultimately show ?thesis
    using capitalised_account_mute [OF alice_registers, of ?c sample_transport trio_server alice_context send_frame
        send_envelope] by simp
qed

section \<open>Connections per account\<close>

text \<open>\<open>bind_all\<close>: several connections authenticate as one account, one after the other.\<close>

fun bind_all :: "manager \<Rightarrow> ustr list \<Rightarrow> ustr \<Rightarrow> ustr \<Rightarrow> ustr \<Rightarrow> manager" where
  "bind_all m [] uid name sid = m"
| "bind_all m (cid # cids) uid name sid = bind_all (bind_identity m cid uid name sid) cids uid name sid"

lemma bind_all_ok: "manager_ok m \<Longrightarrow> manager_ok (bind_all m cids uid name sid)"
  by (induction cids arbitrary: m) (auto intro: bind_identity_ok)

lemma bind_all_get:
  "dict_get (connections (bind_all m cids uid name sid)) x =
    (if x \<in> set cids then map_option (\<lambda>c. authenticate c uid name sid) (dict_get (connections m) x)
     else dict_get (connections m) x)"
proof (induction cids arbitrary: m)
  case (Cons cid cids)
  have "map_option (\<lambda>c. authenticate c uid name sid) (map_option (\<lambda>c. authenticate c uid name sid) y) =
      map_option (\<lambda>c. authenticate c uid name sid) y" for y
    by (cases y) (simp_all add: authenticate_def)
  then show ?case by (simp add: Cons bind_identity_get)
qed simp

text \<open>
  The bound on connections per client does not bind accounts. It is checked when an
  upgrade is registered under its throwaway name, which nobody shares, and not when the
  connection is bound to an account: any number of registered connections can be bound to the
  same account, and all of them then receive its messages.
\<close>

lemma account_connections_unbounded:
  assumes ok: "manager_ok m" and cids: "distinct cids"
    and reg: "\<And>cid. cid \<in> set cids \<Longrightarrow> get_connection m cid \<noteq> None"
  shows "manager_ok (bind_all m cids uid name sid) \<and>
    length cids \<le> length (connections_for (bind_all m cids uid name sid) name) \<and>
    set cids \<subseteq> connection_id ` set (connections_for (bind_all m cids uid name sid) name)"
proof -
  let ?m = "bind_all m cids uid name sid"
  have ok': "manager_ok ?m" using ok by (rule bind_all_ok)
  then have reg': "registry_ok ?m" by (simp add: manager_ok_def)
  have "holds_identity ?m name cid" if "cid \<in> set cids" for cid
    using reg [OF that] that by (auto simp: holds_identity_def bind_all_get get_connection_def)
  then have sub: "set cids \<subseteq> connection_id ` set (connections_for ?m name)"
    using connections_for_ids(2) [OF reg'] by blast
  have "length cids = card (set cids)" using cids by (simp add: distinct_card)
  also have "\<dots> \<le> card (set (map connection_id (connections_for ?m name)))"
    using sub by (intro card_mono) auto
  also have "\<dots> \<le> length (map connection_id (connections_for ?m name))" by (rule card_length)
  finally show ?thesis using ok' sub by simp
qed

definition crowd :: "string list \<Rightarrow> manager" where
  "crowd ids = fold (\<lambda>cid m. joined m cid) ids (new_manager transport_limits_defaults)"

lemma crowd_four:
  "manager_ok (crowd [''a'', ''b'', ''c'', ''d''])"
  "get_connection (crowd [''a'', ''b'', ''c'', ''d'']) (lit ''a'') \<noteq> None"
  "get_connection (crowd [''a'', ''b'', ''c'', ''d'']) (lit ''b'') \<noteq> None"
  "get_connection (crowd [''a'', ''b'', ''c'', ''d'']) (lit ''c'') \<noteq> None"
  "get_connection (crowd [''a'', ''b'', ''c'', ''d'']) (lit ''d'') \<noteq> None"
  by (simp_all add: crowd_def joined_ok manager_ok_new get_connection_def)

lemma four_distinct: "distinct [lit ''a'', lit ''b'', lit ''c'', lit ''d'']"
  by (simp add: lit_def)

lemma account_connections_unbounded_witness:
  "max_connections_per_client transport_limits_defaults <
     int (length (connections_for (bind_all (crowd [''a'', ''b'', ''c'', ''d''])
       [lit ''a'', lit ''b'', lit ''c'', lit ''d''] (lit ''u1'') (lit ''alice'') (lit ''s1'')) (lit ''alice'')))"
proof -
  have "get_connection (crowd [''a'', ''b'', ''c'', ''d'']) cid \<noteq> None"
    if "cid \<in> set [lit ''a'', lit ''b'', lit ''c'', lit ''d'']" for cid
    using that crowd_four by auto
  then have "length [lit ''a'', lit ''b'', lit ''c'', lit ''d''] \<le>
      length (connections_for (bind_all (crowd [''a'', ''b'', ''c'', ''d''])
       [lit ''a'', lit ''b'', lit ''c'', lit ''d''] (lit ''u1'') (lit ''alice'') (lit ''s1'')) (lit ''alice''))"
    using account_connections_unbounded [OF crowd_four(1), where cids = "[lit ''a'', lit ''b'', lit ''c'', lit ''d'']"
      and uid = "lit ''u1''" and name = "lit ''alice''" and sid = "lit ''s1''"] four_distinct by blast
  then show ?thesis by (simp add: transport_limits_defaults_def del: bind_all.simps)
qed

section \<open>Numbers with too many digits\<close>

lemma digits_utf8:
  assumes "\<forall>x \<in> set s. is_digit x"
  shows "utf8_encode s = Some s"
proof -
  have "ascii s" using assms by (auto simp: ascii_def is_digit_def)
  then show ?thesis by (rule utf8_encode_ascii)
qed

text \<open>
  A frame that is one integer of more than 4300 digits, well below the default size
  bound, ends the handler of any connection, authenticated or not: \<open>json.loads\<close> raises a
  plain \<open>ValueError\<close> that is not caught, instead of the frame being answered with
  \<open>INVALID_JSON\<close>.
\<close>

lemma long_number_ends_handler:
  assumes c: "get_connection (srv_manager sv) cid = Some c"
    and d: "\<forall>x \<in> set (n # ns). is_digit x" "n \<noteq> 48" "4300 < length (n # ns)"
    and size: "int (length (n # ns)) \<le> max_message_bytes (limits (srv_manager sv))"
    and rate: "snd (allow (limiter c) now)"
  shows "\<exists>sv'. recv_frame E sv cid (n # ns) now wall_now = (sv', Raised (JsonError IntegerTooLong)) \<and>
    srv_log sv' = srv_log sv \<and> inbox_of (srv_manager sv') = inbox_of (srv_manager sv)"
proof -
  have j: "json_loads (te_depth E) (n # ns) = Inl IntegerTooLong"
    using loads_long_integer [OF d(1,2)] d(3) by (simp add: max_str_digits_def)
  have "validate_inbound E sv' c' (n # ns) = (sv', Crash IntegerTooLong)" for sv' c'
    by (simp add: validate_inbound_def j)
  then show ?thesis
    using c size rate digits_utf8 [OF d(1)]
    by (auto simp: recv_frame_def Let_def split_beta touch_def not_less with_context_inbox get_connection_def
        with_context_get inbox_of_def fun_eq_iff simp del: utf8_encode.simps)
qed

lemma nines_digits: "\<forall>x \<in> set (57 # replicate n 57). is_digit x"
  by (induction n) (auto simp: is_digit_def)

lemma long_number_ends_handler_witness:
  "\<exists>sv'. recv_frame sample_transport trio_server (lit ''c3'') (57 # replicate 4300 57) 0 (utc 0) =
     (sv', Raised (JsonError IntegerTooLong))"
proof -
  have c: "get_connection (srv_manager trio_server) (lit ''c3'') = Some (fresh_context ''c3'')"
    by (simp add: get_connection_def)
  have d: "\<forall>x \<in> set (57 # replicate 4300 57). is_digit x" by (rule nines_digits)
  have rate: "snd (allow (limiter (fresh_context ''c3'')) 0)"
    by (simp add: allow_def new_limiter_def Let_def)
  have len: "length (57 # replicate 4300 (57 :: nat)) = 4301"
    by (simp only: length_Cons length_replicate)
  show ?thesis
    using long_number_ends_handler [OF c d _ _ _ rate, of sample_transport "utc 0"] len by auto
qed

section \<open>The work of the dummy verification\<close>

text \<open>
  The verification made for an unknown account costs the same as one for a known account
  only under the default Argon2 settings: the dummy hash carries fixed parameters, whatever
  the service is configured with.
\<close>

lemma dummy_work_fixed:
  assumes A: "argon2_ok A"
  shows "a2_extract A (DUMMY_HASH A s) = a2_extract A (hash_password A U c salt pw) \<longleftrightarrow>
    argon2_time_cost c = 3 \<and> argon2_memory_cost_kib c = 65536 \<and> argon2_parallelism c = 4"
proof -
  have "a2_extract A (DUMMY_HASH A s) = Some dummy_params"
    "a2_extract A (hash_password A U c salt pw) = Some (hasher_params c)"
    using A by (simp_all add: argon2_ok_def DUMMY_HASH_def hash_password_def)
  then show ?thesis by (auto simp: dummy_params_def hasher_params_def)
qed

lemma dummy_work_differs:
  "a2_extract sample_argon2 (DUMMY_HASH sample_argon2 0) \<noteq>
     a2_extract sample_argon2 (hash_password sample_argon2 ascii_unicode
       ((e_config sample_env)\<lparr>argon2_time_cost := 8\<rparr>) 7 (lit ''pw''))"
  using dummy_work_fixed [OF sample_argon2_ok, of 0 ascii_unicode "(e_config sample_env)\<lparr>argon2_time_cost := 8\<rparr>"
      7 "lit ''pw''"] by simp

end
