(* ===== verification/HttpRoutes.thy ===== *)
theory HttpRoutes
  imports AuthInv
begin

text \<open>
  The HTTP side of authentication: the request and response models of \<open>auth/schemas.py\<close>,
  the dependencies of \<open>auth/dependencies.py\<close>, the handlers of \<open>auth/routes.py\<close> and the
  exception handlers and health check of \<open>main.py\<close>. A request has the parts the handlers
  look at, and the verdict of the per-address limiter on it; everything a handler draws from
  clocks and random sources is in one record. What FastAPI and pydantic do is a parameter:
  which JSON values are a string, and how the answer is put together from what a handler
  returns and the cookies it set on the injected response object.
\<close>

section \<open>Requests and answers\<close>

record http_request =
  rq_authorization :: "ustr option"
  rq_cookies :: "(ustr, ustr) dict"
  rq_body :: "json option"
  rq_admitted :: bool

record cookie =
  ck_key :: ustr
  ck_value :: ustr
  ck_httponly :: bool
  ck_secure :: bool
  ck_samesite :: ustr
  ck_path :: ustr
  ck_max_age :: int

text \<open>\<open>response.set_cookie(...)\<close> and \<open>response.delete_cookie(key, path, httponly, samesite)\<close>.\<close>

datatype cookie_change = SetCookie cookie | DeleteCookie ustr ustr bool ustr

record http_response =
  rs_status :: int
  rs_body :: "json option"
  rs_cookies :: "cookie_change list"

text \<open>A handler returns a response model with its status code, or a response of its own.\<close>

datatype returned = Model int json | Direct http_response

datatype route_exn = ServiceExn exn | RateLimitExceeded | RequestValidationError

text \<open>
  What the client gets: an answer, the framework's own 422 answer for a body that does not
  validate, or its 500 answer for an exception nobody handles.
\<close>

datatype outcome = Answer http_response | Unprocessable | ServerError exn

record route_env =
  re_auth :: auth_env
  re_pydantic :: pydantic
  re_environ :: "ustr \<Rightarrow> ustr option"
  re_str :: "json \<Rightarrow> ustr option"
  re_finish :: "cookie_change list \<Rightarrow> returned \<Rightarrow> http_response"

text \<open>
  The documented behaviour: a string field takes JSON strings as they are, and every string
  that is valid Unicode; the cookies set on the injected response go out with a returned
  model, while a response that the handler returns itself is passed on as it is.
\<close>

definition framework_ok :: "route_env \<Rightarrow> bool" where
  "framework_ok R \<longleftrightarrow>
     (\<forall>j s. re_str R j = Some s \<longrightarrow> j = JStr s) \<and>
     (\<forall>s. utf8_encode s \<noteq> None \<longrightarrow> re_str R (JStr s) = Some s) \<and>
     (\<forall>cs n j. re_finish R cs (Model n j) = \<lparr>rs_status = n, rs_body = Some j, rs_cookies = cs\<rparr>) \<and>
     (\<forall>cs r. re_finish R cs (Direct r) = r)"

lemma framework_finish:
  assumes "framework_ok R"
  shows "re_finish R cs (Model n j) = \<lparr>rs_status = n, rs_body = Some j, rs_cookies = cs\<rparr>"
    and "re_finish R cs (Direct r) = r"
  using assms by (simp_all add: framework_ok_def)

section \<open>Request and response models\<close>

definition MAX_PASSWORD_FIELD_LENGTH :: nat where
  "MAX_PASSWORD_FIELD_LENGTH = 1024"

text \<open>\<open>Field(min_length=1, max_length=hi)\<close> of a field of type \<open>str\<close>.\<close>

definition text_field :: "route_env \<Rightarrow> nat \<Rightarrow> json option \<Rightarrow> ustr option" where
  "text_field R hi j = (case Option.bind j (re_str R) of
     None \<Rightarrow> None | Some s \<Rightarrow> if 1 \<le> length s \<and> length s \<le> hi then Some s else None)"

text \<open>The validated fields of a request model; \<open>None\<close> is the validation error.\<close>

definition name_and_password :: "route_env \<Rightarrow> json \<Rightarrow> (ustr \<times> ustr) option" where
  "name_and_password R j = (case json_obj j of
     None \<Rightarrow> None
   | Some d \<Rightarrow>
       if \<not> set (map fst d) \<subseteq> {lit ''username'', lit ''password''} then None
       else (case (text_field R 64 (dict_get d (lit ''username'')),
                   text_field R MAX_PASSWORD_FIELD_LENGTH (dict_get d (lit ''password''))) of
               (Some u, Some p) \<Rightarrow> Some (u, p) | _ \<Rightarrow> None))"

definition registration_body :: "route_env \<Rightarrow> json \<Rightarrow> (ustr \<times> ustr) option" where
  "registration_body R j = name_and_password R j"

definition login_body :: "route_env \<Rightarrow> json \<Rightarrow> (ustr \<times> ustr) option" where
  "login_body R j = name_and_password R j"

definition delete_body :: "route_env \<Rightarrow> json \<Rightarrow> ustr option" where
  "delete_body R j = (case json_obj j of
     None \<Rightarrow> None
   | Some d \<Rightarrow> if \<not> set (map fst d) \<subseteq> {lit ''password''} then None
              else text_field R MAX_PASSWORD_FIELD_LENGTH (dict_get d (lit ''password'')))"

record public_user =
  pu_user_id :: ustr
  pu_username :: ustr
  pu_created_at :: datetime

definition from_model :: "user_row \<Rightarrow> public_user" where
  "from_model u = \<lparr>pu_user_id = u_id u, pu_username = u_username u, pu_created_at = u_created_at u\<rparr>"

definition public_user_json :: "pydantic \<Rightarrow> public_user \<Rightarrow> json" where
  "public_user_json P u = JObj
     [(lit ''user_id'', JStr (pu_user_id u)),
      (lit ''username'', JStr (pu_username u)),
      (lit ''created_at'', JStr (pyd_show_datetime P (pu_created_at u)))]"

record authentication_response =
  ar_access_token :: ustr
  ar_expires_in :: int
  ar_user :: public_user

definition authentication_response_json :: "pydantic \<Rightarrow> authentication_response \<Rightarrow> json" where
  "authentication_response_json P a = JObj
     [(lit ''access_token'', JStr (ar_access_token a)),
      (lit ''token_type'', JStr (lit ''Bearer'')),
      (lit ''expires_in'', JInt (ar_expires_in a)),
      (lit ''user'', public_user_json P (ar_user a))]"

record session_status =
  ss_user :: public_user
  ss_session_id :: ustr

definition session_status_json :: "pydantic \<Rightarrow> session_status \<Rightarrow> json" where
  "session_status_json P s = JObj
     [(lit ''authenticated'', JBool True),
      (lit ''user'', public_user_json P (ss_user s)),
      (lit ''session_id'', JStr (ss_session_id s)),
      (lit ''encryption_status'', JStr (lit ''not_implemented'')),
      (lit ''identity_verification_status'', JStr (lit ''not_implemented''))]"

record password_policy_info =
  pp_min_password_length :: int
  pp_max_password_length :: int
  pp_min_username_length :: int
  pp_max_username_length :: int

definition from_config :: "auth_config \<Rightarrow> password_policy_info" where
  "from_config c = \<lparr>
     pp_min_password_length = min_password_length c,
     pp_max_password_length = max_password_length c,
     pp_min_username_length = min_username_length c,
     pp_max_username_length = max_username_length c\<rparr>"

definition password_policy_info_json :: "password_policy_info \<Rightarrow> json" where
  "password_policy_info_json p = JObj
     [(lit ''min_password_length'', JInt (pp_min_password_length p)),
      (lit ''max_password_length'', JInt (pp_max_password_length p)),
      (lit ''min_username_length'', JInt (pp_min_username_length p)),
      (lit ''max_username_length'', JInt (pp_max_username_length p))]"

section \<open>Dependencies\<close>

definition REFRESH_COOKIE_NAME :: ustr where
  "REFRESH_COOKIE_NAME = lit ''ecapp_refresh''"

definition extract_bearer_token :: "unicode_db \<Rightarrow> http_request \<Rightarrow> exn + ustr" where
  "extract_bearer_token U rq =
     (case rq_authorization rq of
        None \<Rightarrow> Inl (auth_raise AUTH_REQUIRED (lit ''missing Authorization header''))
      | Some header \<Rightarrow>
          if header = [] then Inl (auth_raise AUTH_REQUIRED (lit ''missing Authorization header''))
          else (case py_partition 32 header of
                  (scheme, credential) \<Rightarrow>
                    if lower U scheme \<noteq> lit ''bearer'' \<or> py_strip (is_space U) credential = []
                    then Inl (auth_raise AUTH_REQUIRED (lit ''malformed Authorization header''))
                    else Inr (py_strip (is_space U) credential)))"

lemma bearer_read:
  assumes "rq_authorization rq = Some (scheme @ 32 # tok)" and "32 \<notin> set scheme"
    and "lower U scheme = lit ''bearer''" and "py_strip (is_space U) tok = tok" and "tok \<noteq> []"
  shows "extract_bearer_token U rq = Inr tok"
proof -
  have "\<forall>x \<in> set scheme. x \<noteq> 32" using assms(2) by blast
  then have "takeWhile (\<lambda>x. x \<noteq> 32) (scheme @ 32 # tok) = scheme"
    "dropWhile (\<lambda>x. x \<noteq> 32) (scheme @ 32 # tok) = 32 # tok"
    by (simp_all add: takeWhile_append2 dropWhile_append2)
  then show ?thesis using assms by (simp add: extract_bearer_token_def py_partition_def)
qed

text \<open>\<open>t\<close> and \<open>now\<close> are the two clock readings of \<open>resolve_access_token\<close>.\<close>

definition get_current_identity ::
  "auth_env \<Rightarrow> database \<Rightarrow> datetime \<Rightarrow> datetime \<Rightarrow> http_request \<Rightarrow> exn + authenticated_identity" where
  "get_current_identity E db t now rq =
     (case extract_bearer_token (e_unicode E) rq of
        Inl e \<Rightarrow> Inl e
      | Inr token \<Rightarrow> resolve_access_token E db t now token)"

section \<open>Handlers\<close>

text \<open>Everything one request draws: fresh values and readings of the clocks.\<close>

record draw =
  dr_user_id :: ustr
  dr_salt :: nat
  dr_now :: datetime
  dr_mono :: rat
  dr_failure_mono :: rat
  dr_jwt_now :: datetime
  dr_resolve_now :: datetime
  dr_fresh :: fresh

definition refresh_max_age :: int where
  "refresh_max_age = 60 * 60 * 24 * 14"

definition cookie_secure :: "unicode_db \<Rightarrow> (ustr \<Rightarrow> ustr option) \<Rightarrow> bool" where
  "cookie_secure U env =
     (lower U (py_strip (is_space U)
        (case env (lit ''AUTH_COOKIE_SECURE'') of None \<Rightarrow> lit ''false'' | Some v \<Rightarrow> v))
      \<in> {lit ''1'', lit ''true'', lit ''yes''})"

definition set_refresh_cookie :: "issued_credentials \<Rightarrow> bool \<Rightarrow> cookie_change" where
  "set_refresh_cookie c secure = SetCookie \<lparr>ck_key = REFRESH_COOKIE_NAME, ck_value = ic_refresh_token c,
     ck_httponly = True, ck_secure = secure, ck_samesite = lit ''strict'', ck_path = lit ''/auth'',
     ck_max_age = refresh_max_age\<rparr>"

definition clear_refresh_cookie :: cookie_change where
  "clear_refresh_cookie = DeleteCookie REFRESH_COOKIE_NAME (lit ''/auth'') True (lit ''strict'')"

definition to_authentication_response :: "issued_credentials \<Rightarrow> authentication_response" where
  "to_authentication_response c = \<lparr>ar_access_token = ic_access_token c,
     ar_expires_in = ic_expires_in_seconds c,
     ar_user = \<lparr>pu_user_id = ic_user_id c, pu_username = ic_username c,
                pu_created_at = ic_created_at c\<rparr>\<rparr>"

text \<open>
  A handler gives the new state and either the exception it lets through or the cookies set
  on the injected response and what it returns. \<open>after\<close> continues with the result of a
  call of the service.
\<close>

type_synonym handled = "auth_state \<times> (route_exn + cookie_change list \<times> returned)"

definition after :: "('a \<Rightarrow> cookie_change list \<times> returned) \<Rightarrow> auth_state \<times> (exn + 'a) \<Rightarrow> handled" where
  "after k r = apsnd (map_sum ServiceExn k) r"

definition credentials_answer :: "route_env \<Rightarrow> issued_credentials \<Rightarrow> cookie_change list \<times> returned" where
  "credentials_answer R c =
     ([set_refresh_cookie c (cookie_secure (e_unicode (re_auth R)) (re_environ R))],
      Model 200 (authentication_response_json (re_pydantic R) (to_authentication_response c)))"

definition password_policy_route :: "route_env \<Rightarrow> auth_state \<Rightarrow> handled" where
  "password_policy_route R st =
     (st, Inr ([], Model 200 (password_policy_info_json (from_config (e_config (re_auth R))))))"

definition register_route :: "route_env \<Rightarrow> auth_state \<Rightarrow> http_request \<Rightarrow> draw \<Rightarrow> handled" where
  "register_route R st rq d =
     (case Option.bind (rq_body rq) (registration_body R) of
        None \<Rightarrow> (st, Inl RequestValidationError)
      | Some (username, password) \<Rightarrow>
          if \<not> rq_admitted rq then (st, Inl RateLimitExceeded)
          else after (\<lambda>user. ([], Model 201 (public_user_json (re_pydantic R) (from_model user))))
                 (service_register (re_auth R) st username password (dr_user_id d) (dr_salt d) (dr_now d)))"

definition login_route :: "route_env \<Rightarrow> auth_state \<Rightarrow> http_request \<Rightarrow> draw \<Rightarrow> handled" where
  "login_route R st rq d =
     (case Option.bind (rq_body rq) (login_body R) of
        None \<Rightarrow> (st, Inl RequestValidationError)
      | Some (username, password) \<Rightarrow>
          if \<not> rq_admitted rq then (st, Inl RateLimitExceeded)
          else after (credentials_answer R)
                 (service_login (re_auth R) st username password (dr_mono d) (dr_failure_mono d)
                    (dr_salt d) (dr_now d) (dr_fresh d)))"

definition refresh_route :: "route_env \<Rightarrow> auth_state \<Rightarrow> http_request \<Rightarrow> draw \<Rightarrow> handled" where
  "refresh_route R st rq d =
     (case dict_get (rq_cookies rq) REFRESH_COOKIE_NAME of
        None \<Rightarrow> (st, Inl (ServiceExn (auth_raise AUTH_REQUIRED (lit ''missing refresh cookie''))))
      | Some presented \<Rightarrow>
          if presented = []
          then (st, Inl (ServiceExn (auth_raise AUTH_REQUIRED (lit ''missing refresh cookie''))))
          else after (credentials_answer R) (service_refresh (re_auth R) st presented (dr_fresh d)))"

text \<open>
  The routes for a signed-in caller; the identity is resolved before the body is validated.
\<close>

definition with_identity ::
  "route_env \<Rightarrow> auth_state \<Rightarrow> http_request \<Rightarrow> draw \<Rightarrow> (authenticated_identity \<Rightarrow> handled) \<Rightarrow> handled" where
  "with_identity R st rq d k =
     (case get_current_identity (re_auth R) (a_db st) (dr_jwt_now d) (dr_resolve_now d) rq of
        Inl e \<Rightarrow> (st, Inl (ServiceExn e)) | Inr identity \<Rightarrow> k identity)"

definition no_content :: "cookie_change list \<Rightarrow> http_response" where
  "no_content cs = \<lparr>rs_status = 204, rs_body = None, rs_cookies = cs\<rparr>"

text \<open>
  \<open>logout\<close> clears the cookie on the injected response and returns a new response;
  \<open>delete_account\<close> clears it on the response it returns.
\<close>

definition logout_route :: "route_env \<Rightarrow> auth_state \<Rightarrow> http_request \<Rightarrow> draw \<Rightarrow> handled" where
  "logout_route R st rq d = with_identity R st rq d (\<lambda>identity.
     after (\<lambda>_. ([clear_refresh_cookie], Direct (no_content [])))
       (service_logout (re_auth R) st (ai_session_id identity) (dr_now d)))"

definition current_session_route :: "route_env \<Rightarrow> auth_state \<Rightarrow> http_request \<Rightarrow> draw \<Rightarrow> handled" where
  "current_session_route R st rq d = with_identity R st rq d (\<lambda>identity.
     (case get_by_id (e_load (re_auth R)) (a_db st) (ai_user_id identity) of
        Inl e \<Rightarrow> (st, Inl (ServiceExn e))
      | Inr None \<Rightarrow> (st, Inl (ServiceExn (auth_raise AUTH_SESSION_REVOKED (lit ''account vanished''))))
      | Inr (Some user) \<Rightarrow>
          (st, Inr ([], Model 200 (session_status_json (re_pydantic R)
             \<lparr>ss_user = from_model user, ss_session_id = ai_session_id identity\<rparr>)))))"

definition delete_account_route :: "route_env \<Rightarrow> auth_state \<Rightarrow> http_request \<Rightarrow> draw \<Rightarrow> handled" where
  "delete_account_route R st rq d = with_identity R st rq d (\<lambda>identity.
     (case Option.bind (rq_body rq) (delete_body R) of
        None \<Rightarrow> (st, Inl RequestValidationError)
      | Some password \<Rightarrow>
          after (\<lambda>_. ([], Direct (no_content [clear_refresh_cookie])))
            (service_delete_account (re_auth R) st identity password (dr_now d))))"

text \<open>The health check of \<open>main.py\<close>.\<close>

definition health_json :: json where
  "health_json = JObj
     [(lit ''status'', JStr (lit ''ok'')),
      (lit ''phase'', JStr (lit ''3'')),
      (lit ''authentication'', JStr (lit ''implemented'')),
      (lit ''encrypted_messaging'', JStr (lit ''not_implemented''))]"

section \<open>One request\<close>

definition error_json :: "ustr \<Rightarrow> ustr \<Rightarrow> json" where
  "error_json code detail = JObj [(lit ''code'', JStr code), (lit ''detail'', JStr detail)]"

definition rate_limit_handler :: http_response where
  "rate_limit_handler = \<lparr>rs_status = 429,
     rs_body = Some (error_json (auth_error_value AUTH_RATE_LIMITED) (describe_auth AUTH_RATE_LIMITED)),
     rs_cookies = []\<rparr>"

definition answer :: "route_env \<Rightarrow> route_exn + cookie_change list \<times> returned \<Rightarrow> outcome" where
  "answer R r = (case r of
     Inr (cs, x) \<Rightarrow> Answer (re_finish R cs x)
   | Inl RequestValidationError \<Rightarrow> Unprocessable
   | Inl RateLimitExceeded \<Rightarrow> Answer rate_limit_handler
   | Inl (ServiceExn (AuthError e)) \<Rightarrow>
       (case auth_error_handler e of
          (status, code, detail) \<Rightarrow>
            Answer \<lparr>rs_status = status, rs_body = Some (error_json code detail), rs_cookies = []\<rparr>)
   | Inl (ServiceExn e) \<Rightarrow> ServerError e)"

datatype http_route = Health | Policy | Register | Login | Refresh | Logout | CurrentSession | DeleteAccount

text \<open>
  \<open>http\<close>: one request, in the transaction of its database session where the route has one.
\<close>

fun handle_route :: "route_env \<Rightarrow> auth_state \<Rightarrow> http_route \<Rightarrow> http_request \<Rightarrow> draw \<Rightarrow> handled" where
  "handle_route R st Health rq d = (st, Inr ([], Model 200 health_json))"
| "handle_route R st Policy rq d = password_policy_route R st"
| "handle_route R st Register rq d = transaction st (register_route R st rq d)"
| "handle_route R st Login rq d = transaction st (login_route R st rq d)"
| "handle_route R st Refresh rq d = transaction st (refresh_route R st rq d)"
| "handle_route R st Logout rq d = transaction st (logout_route R st rq d)"
| "handle_route R st CurrentSession rq d = transaction st (current_session_route R st rq d)"
| "handle_route R st DeleteAccount rq d = transaction st (delete_account_route R st rq d)"

definition http ::
  "route_env \<Rightarrow> auth_state \<Rightarrow> http_route \<Rightarrow> http_request \<Rightarrow> draw \<Rightarrow> auth_state \<times> outcome" where
  "http R st route rq d = apsnd (answer R) (handle_route R st route rq d)"

text \<open>Several requests, one after the other.\<close>

fun http_run :: "route_env \<Rightarrow> (http_route \<times> http_request \<times> draw) list \<Rightarrow> auth_state \<Rightarrow> auth_state" where
  "http_run R [] st = st"
| "http_run R ((route, rq, d) # rqs) st = http_run R rqs (fst (http R st route rq d))"

end
