(* ===== verification/RouteSamples.thy ===== *)
theory RouteSamples
  imports HttpRoutes Samples TransportSamples
begin

text \<open>
  Concrete instances on which the theorems about routes are applied: a framework that does
  what is documented, and the requests of one account.
\<close>

definition sample_routes :: route_env where
  "sample_routes = \<lparr>re_auth = sample_env, re_pydantic = sample_pydantic, re_environ = (\<lambda>_. None),
     re_str = json_str,
     re_finish = (\<lambda>cs x. case x of
        Model n j \<Rightarrow> \<lparr>rs_status = n, rs_body = Some j, rs_cookies = cs\<rparr> | Direct r \<Rightarrow> r)\<rparr>"

lemma sample_routes_ok: "framework_ok sample_routes"
proof -
  have "json_str j = Some s \<Longrightarrow> j = JStr s" for j s by (cases j) auto
  then show ?thesis by (simp add: framework_ok_def sample_routes_def)
qed

lemma sample_routes_sel [simp]:
  "re_auth sample_routes = sample_env" "re_pydantic sample_routes = sample_pydantic"
  "re_str sample_routes = json_str" "re_environ sample_routes = (\<lambda>_. None)"
  by (simp_all add: sample_routes_def)

definition credentials_request :: "string \<Rightarrow> string \<Rightarrow> http_request" where
  "credentials_request u p = \<lparr>rq_authorization = None, rq_cookies = [],
     rq_body = Some (JObj [(lit ''username'', JStr (lit u)), (lit ''password'', JStr (lit p))]),
     rq_admitted = True\<rparr>"

definition bearer_request :: http_request where
  "bearer_request = \<lparr>rq_authorization = Some (lit ''Bearer'' @ 32 # ic_access_token alice_credentials),
     rq_cookies = [], rq_body = Some (JObj [(lit ''password'', JStr (lit ''correct horse battery''))]),
     rq_admitted = True\<rparr>"

text \<open>What a request at time \<open>t\<close> draws, with the refresh token given.\<close>

definition sample_draw :: "int \<Rightarrow> string \<Rightarrow> draw" where
  "sample_draw t tok = \<lparr>dr_user_id = lit ''u1'', dr_salt = 8, dr_now = utc 0, dr_mono = 0,
     dr_failure_mono = 1, dr_jwt_now = utc t, dr_resolve_now = utc t,
     dr_fresh = sample_fresh ''s1'' tok 5\<rparr>"

lemma sample_draw_sel [simp]:
  "dr_user_id (sample_draw t tok) = lit ''u1''" "dr_salt (sample_draw t tok) = 8"
  "dr_now (sample_draw t tok) = utc 0" "dr_mono (sample_draw t tok) = 0"
  "dr_failure_mono (sample_draw t tok) = 1" "dr_jwt_now (sample_draw t tok) = utc t"
  "dr_resolve_now (sample_draw t tok) = utc t" "dr_fresh (sample_draw t tok) = sample_fresh ''s1'' tok 5"
  by (simp_all add: sample_draw_def)

lemma credentials_read:
  assumes "u \<noteq> []" "length u \<le> 64" "p \<noteq> []" "length p \<le> 1024"
  shows "Option.bind (rq_body (credentials_request u p)) (login_body sample_routes) = Some (lit u, lit p)"
    and "Option.bind (rq_body (credentials_request u p)) (registration_body sample_routes) = Some (lit u, lit p)"
    and "rq_admitted (credentials_request u p)"
  using assms by (auto simp: credentials_request_def login_body_def registration_body_def
      name_and_password_def text_field_def MAX_PASSWORD_FIELD_LENGTH_def Suc_le_eq)

text \<open>The login of the account over HTTP.\<close>

definition login_answer_body :: json where
  "login_answer_body = authentication_response_json sample_pydantic (to_authentication_response alice_credentials)"

lemma alice_http_login:
  "http sample_routes alice_state Login (credentials_request ''alice'' ''correct horse battery'') (sample_draw 6 ''t1'') =
     (alice_online, Answer \<lparr>rs_status = 200, rs_body = Some login_answer_body,
        rs_cookies = [set_refresh_cookie alice_credentials False]\<rparr>)"
proof -
  have "service_login sample_env alice_state (lit ''alice'') (lit ''correct horse battery'') 0 1 8 (utc 0)
      (sample_fresh ''s1'' ''t1'' 5) = (alice_online, Inr alice_credentials)"
    using alice_logs_in(1) by (simp add: alice_online_def alice_login_def prod_eq_iff)
  moreover have "\<not> cookie_secure ascii_unicode (\<lambda>_. None)" by code_simp
  ultimately show ?thesis
    by (simp add: http_def login_route_def credentials_read after_def transaction_def answer_def
        credentials_answer_def framework_finish [OF sample_routes_ok] login_answer_body_def)
qed

lemma strip_kept:
  assumes "s \<noteq> []" and "\<not> p (hd s)" and "\<not> p (last s)"
  shows "py_strip p s = s"
proof -
  have "dropWhile p xs = xs" if "xs \<noteq> []" "\<not> p (hd xs)" for xs using that by (cases xs) auto
  with assms show ?thesis by (simp add: py_strip_def hd_rev)
qed

lemma alice_token_plain:
  "ic_access_token alice_credentials \<noteq> []"
  "py_strip (is_space ascii_unicode) (ic_access_token alice_credentials) = ic_access_token alice_credentials"
proof -
  let ?t = "ic_access_token alice_credentials"
  show ne: "?t \<noteq> []"
    by (simp add: alice_credentials_def credentials_for_def issue_access_token_def sample_jwt_def sample_encode_def
        put_str_def)
  have "hd ?t = 5"
    by (simp add: alice_credentials_def credentials_for_def issue_access_token_def sample_jwt_def sample_encode_def
        put_str_def)
  moreover have "last ?t = 115"
    by (simp add: alice_credentials_def credentials_for_def issue_access_token_def sample_jwt_def sample_encode_def
        put_str_def access_claims_def TOKEN_ACCESS_def) (simp add: lit_def)
  ultimately show "py_strip (is_space ascii_unicode) ?t = ?t"
    using ne by (intro strip_kept) (simp_all add: ascii_unicode_def ascii_space_def)
qed

lemma bearer_spelling:
  "(32 :: nat) \<notin> set (lit ''Bearer'')" "lower ascii_unicode (lit ''Bearer'') = lit ''bearer''"
  by (simp_all add: lit_def ascii_unicode_def ascii_lower_def)

text \<open>The account's bearer token at 6 and 7 microseconds.\<close>

lemma alice_bearer:
  "extract_bearer_token ascii_unicode bearer_request = Inr (ic_access_token alice_credentials)"
  by (rule bearer_read [where scheme = "lit ''Bearer''"])
     (simp_all add: bearer_request_def alice_token_plain bearer_spelling)

lemma alice_identity:
  assumes "t = 6 \<or> t = 7"
  shows "get_current_identity sample_env (a_db alice_online) (utc 6) (utc t) bearer_request =
    Inr \<lparr>ai_user_id = lit ''u1'', ai_username = lit ''Alice'', ai_session_id = lit ''s1''\<rparr>"
  using assms by (auto simp: get_current_identity_def alice_bearer resolve_access_token_def alice_token_decodes
      is_usable_def refresh_expiry_def days_us_def)

text \<open>The same login with another refresh token.\<close>

lemma alice_second_login:
  "snd (http sample_routes alice_state Login (credentials_request ''alice'' ''correct horse battery'') (sample_draw 6 ''t2'')) =
     Answer \<lparr>rs_status = 200, rs_body = Some login_answer_body,
        rs_cookies = [set_refresh_cookie (credentials_for sample_env alice_row (lit ''s1'') (sample_fresh ''s1'' ''t2'' 5)) False]\<rparr>"
proof -
  have b: "login_begin sample_env alice_state (lit ''alice'') 0 =
     (alice_state\<lparr>a_failed_logins := fst (is_blocked (a_failed_logins alice_state) (lit ''alice'') 0)\<rparr>,
      Inr (lit ''alice''))"
    by (simp add: login_begin_def alice_names split_beta)
  have db: "a_db alice_state = \<lparr>user_table = [alice_row], session_table = []\<rparr>"
    by (simp add: alice_state_def log_auth_def)
  have "snd (service_login sample_env alice_state (lit ''alice'') (lit ''correct horse battery'') 0 1 8 (utc 0)
      (sample_fresh ''s1'' ''t2'' 5)) = Inr (credentials_for sample_env alice_row (lit ''s1'') (sample_fresh ''s1'' ''t2'' 5))"
    unfolding service_login_def b
    by (simp add: login_finish_def verify_with_def maybe_rehash_def open_session_def session_create_def Let_def
        credentials_for_def db get_by_normalized_username_def scalar_one_or_none_def log_auth_def)
  moreover have "\<not> cookie_secure ascii_unicode (\<lambda>_. None)" by code_simp
  ultimately show ?thesis
    by (simp add: http_def login_route_def credentials_read after_def answer_def credentials_answer_def
        framework_finish [OF sample_routes_ok] login_answer_body_def to_authentication_response_def
        alice_credentials_def credentials_for_def)
qed

end
