(* ===== verification/RouteProps.thy ===== *)
theory RouteProps
  imports RouteSamples AuthProps
begin

text \<open>
  What the HTTP side promises: requests are atomic, the signed-in routes act on the caller's
  own account only, the round trip of a session from login to logout over the wire format,
  what cookies go out, and the exact answers of registration.
\<close>

section \<open>A request and its state\<close>

lemma after_parts [simp]: "fst (after k r) = fst r" "snd (after k r) = map_sum ServiceExn k (snd r)"
  by (simp_all add: after_def)

lemma http_parts:
  "fst (http R st route rq d) = fst (handle_route R st route rq d)"
  "snd (http R st route rq d) = answer R (snd (handle_route R st route rq d))"
  by (simp_all add: http_def)

text \<open>Every route is one transaction around code that keeps the tables consistent.\<close>

lemma with_identity_state:
  assumes "P st" and "\<And>i. P (fst (k i))"
  shows "P (fst (with_identity R st rq d k))"
  using assms by (simp add: with_identity_def split: sum.split)

lemma route_db_ok:
  assumes "db_ok (a_db st)"
  shows "db_ok (a_db (fst (register_route R st rq d)))"
    and "db_ok (a_db (fst (login_route R st rq d)))"
    and "db_ok (a_db (fst (refresh_route R st rq d)))"
    and "db_ok (a_db (fst (logout_route R st rq d)))"
    and "db_ok (a_db (fst (current_session_route R st rq d)))"
    and "db_ok (a_db (fst (delete_account_route R st rq d)))"
proof -
  show "db_ok (a_db (fst (register_route R st rq d)))" and "db_ok (a_db (fst (login_route R st rq d)))"
    and "db_ok (a_db (fst (refresh_route R st rq d)))"
    using assms by (simp_all add: register_route_def login_route_def refresh_route_def operations_db_ok
        split: option.split prod.split)
  show "db_ok (a_db (fst (logout_route R st rq d)))"
    unfolding logout_route_def by (rule with_identity_state) (use assms in \<open>simp_all add: operations_db_ok\<close>)
  show "db_ok (a_db (fst (current_session_route R st rq d)))"
    unfolding current_session_route_def
    by (rule with_identity_state) (use assms in \<open>simp_all split: sum.split option.split\<close>)
  show "db_ok (a_db (fst (delete_account_route R st rq d)))"
    unfolding delete_account_route_def
    by (rule with_identity_state) (use assms in \<open>simp_all add: operations_db_ok split: option.split\<close>)
qed

lemma handle_route_db_ok:
  "db_ok (a_db st) \<Longrightarrow> db_ok (a_db (fst (handle_route R st route rq d)))"
  by (cases route) (simp_all add: transaction_either [where P = db_ok] route_db_ok password_policy_route_def)

text \<open>A route that raises leaves the tables as they were.\<close>

lemma raising_route_db:
  "snd (handle_route R st route rq d) = Inl e \<Longrightarrow> a_db (fst (handle_route R st route rq d)) = a_db st"
  by (cases route) (simp_all add: transaction_db password_policy_route_def)

lemma handled_status:
  assumes "snd (handle_route R st route rq d) = Inr (cs, x)"
  shows "(\<exists>n j. x = Model n j \<and> n \<in> {200, 201}) \<or> (\<exists>r. x = Direct r \<and> rs_status r = 204)"
  using assms
  by (cases route)
     (auto simp: password_policy_route_def register_route_def login_route_def refresh_route_def
       logout_route_def current_session_route_def delete_account_route_def with_identity_def
       credentials_answer_def no_content_def map_sum_def
       split: option.splits sum.splits prod.splits if_splits)

text \<open>
  C14: requests are atomic. Whatever a request carries and whatever it draws, the tables stay
  consistent, and they are exactly as before unless the client gets a 200, 201 or 204: every
  error answer, every validation error and every unhandled exception goes with a rollback.
\<close>

theorem request_atomic:
  assumes ok: "db_ok (a_db st)" and fw: "framework_ok R" and h: "http R st route rq d = (st', out)"
  shows "db_ok (a_db st') \<and>
    (a_db st' = a_db st \<or> (\<exists>r. out = Answer r \<and> rs_status r \<in> {200, 201, 204}))"
proof
  have st': "st' = fst (handle_route R st route rq d)" and out: "out = answer R (snd (handle_route R st route rq d))"
    using http_parts [of R st route rq d] h by simp_all
  show "db_ok (a_db st')" using handle_route_db_ok [OF ok] by (simp add: st')
  show "a_db st' = a_db st \<or> (\<exists>r. out = Answer r \<and> rs_status r \<in> {200, 201, 204})"
  proof (cases "snd (handle_route R st route rq d)")
    case (Inl e)
    then show ?thesis using raising_route_db st' by blast
  next
    case (Inr p)
    obtain cs x where p: "p = (cs, x)" by (cases p)
    from Inr have "out = Answer (re_finish R cs x)" by (simp add: out answer_def p)
    moreover have "rs_status (re_finish R cs x) \<in> {200, 201, 204}"
      using handled_status [OF Inr [unfolded p]] fw by (auto simp: framework_ok_def)
    ultimately show ?thesis by blast
  qed
qed

theorem request_atomic_witness:
  "a_db (fst (http sample_routes alice_state DeleteAccount (credentials_request ''alice'' ''pw'') (sample_draw 6 ''t1''))) =
     a_db alice_state"
proof -
  let ?h = "http sample_routes alice_state DeleteAccount (credentials_request ''alice'' ''pw'') (sample_draw 6 ''t1'')"
  have "snd ?h = answer sample_routes (Inl (ServiceExn (auth_raise AUTH_REQUIRED (lit ''missing Authorization header''))))"
    by (simp add: http_parts delete_account_route_def with_identity_def get_current_identity_def
        extract_bearer_token_def credentials_request_def)
  then have out: "snd ?h = Answer \<lparr>rs_status = 401,
      rs_body = Some (error_json (auth_error_value AUTH_REQUIRED) (describe_auth AUTH_REQUIRED)), rs_cookies = []\<rparr>"
    by (simp add: answer_def auth_raise_def auth_error_handler_def)
  show ?thesis using request_atomic [OF sample_db_ok(2) sample_routes_ok prod.collapse [symmetric, of ?h]] out by auto
qed

section \<open>Requests as runs of the service's operations\<close>

text \<open>The operations of the service a request comes down to, in the state it meets.\<close>

fun ops_of :: "route_env \<Rightarrow> auth_state \<Rightarrow> http_route \<Rightarrow> http_request \<Rightarrow> draw \<Rightarrow> auth_op list" where
  "ops_of R st Register rq d =
     (case Option.bind (rq_body rq) (registration_body R) of
        None \<Rightarrow> []
      | Some (u, p) \<Rightarrow> if rq_admitted rq then [OpRegister u p (dr_user_id d) (dr_salt d) (dr_now d)] else [])"
| "ops_of R st Login rq d =
     (case Option.bind (rq_body rq) (login_body R) of
        None \<Rightarrow> []
      | Some (u, p) \<Rightarrow> if rq_admitted rq
          then OpLoginBegin u (dr_mono d) #
            (case snd (login_begin (re_auth R) st u (dr_mono d)) of
               Inl e \<Rightarrow> []
             | Inr n \<Rightarrow> [OpLoginFinish n p (dr_failure_mono d) (dr_salt d) (dr_now d) (dr_fresh d)])
          else [])"
| "ops_of R st Refresh rq d =
     (case dict_get (rq_cookies rq) REFRESH_COOKIE_NAME of
        None \<Rightarrow> [] | Some t \<Rightarrow> if t = [] then [] else [OpRefresh t (dr_fresh d)])"
| "ops_of R st Logout rq d =
     (case get_current_identity (re_auth R) (a_db st) (dr_jwt_now d) (dr_resolve_now d) rq of
        Inl e \<Rightarrow> [] | Inr i \<Rightarrow> [OpLogout (ai_session_id i) (dr_now d)])"
| "ops_of R st DeleteAccount rq d =
     (case get_current_identity (re_auth R) (a_db st) (dr_jwt_now d) (dr_resolve_now d) rq of
        Inl e \<Rightarrow> []
      | Inr i \<Rightarrow> (case Option.bind (rq_body rq) (delete_body R) of
          None \<Rightarrow> [] | Some p \<Rightarrow> [OpDelete i p (dr_now d)]))"
| "ops_of R st _ rq d = []"

fun run_ops :: "route_env \<Rightarrow> (http_route \<times> http_request \<times> draw) list \<Rightarrow> auth_state \<Rightarrow> auth_op list" where
  "run_ops R [] st = []"
| "run_ops R ((route, rq, d) # rqs) st =
     ops_of R st route rq d @ run_ops R rqs (fst (http R st route rq d))"

lemma transaction_after: "fst (transaction st (after k r)) = fst (transaction st r)"
  by (cases r) (auto simp: transaction_def after_def split: sum.split)

lemma transaction_same: "fst (transaction st (st, r)) = st"
  by (simp add: transaction_def split: sum.split)

lemma transaction_base: "a_db st = a_db st' \<Longrightarrow> transaction st r = transaction st' r"
  by (auto simp: transaction_def split: prod.split sum.split)

lemma login_transaction:
  assumes b: "login_begin E st u t = (st1, r)"
  shows "fst (transaction st (service_login E st u p t t' salt rnow f)) =
    auth_run E (case r of Inl e \<Rightarrow> [] | Inr n \<Rightarrow> [OpLoginFinish n p t' salt rnow f]) st1"
proof -
  have db: "a_db st = a_db st1" using b by (metis fst_conv login_begin_db)
  show ?thesis
    by (simp add: service_login_def b transaction_base [OF db] transaction_same auth_run_def split: sum.split)
qed

lemma request_ops: "fst (http R st route rq d) = auth_run (re_auth R) (ops_of R st route rq d) st"
proof (cases route)
  case Login
  have "fst (http R st Login rq d) = auth_run (re_auth R) (ops_of R st Login rq d) st"
  proof (cases "Option.bind (rq_body rq) (login_body R)")
    case (Some p)
    obtain u pw where p: "p = (u, pw)" by (cases p)
    obtain st1 r where b: "login_begin (re_auth R) st u (dr_mono d) = (st1, r)" by fastforce
    show ?thesis
      by (cases "rq_admitted rq")
         (simp_all add: http_def login_route_def Some p b transaction_after transaction_same
           login_transaction [OF b] auth_run_def split: sum.split)
  qed (simp add: http_def login_route_def transaction_same auth_run_def)
  with Login show ?thesis by simp
qed (auto simp: http_def register_route_def refresh_route_def logout_route_def delete_account_route_def
      current_session_route_def with_identity_def password_policy_route_def transaction_after
      transaction_same auth_run_def split: option.split sum.split prod.split)

text \<open>
  HTTP adds nothing to the service. Any sequence of requests leaves exactly the state
  that the operations of the service they come down to leave, in that order; the operations
  are those a request names in its body or cookie, and for the signed-in routes those of the
  identity its token resolves to at that moment.
\<close>

lemma requests_are_operations:
  "http_run R rqs st = auth_run (re_auth R) (run_ops R rqs st) st"
proof (induction R rqs st rule: http_run.induct)
  case (2 R route rq d rqs st)
  then show ?case by (simp add: request_ops auth_run_def)
qed (simp add: auth_run_def)

definition web_step :: "route_env \<Rightarrow> http_route \<times> http_request \<times> draw \<Rightarrow> auth_state \<Rightarrow> auth_state" where
  "web_step R x st = (case x of (route, rq, d) \<Rightarrow> fst (http R st route rq d))"

definition draws_session :: "http_route \<times> http_request \<times> draw \<Rightarrow> ustr \<Rightarrow> bool" where
  "draws_session x sid \<longleftrightarrow> (case x of (route, rq, d) \<Rightarrow> route = Login \<and> f_session_id (dr_fresh d) = sid)"

lemma http_run_fold: "http_run R rqs st = fold (web_step R) rqs st"
  by (induction R rqs st rule: http_run.induct) (simp_all add: web_step_def)

lemma ops_open: "op \<in> set (ops_of R st route rq d) \<Longrightarrow> opens_session op sid \<Longrightarrow> draws_session (route, rq, d) sid"
  by (cases route) (auto simp: draws_session_def split: option.splits sum.splits prod.splits if_splits)

interpretation web: revocable "web_step R" "\<lambda>st. db_ok (a_db st)" session_live draws_session for R
proof
  fix st :: auth_state and x :: "http_route \<times> http_request \<times> draw" and k
  obtain route rq d where x: "x = (route, rq, d)" by (cases x)
  have step: "web_step R x st = fold (auth_step (re_auth R)) (ops_of R st route rq d) st"
    by (simp add: web_step_def x request_ops auth_run_def)
  assume ok: "db_ok (a_db st)"
  then show "db_ok (a_db (web_step R x st))" unfolding step by (rule sess.run_ok)
  assume "session_live (web_step R x st) k"
  then have "session_live (fold (auth_step (re_auth R)) (ops_of R st route rq d) st) k"
    by (simp only: step)
  then show "session_live st k \<or> draws_session x k"
    using sess.dead_stays_dead [OF ok] ops_open [of _ R st route rq d k] unfolding x by blast
qed

section \<open>Sessions over HTTP\<close>

lemma service_login_status:
  assumes ok: "db_ok (a_db st)"
    and fail: "snd (service_login E st username pw t t' salt rnow f) = Inl (AuthError e)"
  shows "err_status e \<in> {401, 429}"
proof (cases "login_begin E st username t")
  case (Pair st1 r)
  show ?thesis
  proof (cases r)
    case (Inl x)
    then have "x = AuthError e" using fail Pair by (simp add: service_login_def)
    with login_begin_Inl [OF Pair [unfolded Inl]] show ?thesis
      by (auto simp: auth_raise_def auth_raise_status_def)
  next
    case (Inr n)
    then have fin: "snd (login_finish E st1 n pw t' salt rnow f) = Inl (AuthError e)"
      using fail Pair by (simp add: service_login_def)
    have "db_ok (a_db st1)" using ok Pair by (metis fst_conv login_begin_db)
    then show ?thesis
    proof (cases rule: login_finish_cases [where n = n and E = E and pw = pw and t = t'
          and salt = salt and rnow = rnow and f = f])
      case (accepted u st2)
      let ?o = "open_session E (st2\<lparr>a_failed_logins := reset_failures (a_failed_logins st2) n\<rparr>)
          (load_user (e_load E) u) f"
      have "snd ?o = Inl (AuthError e)"
        using fin unfolding accepted(5) by (cases ?o) (auto split: sum.splits)
      then show ?thesis using open_session_exn by blast
    qed (use fin in \<open>auto simp: auth_raise_def\<close>)
  qed
qed

lemma answer_Answer:
  "answer R r = Answer a \<longleftrightarrow> (\<exists>cs x. r = Inr (cs, x) \<and> a = re_finish R cs x) \<or>
     (r = Inl RateLimitExceeded \<and> a = rate_limit_handler) \<or>
     (\<exists>e. r = Inl (ServiceExn (AuthError e)) \<and>
        a = \<lparr>rs_status = err_status e,
             rs_body = Some (error_json (auth_error_value (err_code e)) (describe_auth (err_code e))),
             rs_cookies = []\<rparr>)"
  by (auto simp: answer_def auth_error_handler_def split: sum.split route_exn.split exn.split)

lemma map_sum_eq_iff:
  "map_sum f g x = Inr y \<longleftrightarrow> (\<exists>z. x = Inr z \<and> y = g z)"
  "map_sum f g x = Inl y' \<longleftrightarrow> (\<exists>z. x = Inl z \<and> y' = f z)"
  by (cases x; auto)+

text \<open>What a login that is answered with 200 was.\<close>

lemma login_answer:
  assumes ok: "db_ok (a_db st)" and fw: "framework_ok R"
    and h: "http R st Login rq d = (st1, Answer r)" and r: "rs_status r = 200"
  obtains u p c where "Option.bind (rq_body rq) (login_body R) = Some (u, p)"
    and "service_login (re_auth R) st u p (dr_mono d) (dr_failure_mono d) (dr_salt d) (dr_now d) (dr_fresh d)
          = (st1, Inr c)"
    and "r = \<lparr>rs_status = 200,
           rs_body = Some (authentication_response_json (re_pydantic R) (to_authentication_response c)),
           rs_cookies = [set_refresh_cookie c (cookie_secure (e_unicode (re_auth R)) (re_environ R))]\<rparr>"
proof -
  let ?l = "\<lambda>u p. service_login (re_auth R) st u p (dr_mono d) (dr_failure_mono d) (dr_salt d) (dr_now d) (dr_fresh d)"
  have a: "answer R (snd (login_route R st rq d)) = Answer r"
    and st1: "st1 = fst (transaction st (login_route R st rq d))"
    using h by (simp_all add: http_def apsnd_def map_prod_def split_beta)
  from a r obtain u p where b: "Option.bind (rq_body rq) (login_body R) = Some (u, p)" "rq_admitted rq"
    by (auto simp: answer_def login_route_def rate_limit_handler_def split: option.splits if_splits)
  from a obtain c where c: "snd (?l u p) = Inr c"
    "r = re_finish R [set_refresh_cookie c (cookie_secure (e_unicode (re_auth R)) (re_environ R))]
       (Model 200 (authentication_response_json (re_pydantic R) (to_authentication_response c)))"
    using r service_login_status [OF ok, of "re_auth R" u p "dr_mono d" "dr_failure_mono d" "dr_salt d" "dr_now d" "dr_fresh d"]
    by (auto simp: login_route_def b answer_Answer map_sum_eq_iff credentials_answer_def)
  show thesis
  proof (rule that [OF b(1)])
    show "?l u p = (st1, Inr c)"
      using c(1) by (simp add: st1 login_route_def b transaction_def after_def prod_eq_iff split: prod.split)
    show "r = \<lparr>rs_status = 200,
           rs_body = Some (authentication_response_json (re_pydantic R) (to_authentication_response c)),
           rs_cookies = [set_refresh_cookie c (cookie_secure (e_unicode (re_auth R)) (re_environ R))]\<rparr>"
      using c(2) fw by (simp add: framework_ok_def)
  qed
qed

text \<open>A token whose session is dead gets 401 from every signed-in route.\<close>

lemma dead_session_401:
  assumes ok: "db_ok (a_db st)" and dead: "\<not> session_live st sid"
    and bearer: "extract_bearer_token (e_unicode (re_auth R)) rq = Inr tok"
    and dec: "decode_access_token (e_jwt (re_auth R)) (e_unicode (re_auth R)) (e_config (re_auth R)) (dr_jwt_now d) tok
        \<in> {Inl (auth_raise AUTH_TOKEN_EXPIRED reason), Inr claims}" and sid: "c_session_id claims = sid"
  shows "\<exists>e. get_current_identity (re_auth R) (a_db st) (dr_jwt_now d) (dr_resolve_now d) rq = Inl (AuthError e) \<and>
    err_status e = 401"
proof (cases "decode_access_token (e_jwt (re_auth R)) (e_unicode (re_auth R)) (e_config (re_auth R)) (dr_jwt_now d) tok")
  case (Inl x)
  then show ?thesis using dec
    by (auto simp: get_current_identity_def bearer resolve_access_token_def auth_raise_def)
next
  case (Inr c)
  then have c: "c_session_id c = sid" using dec sid by auto
  show ?thesis
  proof (cases "session_at (a_db st) sid")
    case None
    then show ?thesis using ok
      by (simp add: get_current_identity_def bearer resolve_access_token_def Inr c auth_raise_def)
  next
    case (Some s)
    then have "s_revoked_at s \<noteq> None" using dead by (simp add: session_live_def)
    then have "is_usable (load_session (e_load (re_auth R)) s) (dr_resolve_now d) = Inr False"
      by (simp add: is_usable_def load_session_def)
    then show ?thesis using ok Some
      by (simp add: get_current_identity_def bearer resolve_access_token_def Inr c auth_raise_def)
  qed
qed

lemma logout_kills:
  assumes "db_ok (a_db st)"
  shows "\<not> session_live (fst (service_logout E st sid now)) sid" and "\<exists>u. snd (service_logout E st sid now) = Inr u"
  using assms by (auto simp: session_live_row logout_db row_live_def revoke_def session_at_update
      service_logout_def Let_def split: option.split dest: row_at_Some_in)

text \<open>What the body of a login's answer says, and the state it leaves.\<close>

lemma login_over_http:
  assumes ok: "db_ok (a_db st)" and fw: "framework_ok R"
    and login: "http R st Login rq d = (st1, Answer r1)" "rs_status r1 = 200"
    and body: "rs_body r1 = Some (JObj b)" "dict_get b (lit ''access_token'') = Some (JStr tok)"
  obtains name pw c u where "service_login (re_auth R) st name pw (dr_mono d) (dr_failure_mono d)
      (dr_salt d) (dr_now d) (dr_fresh d) = (st1, Inr c)"
    and "tok = issue_access_token (e_jwt (re_auth R)) (e_config (re_auth R)) (u_id u)
           (f_session_id (dr_fresh d)) (f_token_id (dr_fresh d)) (f_now (dr_fresh d))"
    and "ic_access_token c = tok" and "ic_session_id c = f_session_id (dr_fresh d)"
    and "ic_user_id c = u_id u" and "user_at (a_db st1) (u_id u) = Some u" and "db_ok (a_db st1)"
    and "dict_get b (lit ''user'') =
           Some (public_user_json (re_pydantic R) (from_model (load_user (e_load (re_auth R)) u)))"
proof -
  let ?f = "dr_fresh d"
  obtain name pw c where L0: "service_login (re_auth R) st name pw (dr_mono d) (dr_failure_mono d)
      (dr_salt d) (dr_now d) ?f = (st1, Inr c)"
    and r1: "r1 = \<lparr>rs_status = 200,
           rs_body = Some (authentication_response_json (re_pydantic R) (to_authentication_response c)),
           rs_cookies = [set_refresh_cookie c (cookie_secure (e_unicode (re_auth R)) (re_environ R))]\<rparr>"
    using login_answer [OF ok fw login] by metis
  obtain n u h u' where L: "c = credentials_for (re_auth R) (load_user (e_load (re_auth R)) u) (f_session_id ?f) ?f"
    "user_at (a_db st1) (u_id u) = Some u'" "u_id u' = u_id u" "u_username u' = u_username u"
    "db_ok (a_db st1)" "u_created_at u' = u_created_at u"
    by (rule login_Inr [OF ok L0])
  show thesis
    by (rule that [OF L0, of u'])
       (use L body in \<open>auto simp: r1 authentication_response_json_def to_authentication_response_def
          credentials_for_def from_model_def load_user_def\<close>)
qed

text \<open>A logout of a resolved caller.\<close>

lemma logout_over_http:
  assumes ok: "db_ok (a_db st)" and fw: "framework_ok R"
    and ident: "get_current_identity (re_auth R) (a_db st) (dr_jwt_now d) (dr_resolve_now d) rq = Inr i"
  shows "snd (http R st Logout rq d) = Answer (no_content [])"
    and "db_ok (a_db (fst (http R st Logout rq d)))"
    and "\<not> session_live (fst (http R st Logout rq d)) (ai_session_id i)"
proof -
  let ?lo = "service_logout (re_auth R) st (ai_session_id i) (dr_now d)"
  obtain x where lo: "snd ?lo = Inr x" using logout_kills(2) [OF ok] by blast
  then have st: "fst (http R st Logout rq d) = fst ?lo"
    using ident by (simp add: http_def logout_route_def with_identity_def transaction_after)
      (simp add: transaction_def split_beta)
  show "snd (http R st Logout rq d) = Answer (no_content [])"
    using fw lo ident by (simp add: http_def logout_route_def with_identity_def answer_def framework_ok_def)
  show "db_ok (a_db (fst (http R st Logout rq d)))" and "\<not> session_live (fst (http R st Logout rq d)) (ai_session_id i)"
    using service_db_ok(2) [OF ok] logout_kills(1) [OF ok] by (simp_all add: st)
qed

text \<open>A request of a caller whose identity does not resolve changes nothing.\<close>

lemma unidentified:
  assumes "get_current_identity (re_auth R) (a_db st) (dr_jwt_now d) (dr_resolve_now d) rq = Inl e"
    and "rt \<in> {CurrentSession, Logout, DeleteAccount}"
  shows "http R st rt rq d = (st, answer R (Inl (ServiceExn e)))"
  using assms by (auto simp: http_def current_session_route_def logout_route_def delete_account_route_def
      with_identity_def transaction_def)

text \<open>
  C13: the life of a session over HTTP. A login answered with 200 gives an access token; a caller
  presents it, until it expires, behind a bearer scheme in whatever spelling. As long as the
  expiry of the session, as the database gives it back, compares as later than the clock, the
  session route answers 200 with the session's id and the account the login reported, the logout
  route answers 204, and after any further requests that token gets 401, whenever it is presented.
  Once the expiry compares as past, every route that needs a session answers 401. Where the two do
  not compare, all of them fail with an unhandled \<open>TypeError\<close> and change nothing, so that the
  session cannot be ended either; with the driver the repository installs that is always so.
\<close>

theorem session_lifecycle:
  assumes ok: "db_ok (a_db st)" and fw: "framework_ok R" and E: "E = re_auth R"
    and J: "jwt_ok (e_jwt E) (signing_secret (e_config E))" and alg: "algorithm (e_config E) = lit ''HS256''"
    and login: "http R st Login rq d = (st1, Answer r1)" "rs_status r1 = 200"
    and clock: "f_now (dr_fresh d) = utc t0" "0 \<le> t0" "t0 \<le> now" "0 \<le> access_token_ttl_minutes (e_config E)"
    and range: "t0 + minutes_us (access_token_ttl_minutes (e_config E)) < 253402300800 * 1000000"
    and before: "now div 1000000 < (t0 + minutes_us (access_token_ttl_minutes (e_config E))) div 1000000"
    and body: "rs_body r1 = Some (JObj b)" "dict_get b (lit ''access_token'') = Some (JStr tok)"
    and tok: "py_strip (is_space (e_unicode E)) tok = tok" "tok \<noteq> []"
    and rq2: "rq_authorization rq2 = Some (scheme @ 32 # tok)" "32 \<notin> set scheme" "lower (e_unicode E) scheme = lit ''bearer''"
    and d2: "dr_jwt_now d2 = utc now" "dr_resolve_now d2 = utc now'"
    and st3: "st3 = http_run R rqs (fst (http R st1 Logout rq2 d2))"
      "\<And>x. x \<in> set rqs \<Longrightarrow> \<not> draws_session x (f_session_id (dr_fresh d))"
    and d3: "dr_jwt_now d3 = utc now3" "t0 \<le> now3"
  shows "(case dt_gt (e_load E (refresh_expiry (e_config E) (utc t0))) (utc now') of
      Some True \<Rightarrow>
        (\<exists>b2. snd (http R st1 CurrentSession rq2 d2) = Answer \<lparr>rs_status = 200, rs_body = Some (JObj b2), rs_cookies = []\<rparr> \<and>
          dict_get b2 (lit ''session_id'') = Some (JStr (f_session_id (dr_fresh d))) \<and>
          dict_get b2 (lit ''user'') = dict_get b (lit ''user'')) \<and>
        snd (http R st1 Logout rq2 d2) = Answer (no_content []) \<and>
        (\<exists>r3. snd (http R st3 CurrentSession rq2 d3) = Answer r3 \<and> rs_status r3 = 401)
    | Some False \<Rightarrow> (\<forall>rt \<in> {CurrentSession, Logout, DeleteAccount}.
        \<exists>r2. http R st1 rt rq2 d2 = (st1, Answer r2) \<and> rs_status r2 = 401)
    | None \<Rightarrow> (\<forall>rt \<in> {CurrentSession, Logout, DeleteAccount}. http R st1 rt rq2 d2 = (st1, ServerError TypeError))) \<and>
    (e_load E = sqlite_load \<longrightarrow>
      (\<forall>rt \<in> {CurrentSession, Logout, DeleteAccount}. http R st1 rt rq2 d2 = (st1, ServerError TypeError)))"
proof -
  let ?f = "dr_fresh d"
  obtain name pw c u where L: "service_login E st name pw (dr_mono d) (dr_failure_mono d) (dr_salt d) (dr_now d) ?f = (st1, Inr c)"
    "tok = issue_access_token (e_jwt E) (e_config E) (u_id u) (f_session_id ?f) (f_token_id ?f) (f_now ?f)"
    "ic_access_token c = tok" "ic_session_id c = f_session_id ?f" "ic_user_id c = u_id u"
    "user_at (a_db st1) (u_id u) = Some u" "db_ok (a_db st1)"
    "dict_get b (lit ''user'') = Some (public_user_json (re_pydantic R) (from_model (load_user (e_load E) u)))"
    unfolding E by (rule login_over_http [OF ok fw login body])
  have bearer: "extract_bearer_token (e_unicode (re_auth R)) rq2 = Inr tok"
    using rq2(1,2) rq2(3) tok unfolding E by (rule bearer_read)
  let ?v = "session_verdict E (utc t0) (utc now')"
  from login_resolves [OF ok J alg L(1) clock range before, of "utc now'"] obtain w :: user_row where "ic_user_id c = u_id w"
    "resolve_access_token E (a_db st1) (utc now) (utc now') (ic_access_token c) =
      map_sum id (\<lambda>_. \<lparr>ai_user_id = u_id w, ai_username = u_username w, ai_session_id = ic_session_id c\<rparr>) ?v"
    by blast
  then obtain name where "resolve_access_token E (a_db st1) (utc now) (utc now') tok =
      map_sum id (\<lambda>_. \<lparr>ai_user_id = u_id u, ai_username = name, ai_session_id = f_session_id ?f\<rparr>) ?v"
    using L(3-5) by metis
  then have ident: "get_current_identity (re_auth R) (a_db st1) (dr_jwt_now d2) (dr_resolve_now d2) rq2 =
      map_sum id (\<lambda>_. \<lparr>ai_user_id = u_id u, ai_username = name, ai_session_id = f_session_id ?f\<rparr>) ?v"
    by (simp add: get_current_identity_def bearer d2 E)
  have refused: "http R st1 rt rq2 d2 = (st1, answer R (Inl (ServiceExn e)))"
    if "?v = Inl e" "rt \<in> {CurrentSession, Logout, DeleteAccount}" for e rt
    by (rule unidentified [OF _ that(2)]) (simp add: ident that(1))
  have type_error: "http R st1 rt rq2 d2 = (st1, ServerError TypeError)"
    if "?v = Inl TypeError" "rt \<in> {CurrentSession, Logout, DeleteAccount}" for rt
    using refused [OF that] by (simp add: answer_def)
  have expired: "\<exists>r2. http R st1 rt rq2 d2 = (st1, Answer r2) \<and> rs_status r2 = 401"
    if "?v = Inl (auth_raise AUTH_SESSION_REVOKED (lit ''session expired''))"
      "rt \<in> {CurrentSession, Logout, DeleteAccount}" for rt
    using refused [OF that] by (simp add: answer_def auth_raise_def auth_error_handler_def)
  have good: "(\<exists>b2. snd (http R st1 CurrentSession rq2 d2) = Answer \<lparr>rs_status = 200, rs_body = Some (JObj b2), rs_cookies = []\<rparr> \<and>
        dict_get b2 (lit ''session_id'') = Some (JStr (f_session_id ?f)) \<and> dict_get b2 (lit ''user'') = dict_get b (lit ''user'')) \<and>
      snd (http R st1 Logout rq2 d2) = Answer (no_content []) \<and>
      (\<exists>r3. snd (http R st3 CurrentSession rq2 d3) = Answer r3 \<and> rs_status r3 = 401)" if v: "?v = Inr ()"
  proof -
    have i: "get_current_identity (re_auth R) (a_db st1) (dr_jwt_now d2) (dr_resolve_now d2) rq2 =
        Inr \<lparr>ai_user_id = u_id u, ai_username = name, ai_session_id = f_session_id ?f\<rparr>" using ident v by simp
    note lo = logout_over_http [OF L(7) fw i]
    have dead: "\<not> session_live st3 (f_session_id ?f)" and ok3: "db_ok (a_db st3)"
      using web.dead_stays_dead [OF lo(2) _ st3(2)] web.run_ok [OF lo(2)] lo(3)
      by (simp_all add: st3(1) http_run_fold)
    let ?claims = "\<lparr>c_user_id = u_id u, c_session_id = f_session_id ?f, c_token_id = f_token_id ?f,
         c_issued_at = from_timestamp (t0 div 1000000),
         c_expires_at = from_timestamp ((t0 + minutes_us (access_token_ttl_minutes (e_config E))) div 1000000)\<rparr>"
    have dec: "decode_access_token (e_jwt E) (e_unicode E) (e_config E) (dr_jwt_now d3) tok
        \<in> {Inl (auth_raise AUTH_TOKEN_EXPIRED (lit ''access token expired'')), Inr ?claims}"
      using decode_issued [OF J alg clock(2) d3(2) clock(4) range] by (simp add: L(2) clock(1) d3(1))
    obtain e where e: "get_current_identity (re_auth R) (a_db st3) (dr_jwt_now d3) (dr_resolve_now d3) rq2 = Inl (AuthError e)"
      "err_status e = 401"
      using dead_session_401 [OF ok3 dead bearer dec [unfolded E]] by auto
    have "\<exists>r3. snd (http R st3 CurrentSession rq2 d3) = Answer r3 \<and> rs_status r3 = 401"
      using e by (simp add: http_def current_session_route_def with_identity_def answer_def auth_error_handler_def)
    moreover have "\<exists>b2. snd (http R st1 CurrentSession rq2 d2) = Answer \<lparr>rs_status = 200, rs_body = Some (JObj b2), rs_cookies = []\<rparr> \<and>
        dict_get b2 (lit ''session_id'') = Some (JStr (f_session_id (dr_fresh d))) \<and>
        dict_get b2 (lit ''user'') = dict_get b (lit ''user'')"
      using fw i L(6-8) E by (simp add: http_def current_session_route_def with_identity_def answer_def
          framework_ok_def session_status_json_def)
    ultimately show ?thesis using lo(1) by blast
  qed
  show ?thesis
  proof (cases "dt_gt (e_load E (refresh_expiry (e_config E) (utc t0))) (utc now')")
    case None
    then have "?v = Inl TypeError" by (simp add: session_verdict_def)
    from type_error [OF this] show ?thesis by (simp only: None option.case) blast
  next
    case (Some x)
    have no: "e_load E \<noteq> sqlite_load" using Some sqlite_verdict [of E t0 now'] by (auto simp: session_verdict_def auth_raise_def split: bool.splits)
    show ?thesis
    proof (cases x)
      case True
      then have "?v = Inr ()" using Some by (simp add: session_verdict_def)
      from good [OF this] no show ?thesis by (simp only: Some True option.case bool.case) blast
    next
      case False
      then have "?v = Inl (auth_raise AUTH_SESSION_REVOKED (lit ''session expired''))" using Some by (simp add: session_verdict_def)
      from expired [OF this] no show ?thesis by (simp only: Some False option.case bool.case) blast
    qed
  qed
qed

theorem session_lifecycle_witness:
  "snd (http sample_routes alice_online Logout bearer_request (sample_draw 6 ''t1'')) = Answer (no_content []) \<and>
   (\<exists>r. snd (http sample_routes (fst (http sample_routes alice_online Logout bearer_request (sample_draw 6 ''t1'')))
       CurrentSession bearer_request (sample_draw 8 ''t1'')) = Answer r \<and> rs_status r = 401)"
proof -
  obtain b where b: "login_answer_body = JObj b" "dict_get b (lit ''access_token'') = Some (JStr (ic_access_token alice_credentials))"
    by (simp add: login_answer_body_def authentication_response_json_def to_authentication_response_def)
  have rq: "rq_authorization bearer_request = Some (lit ''Bearer'' @ 32 # ic_access_token alice_credentials)"
    by (simp add: bearer_request_def)
  show ?thesis
    using session_lifecycle [OF sample_db_ok(2) sample_routes_ok refl _ _ alice_http_login _ _ _ _ _ _ _ _ b(2) _ _ rq,
        where ?rqs = "[]" and ?t0.0 = 5 and now = 6 and now' = 6 and ?now3.0 = 8 and ?d2.0 = "sample_draw 6 ''t1''"
        and ?d3.0 = "sample_draw 8 ''t1''"] sample_jwt_ok b(1) alice_token_plain bearer_spelling
    by (auto simp: minutes_us_def days_us_def refresh_expiry_def)
qed

end
