(* ===== verification/RouteRules.thy ===== *)
theory RouteRules
  imports RouteProps
begin

text \<open>
  What a single request may do and say: the signed-in routes touch the caller's own rows
  only, which cookies go out with what attributes, where the refresh token appears, and the
  exact answers of registration.
\<close>

section \<open>The caller's own account\<close>

text \<open>The rows of everybody but one account.\<close>

definition others :: "database \<Rightarrow> ustr \<Rightarrow> database" where
  "others db uid = \<lparr>user_table = filter (\<lambda>u. u_id u \<noteq> uid) (user_table db),
     session_table = filter (\<lambda>s. s_user_id s \<noteq> uid) (session_table db)\<rparr>"

lemma filter_map_same:
  assumes "\<And>x. x \<in> set xs \<Longrightarrow> P x \<Longrightarrow> g x = x" and "\<And>x. x \<in> set xs \<Longrightarrow> P (g x) = P x"
  shows "filter P (map g xs) = filter P xs"
  using assms by (induction xs) auto

lemma others_revoke:
  assumes ok: "db_ok db" and s: "session_at db sid = Some s" "s_user_id s = uid"
  shows "others (revoke db (load_session load s) now) uid = others db uid"
proof -
  have own: "s_user_id x = uid" if "x \<in> set (session_table db)" "s_id x = s_id s" for x
  proof -
    have "session_at db (s_id x) = Some x" using that(1) ok by (simp add: db_ok_def row_at_in)
    moreover have "s_id s = sid" using row_at_Some_in [OF s(1)] by blast
    ultimately have "x = s" using s(1) that(2) by (metis option.inject)
    then show ?thesis using s(2) by blast
  qed
  show ?thesis unfolding others_def
    by (auto simp: revoke_def session_update_def intro!: filter_map_same dest: own split: if_split_asm)
qed

lemma others_revoke_all: "others (fst (revoke_all_for_user db uid now)) uid = others db uid"
  by (auto simp: others_def revoke_all_for_user_def Let_def intro!: filter_map_same split: if_split_asm)

lemma others_delete: "others (user_delete db uid) uid = others db uid"
  by (simp add: others_def user_delete_def)

lemma identity_session:
  assumes ok: "db_ok db" and i: "get_current_identity E db t now rq = Inr i"
  obtains s u where "session_at db (ai_session_id i) = Some s" and "s_user_id s = ai_user_id i"
    and "s_revoked_at s = None"
    and "user_at db (ai_user_id i) = Some u" and "ai_username i = u_username u" and "is_active u"
proof -
  obtain token where "resolve_access_token E db t now token = Inr i"
    using i by (auto simp: get_current_identity_def split: sum.splits)
  then obtain sid uid s u where r: "session_at db sid = Some s" "s_revoked_at s = None" "user_at db uid = Some u"
    "is_active u" "s_user_id s = u_id u"
    "i = \<lparr>ai_user_id = u_id u, ai_username = u_username u, ai_session_id = s_id s\<rparr>"
    unfolding resolve_Inr [OF ok] by blast
  moreover have "s_id s = sid" "u_id u = uid" using r(1,3) by (auto dest: row_at_Some_in)
  ultimately show thesis by (intro that [of s u]) simp_all
qed

lemma decode_error_status:
  assumes "decode_access_token J U c now token = Inl (AuthError e)"
  shows "err_status e = 401"
proof -
  have "claim_time U j \<noteq> Inl (AuthError e)" for j
    by (auto simp: claim_time_def claim_int_def split: option.split json.split pyfloat.split)
  then show ?thesis using assms
    by (auto simp: decode_access_token_def auth_raise_def split: jwt_verdict.splits option.splits sum.splits if_splits)
qed

lemma resolve_error_status:
  assumes ok: "db_ok db" and r: "resolve_access_token E db t now token = Inl (AuthError e)"
  shows "err_status e \<in> {401, 403}"
proof (cases "decode_access_token (e_jwt E) (e_unicode E) (e_config E) t token")
  case (Inl x)
  then show ?thesis using r decode_error_status by (simp add: resolve_access_token_def)
next
  case (Inr claims)
  then show ?thesis using r ok
    by (auto simp: resolve_access_token_def is_usable_def auth_raise_def auth_raise_status_def
        split: option.splits bool.splits if_splits)
qed

lemma identity_error_status:
  assumes ok: "db_ok db" and r: "get_current_identity E db t now rq = Inl (AuthError e)"
  shows "err_status e \<in> {401, 403}"
  using r resolve_error_status [OF ok, of E t now]
  by (fastforce simp: get_current_identity_def extract_bearer_token_def auth_raise_def
      split: option.splits sum.splits prod.splits if_splits)

text \<open>
  C25: a signed-in route acts for the caller and on nobody else. Without a bearer token that
  resolves to an unexpired session of an active account, nothing changes and the answer is
  401 or 403, or 500 where the check itself raised; otherwise every row of every other
  account, and every session but the caller's own ones, is as before.
\<close>

theorem own_account_only:
  assumes ok: "db_ok (a_db st)" and route: "route \<in> {Logout, CurrentSession, DeleteAccount}"
    and h: "http R st route rq d = (st', out)"
  shows "case get_current_identity (re_auth R) (a_db st) (dr_jwt_now d) (dr_resolve_now d) rq of
     Inl e \<Rightarrow> st' = st \<and> (case e of
         AuthError x \<Rightarrow> \<exists>r. out = Answer r \<and> rs_status r = err_status x \<and> err_status x \<in> {401, 403}
       | _ \<Rightarrow> out = ServerError e)
   | Inr i \<Rightarrow> others (a_db st') (ai_user_id i) = others (a_db st) (ai_user_id i) \<and>
       (route = Logout \<longrightarrow> (\<forall>k. k \<noteq> ai_session_id i \<longrightarrow> session_at (a_db st') k = session_at (a_db st) k))"
proof (cases "get_current_identity (re_auth R) (a_db st) (dr_jwt_now d) (dr_resolve_now d) rq")
  case (Inl e)
  then have "handle_route R st route rq d = transaction st (st, Inl (ServiceExn e))"
    using route by (auto simp: logout_route_def current_session_route_def delete_account_route_def with_identity_def)
  then have "st' = st" "out = answer R (Inl (ServiceExn e))"
    using h by (auto simp: http_def transaction_def)
  then show ?thesis using Inl identity_error_status [OF ok, of "re_auth R" "dr_jwt_now d" "dr_resolve_now d" rq]
    by (auto simp: answer_def auth_error_handler_def split: exn.split)
next
  case (Inr i)
  have st': "st' = auth_run (re_auth R) (ops_of R st route rq d) st"
    using request_ops [of R st route rq d] h by simp
  obtain s u where s: "session_at (a_db st) (ai_session_id i) = Some s" "s_user_id s = ai_user_id i"
    and u: "user_at (a_db st) (ai_user_id i) = Some u"
    by (rule identity_session [OF ok Inr])
  have uid: "u_id u = ai_user_id i" using u by (auto dest: row_at_Some_in)
  have id: "s_id s = ai_session_id i" using s by (auto dest: row_at_Some_in)
  have "others (a_db st') (ai_user_id i) = others (a_db st) (ai_user_id i)"
    using route Inr ok s u
    by (auto simp: st' auth_run_def transaction_db logout_db delete_db others_revoke others_revoke_all
        others_delete uid split: sum.split option.split)
  moreover have "session_at (a_db st') k = session_at (a_db st) k" if "route = Logout" "k \<noteq> ai_session_id i" for k
    using that Inr ok s
    by (auto simp: st' auth_run_def transaction_db logout_db revoke_def session_at_update id split: sum.split)
  ultimately show ?thesis by (simp add: Inr)
qed

theorem own_account_only_witness:
  "others (a_db (fst (http sample_routes alice_online DeleteAccount bearer_request (sample_draw 6 ''t1'')))) (lit ''u1'') =
     others (a_db alice_online) (lit ''u1'')"
  using own_account_only [OF alice_online_sel(1) _ prod.collapse [symmetric], of DeleteAccount sample_routes
      bearer_request "sample_draw 6 ''t1''"] alice_identity [of 6] by simp

section \<open>Cookies and the refresh token\<close>

text \<open>The refresh cookie for a token.\<close>

definition refresh_cookie :: "route_env \<Rightarrow> ustr \<Rightarrow> cookie" where
  "refresh_cookie R tok = \<lparr>ck_key = lit ''ecapp_refresh'', ck_value = tok, ck_httponly = True,
     ck_secure = cookie_secure (e_unicode (re_auth R)) (re_environ R), ck_samesite = lit ''strict'',
     ck_path = lit ''/auth'', ck_max_age = 1209600\<rparr>"

lemma credentials_shape:
  "snd (service_login E st u p t t' salt rnow f) = Inr c \<Longrightarrow> \<exists>v sid. c = credentials_for E v sid f"
  "snd (service_refresh E st tok f) = Inr c \<Longrightarrow> \<exists>v sid. c = credentials_for E v sid f"
proof -
  have o: "snd (open_session E s v f) = Inr c \<Longrightarrow> c = credentials_for E v (f_session_id f) f" for s v c
    by (auto simp: open_session_def split: sum.splits prod.splits)
  then have "snd (login_finish E s n p t' salt rnow f) = Inr c \<Longrightarrow> \<exists>v sid. c = credentials_for E v sid f" for s n
    by (auto simp: login_finish_def Let_def split: sum.splits option.splits prod.splits bool.splits if_splits)
      (metis snd_conv)+
  then show "snd (service_login E st u p t t' salt rnow f) = Inr c \<Longrightarrow> \<exists>v sid. c = credentials_for E v sid f"
    by (auto simp: service_login_def split: sum.splits prod.splits)
  show "snd (service_refresh E st tok f) = Inr c \<Longrightarrow> \<exists>v sid. c = credentials_for E v sid f"
    by (auto simp: service_refresh_def split: sum.splits option.splits bool.splits if_splits)
qed

lemma credentials_cookie:
  "set_refresh_cookie (credentials_for E u sid f) (cookie_secure (e_unicode (re_auth R)) (re_environ R)) =
     SetCookie (refresh_cookie R (f_refresh_token f))"
  by (simp add: set_refresh_cookie_def refresh_cookie_def credentials_for_def REFRESH_COOKIE_NAME_def
      refresh_max_age_def)

lemma service_error_status:
  "snd (service_refresh E st tok f) = Inl (AuthError e) \<Longrightarrow> db_ok (a_db st) \<Longrightarrow> err_status e = 401"
  "snd (service_delete_account E st i pw now) = Inl (AuthError e) \<Longrightarrow> db_ok (a_db st) \<Longrightarrow> err_status e = 401"
  by (auto simp: service_refresh_def hash_refresh_token_def get_by_refresh_hash_def scalar_one_or_none_def
      service_delete_account_def is_usable_def auth_raise_def verify_with_def
      split: sum.splits option.splits bool.splits if_splits list.splits prod.splits)

text \<open>The answers of the two routes that give out credentials.\<close>

lemma credentials_route_answer:
  assumes ok: "db_ok (a_db st)" and fw: "framework_ok R" and route: "route \<in> {Login, Refresh}"
    and h: "snd (http R st route rq d) = Answer r"
  shows "if rs_status r = 200
    then \<exists>u sid. snd (handle_route R st route rq d) =
        Inr (credentials_answer R (credentials_for (re_auth R) u sid (dr_fresh d))) \<and>
      rs_body r = Some (authentication_response_json (re_pydantic R)
        (to_authentication_response (credentials_for (re_auth R) u sid (dr_fresh d)))) \<and>
      rs_cookies r = [SetCookie (refresh_cookie R (f_refresh_token (dr_fresh d)))]
    else rs_cookies r = []"
proof (cases "snd (handle_route R st route rq d)")
  case (Inr p)
  have "\<exists>u sid. p = credentials_answer R (credentials_for (re_auth R) u sid (dr_fresh d))"
    using Inr route
    by (auto simp: login_route_def refresh_route_def map_sum_eq_iff dest!: credentials_shape
        split: option.splits if_splits; blast)
  then obtain u sid where p: "p = credentials_answer R (credentials_for (re_auth R) u sid (dr_fresh d))" by blast
  have "r = \<lparr>rs_status = 200, rs_body = Some (authentication_response_json (re_pydantic R)
        (to_authentication_response (credentials_for (re_auth R) u sid (dr_fresh d)))),
        rs_cookies = [SetCookie (refresh_cookie R (f_refresh_token (dr_fresh d)))]\<rparr>"
    using h fw by (simp add: http_parts Inr p answer_def credentials_answer_def credentials_cookie framework_ok_def)
  then show ?thesis using Inr p by auto
next
  case (Inl e)
  have "err_status x \<in> {401, 429}" if "e = ServiceExn (AuthError x)" for x
    using Inl route that service_login_status [OF ok] service_error_status(1) [OF _ ok]
    by (auto simp: login_route_def refresh_route_def map_sum_eq_iff auth_raise_def
        split: option.splits if_splits; fastforce)
  then show ?thesis using h
    by (auto simp: http_parts Inl answer_def rate_limit_handler_def auth_error_handler_def
        split: route_exn.splits exn.splits)
qed

lemma delete_answer:
  assumes ok: "db_ok (a_db st)" and fw: "framework_ok R" and h: "snd (http R st DeleteAccount rq d) = Answer r"
  shows "rs_cookies r = (if rs_status r = 204 then [clear_refresh_cookie] else [])"
proof (cases "snd (handle_route R st DeleteAccount rq d)")
  case (Inr p)
  then have "p = ([], Direct (no_content [clear_refresh_cookie]))"
    by (auto simp: delete_account_route_def with_identity_def map_sum_eq_iff split: sum.splits option.splits)
  moreover have "answer R (Inr p) = Answer r" using h unfolding http_parts Inr .
  ultimately show ?thesis by (auto simp: answer_def framework_finish [OF fw] no_content_def)
next
  case (Inl e)
  have "err_status x \<in> {401, 403}" if "e = ServiceExn (AuthError x)" for x
    using Inl that identity_error_status [OF ok] service_error_status(2) [OF _ ok]
    by (auto simp: delete_account_route_def with_identity_def map_sum_eq_iff split: option.splits sum.splits; fastforce)
  moreover have "answer R (Inl e) = Answer r" using h unfolding http_parts Inl .
  ultimately show ?thesis
    by (auto simp: answer_def rate_limit_handler_def auth_error_handler_def split: route_exn.splits exn.splits)
qed

lemma plain_answer:
  assumes fw: "framework_ok R" and route: "route \<notin> {Login, Refresh, DeleteAccount}"
    and h: "snd (http R st route rq d) = Answer r"
  shows "rs_cookies r = []"
proof (cases "snd (handle_route R st route rq d)")
  case (Inr p)
  then have "(\<exists>n j. p = ([], Model n j)) \<or> (\<exists>cs. p = (cs, Direct (no_content [])))"
    using route by (cases route) (auto simp: password_policy_route_def register_route_def logout_route_def
        current_session_route_def with_identity_def map_sum_eq_iff split: sum.splits option.splits if_splits)
  moreover have "answer R (Inr p) = Answer r" using h unfolding http_parts Inr .
  ultimately show ?thesis by (auto simp: answer_def framework_finish [OF fw] no_content_def)
next
  case (Inl e)
  have "answer R (Inl e) = Answer r" using h unfolding http_parts Inl .
  then show ?thesis
    by (auto simp: answer_def rate_limit_handler_def auth_error_handler_def split: route_exn.splits exn.splits)
qed

text \<open>
  C36: the cookies of every answer. A login or refresh answered with 200 sets exactly one
  cookie: the refresh token, HTTP-only, for the same site only, under \<open>/auth\<close>, secure as
  configured; an answered deletion clears it. Nothing else touches it: in particular a logout
  does not, because the cleared cookie is set on the response object that the handler's own
  response replaces. The cookie lives exactly as long as the session only under a refresh
  lifetime of 14 days.
\<close>

theorem cookie_rules:
  assumes "db_ok (a_db st)" and "framework_ok R" and "snd (http R st route rq d) = Answer r"
  shows "rs_cookies r =
      (if route \<in> {Login, Refresh} \<and> rs_status r = 200
       then [SetCookie (refresh_cookie R (f_refresh_token (dr_fresh d)))]
       else if route = DeleteAccount \<and> rs_status r = 204
       then [DeleteCookie (lit ''ecapp_refresh'') (lit ''/auth'') True (lit ''strict'')] else []) \<and>
    (ck_max_age (refresh_cookie R tok) * 1000000 = days_us (refresh_session_ttl_days (e_config (re_auth R))) \<longleftrightarrow>
       refresh_session_ttl_days (e_config (re_auth R)) = 14)"
proof -
  have "ck_max_age (refresh_cookie R tok) * 1000000 = days_us (refresh_session_ttl_days (e_config (re_auth R))) \<longleftrightarrow>
      refresh_session_ttl_days (e_config (re_auth R)) = 14"
    by (auto simp: refresh_cookie_def days_us_def)
  moreover consider "route \<in> {Login, Refresh}" | "route = DeleteAccount" | "route \<notin> {Login, Refresh, DeleteAccount}" by blast
  then have "rs_cookies r =
      (if route \<in> {Login, Refresh} \<and> rs_status r = 200
       then [SetCookie (refresh_cookie R (f_refresh_token (dr_fresh d)))]
       else if route = DeleteAccount \<and> rs_status r = 204
       then [DeleteCookie (lit ''ecapp_refresh'') (lit ''/auth'') True (lit ''strict'')] else [])"
  proof cases
    case 1
    then show ?thesis using credentials_route_answer [OF assms(1,2) 1 assms(3)] by (auto split: if_splits)
  next
    case 2
    then show ?thesis using delete_answer [OF assms(1,2)] assms(3)
      by (simp add: clear_refresh_cookie_def REFRESH_COOKIE_NAME_def)
  next
    case 3
    then show ?thesis using plain_answer [OF assms(2) 3 assms(3)] by auto
  qed
  ultimately show ?thesis by blast
qed

theorem cookie_rules_witness:
  "\<exists>r. snd (http sample_routes alice_state Login (credentials_request ''alice'' ''correct horse battery'') (sample_draw 6 ''t1'')) =
      Answer r \<and> rs_cookies r = [SetCookie (refresh_cookie sample_routes (lit ''t1''))]"
  using cookie_rules [OF sample_db_ok(2) sample_routes_ok arg_cong [OF alice_http_login, of snd, unfolded snd_conv]]
    alice_http_login by simp

text \<open>What is returned besides the cookie does not depend on the refresh token drawn.\<close>

lemma same_returned:
  assumes ok: "db_ok (a_db st)" and route: "route \<in> {Login, Refresh}"
    and d': "d' = d\<lparr>dr_fresh := (dr_fresh d)\<lparr>f_refresh_token := tok\<rparr>\<rparr>"
    and p: "snd (handle_route R st route rq d) = Inr p" and p': "snd (handle_route R st route rq d') = Inr p'"
  shows "snd p = snd p'"
proof -
  let ?E = "re_auth R" and ?f = "dr_fresh d" and ?f' = "(dr_fresh d)\<lparr>f_refresh_token := tok\<rparr>"
  have same: "snd (credentials_answer R (credentials_for ?E u sid ?f)) = snd (credentials_answer R (credentials_for ?E u sid ?f'))"
    for u sid by (simp add: credentials_answer_def to_authentication_response_def credentials_for_def)
  consider "route = Login" | "route = Refresh" using route by blast
  then show ?thesis
  proof cases
    case 1
    then obtain u pw c c' where l:
      "snd (service_login ?E st u pw (dr_mono d) (dr_failure_mono d) (dr_salt d) (dr_now d) ?f) = Inr c"
      "snd (service_login ?E st u pw (dr_mono d) (dr_failure_mono d) (dr_salt d) (dr_now d) ?f') = Inr c'"
      and r: "p = credentials_answer R c" "p' = credentials_answer R c'"
      using p p' by (auto simp: d' login_route_def map_sum_eq_iff split: option.splits if_splits)
    obtain n v where "validate_username (e_unicode ?E) u = Inr n" "user_named (a_db st) n = Some v"
      "c = credentials_for ?E (load_user (e_load ?E) v) (f_session_id ?f) ?f"
      by (rule login_Inr [OF ok prod.expand [of _ "(_, Inr c)", simplified, OF conjI, OF refl l(1)]])
    moreover obtain n' v' where "validate_username (e_unicode ?E) u = Inr n'" "user_named (a_db st) n' = Some v'"
      "c' = credentials_for ?E (load_user (e_load ?E) v') (f_session_id ?f') ?f'"
      by (rule login_Inr [OF ok prod.expand [of _ "(_, Inr c')", simplified, OF conjI, OF refl l(2)]])
    ultimately show ?thesis using same by (simp add: r)
  next
    case 2
    then show ?thesis using p p'
      by (auto simp: d' refresh_route_def map_sum_eq_iff service_refresh_def same
          split: option.splits if_splits sum.splits bool.splits)
  qed
qed

text \<open>
  The refresh token is in the cookie and nowhere else. Two logins, or two refreshes,
  that differ only in the refresh token they draw and both get through have the same status
  and the same body; only the value of the cookie differs.
\<close>

lemma refresh_token_only_in_cookie:
  assumes ok: "db_ok (a_db st)" and fw: "framework_ok R" and route: "route \<in> {Login, Refresh}"
    and d': "d' = d\<lparr>dr_fresh := (dr_fresh d)\<lparr>f_refresh_token := tok\<rparr>\<rparr>"
    and r: "snd (http R st route rq d) = Answer r" "rs_status r = 200"
    and r': "snd (http R st route rq d') = Answer r'" "rs_status r' = 200"
  shows "r' = r\<lparr>rs_cookies := [SetCookie (refresh_cookie R tok)]\<rparr> \<and>
    rs_cookies r = [SetCookie (refresh_cookie R (f_refresh_token (dr_fresh d)))]"
proof -
  obtain p where
    p: "snd (handle_route R st route rq d) = Inr p" and c: "rs_cookies r = [SetCookie (refresh_cookie R (f_refresh_token (dr_fresh d)))]"
    using credentials_route_answer [OF ok fw route r(1), unfolded r(2)] by (simp only: simp_thms if_True) blast
  obtain p' where
    p': "snd (handle_route R st route rq d') = Inr p'" and c': "rs_cookies r' = [SetCookie (refresh_cookie R (f_refresh_token (dr_fresh d')))]"
    using credentials_route_answer [OF ok fw route r'(1), unfolded r'(2)] by (simp only: simp_thms if_True) blast
  have "answer R (Inr p) = Answer r" using r(1) unfolding http_parts p .
  moreover have "answer R (Inr p') = Answer r'" using r'(1) unfolding http_parts p' .
  moreover have "snd p = snd p'" by (rule same_returned [OF ok route d' p p'])
  moreover obtain n j where "snd p = Model n j" using p route
    by (auto simp: login_route_def refresh_route_def map_sum_eq_iff credentials_answer_def split: option.splits if_splits)
  ultimately have "rs_status r' = rs_status r" "rs_body r' = rs_body r"
    by (auto simp: answer_def framework_finish [OF fw] split: prod.splits)
  then show ?thesis using c c' by (simp add: d')
qed

lemma refresh_token_only_in_cookie_witness:
  "\<exists>r. snd (http sample_routes alice_state Login (credentials_request ''alice'' ''correct horse battery'') (sample_draw 6 ''t2'')) =
      Answer r \<and> rs_body r = Some login_answer_body \<and> rs_cookies r = [SetCookie (refresh_cookie sample_routes (lit ''t2''))]"
proof -
  have d': "sample_draw 6 ''t2'' = (sample_draw 6 ''t1'')\<lparr>dr_fresh := (dr_fresh (sample_draw 6 ''t1''))\<lparr>f_refresh_token := lit ''t2''\<rparr>\<rparr>"
    by (simp add: sample_draw_def sample_fresh_def)
  show ?thesis
    using refresh_token_only_in_cookie [OF sample_db_ok(2) sample_routes_ok _ d'
        arg_cong [OF alice_http_login, of snd, unfolded snd_conv] _ alice_second_login] alice_second_login by auto
qed

section \<open>The answers of registration\<close>

text \<open>The error answer of a code, as the exception handler renders it.\<close>

definition error_answer :: "int \<Rightarrow> auth_error_code \<Rightarrow> http_response" where
  "error_answer status code = \<lparr>rs_status = status,
     rs_body = Some (error_json (auth_error_value code) (describe_auth code)), rs_cookies = []\<rparr>"

lemma answer_raise:
  "answer R (Inl (ServiceExn (auth_raise_status code status reason))) = Answer (error_answer status code)"
  by (simp add: answer_def auth_raise_status_def auth_error_handler_def error_answer_def)

lemma text_field_str:
  assumes "framework_ok R" and "utf8_encode s = Some bytes"
  shows "text_field R hi (Some (JStr s)) = (if 1 \<le> length s \<and> length s \<le> hi then Some s else None)"
  using assms by (simp add: text_field_def framework_ok_def)

lemma policy_bytes:
  assumes "utf8_encode p = Some bytes" and "p \<noteq> []"
  shows "case validate_policy c p of
      None \<Rightarrow> min_password_length c \<le> int (length bytes) \<and> int (length bytes) \<le> max_password_length c
    | Some err \<Rightarrow> err \<noteq> PasswordNotEncodable \<and>
        (int (length bytes) < min_password_length c \<or> max_password_length c < int (length bytes))"
  using assms by (simp add: validate_policy_def)

lemma user_create_taken:
  "(\<exists>r \<in> set (user_table db). u_id r = uid \<or> u_normalized r = n) \<Longrightarrow>
     user_create db uid name n h now = (db, Inl UsernameTakenError)"
  "\<not> (\<exists>r \<in> set (user_table db). u_id r = uid \<or> u_normalized r = n) \<Longrightarrow>
     snd (user_create db uid name n h now) = Inr \<lparr>u_id = uid, u_username = name, u_normalized = n,
       u_password_hash = h, u_status = account_status_value ACTIVE, u_created_at = now, u_updated_at = now\<rparr>"
  by (auto simp: user_create_def list_ex_iff Let_def)

text \<open>The service's part, for a password that can be encoded.\<close>

lemma register_verdict:
  assumes p: "utf8_encode p = Some bytes" "p \<noteq> []"
  shows "answer R (map_sum ServiceExn (\<lambda>user. ([], Model 201 (public_user_json (re_pydantic R) (from_model user))))
      (snd (service_register E st u p new_id salt now))) =
    (case validate_username (e_unicode E) u of
       Inl reason \<Rightarrow> Answer (error_answer 400 AUTH_VALIDATION_FAILED)
     | Inr n \<Rightarrow>
         if int (length bytes) < min_password_length (e_config E) \<or> max_password_length (e_config E) < int (length bytes)
         then Answer (error_answer 400 AUTH_VALIDATION_FAILED)
         else if \<exists>r \<in> set (user_table (a_db st)). u_id r = new_id \<or> u_normalized r = n
         then Answer (error_answer 409 AUTH_REGISTRATION_REJECTED)
         else Answer (re_finish R [] (Model 201 (public_user_json (re_pydantic R)
            \<lparr>pu_user_id = new_id, pu_username = py_strip (is_space (e_unicode E)) u, pu_created_at = now\<rparr>))))"
proof (cases "validate_username (e_unicode E) u")
  case (Inl reason)
  then show ?thesis by (simp add: service_register_def answer_raise)
next
  case (Inr n)
  let ?pw = "hash_password (e_argon2 E) (e_unicode E) (e_config E) salt p"
  show ?thesis
  proof (cases "validate_policy (e_config E) p")
    case (Some err)
    then have "err \<noteq> PasswordNotEncodable" using policy_bytes [OF p, of "e_config E"] by simp
    then have "service_register E st u p new_id salt now = (st, Inl (auth_raise_status AUTH_VALIDATION_FAILED 400
        (lit ''invalid password: '' @ policy_reason err)))"
      by (cases err) (simp_all add: service_register_def Inr Some)
    then show ?thesis using policy_bytes [OF p, of "e_config E"] by (simp add: Inr Some answer_raise)
  next
    case None
    note b = policy_bytes [OF p, of "e_config E", unfolded None, simplified]
    show ?thesis
    proof (cases "\<exists>r \<in> set (user_table (a_db st)). u_id r = new_id \<or> u_normalized r = n")
      case True
      then show ?thesis using b
        by (simp add: service_register_def Inr None user_create_taken(1) [OF True] answer_raise)
    next
      case False
      from user_create_taken(2) [OF False, of "py_strip (is_space (e_unicode E)) u" ?pw now] obtain db' where
        "user_create (a_db st) new_id (py_strip (is_space (e_unicode E)) u) n ?pw now =
          (db', Inr \<lparr>u_id = new_id, u_username = py_strip (is_space (e_unicode E)) u, u_normalized = n,
            u_password_hash = ?pw, u_status = account_status_value ACTIVE, u_created_at = now, u_updated_at = now\<rparr>)"
        by (metis prod.collapse)
      then show ?thesis using b False
        by (simp add: service_register_def Inr None answer_def from_model_def del: bex_simps)
    qed
  qed
qed

text \<open>
  What a registration is answered, exactly. A name or password outside the field bounds
  gets 422; a request over the address limit 429; a malformed name, or a password whose UTF-8
  form is shorter or longer than the announced policy, the same 400; a taken name 409, which
  is not the same answer; and everything else 201 with the public view of the new account,
  under its name as typed.
\<close>

lemma registration_answers:
  assumes fw: "framework_ok R" and body: "rq_body rq = Some (JObj fs)"
    and fs: "set (map fst fs) \<subseteq> {lit ''username'', lit ''password''}"
      "dict_get fs (lit ''username'') = Some (JStr u)" "dict_get fs (lit ''password'') = Some (JStr p)"
    and enc: "utf8_encode u = Some ubytes" "utf8_encode p = Some bytes" and E: "E = re_auth R"
  shows "snd (http R st Register rq d) =
    (if length u \<notin> {1..64} \<or> length p \<notin> {1..1024} then Unprocessable
     else if \<not> rq_admitted rq then Answer (error_answer 429 AUTH_RATE_LIMITED)
     else case validate_username (e_unicode E) u of
       Inl reason \<Rightarrow> Answer (error_answer 400 AUTH_VALIDATION_FAILED)
     | Inr n \<Rightarrow>
         if int (length bytes) < min_password_length (e_config E) \<or> max_password_length (e_config E) < int (length bytes)
         then Answer (error_answer 400 AUTH_VALIDATION_FAILED)
         else if \<exists>r \<in> set (user_table (a_db st)). u_id r = dr_user_id d \<or> u_normalized r = n
         then Answer (error_answer 409 AUTH_REGISTRATION_REJECTED)
         else Answer \<lparr>rs_status = 201, rs_body = Some (public_user_json (re_pydantic R)
            \<lparr>pu_user_id = dr_user_id d, pu_username = py_strip (is_space (e_unicode E)) u,
             pu_created_at = dr_now d\<rparr>), rs_cookies = []\<rparr>)"
proof -
  have b: "Option.bind (rq_body rq) (registration_body R) =
      (if length u \<in> {1..64} \<and> length p \<in> {1..1024} then Some (u, p) else None)"
    using fs enc by (simp add: body registration_body_def name_and_password_def text_field_str [OF fw]
        MAX_PASSWORD_FIELD_LENGTH_def)
  show ?thesis
  proof (cases "length u \<in> {1..64} \<and> length p \<in> {1..1024} \<and> rq_admitted rq")
    case False
    then show ?thesis
      by (auto simp: http_def register_route_def b answer_def rate_limit_handler_def error_answer_def)
  next
    case True
    then have "p \<noteq> []" by auto
    from register_verdict [OF enc(2) this, of R E st u "dr_user_id d" "dr_salt d" "dr_now d"] True
    show ?thesis
      unfolding framework_finish [OF fw] by (simp add: http_def register_route_def b E)
  qed
qed

lemma registration_answers_witness:
  "snd (http sample_routes alice_state Register (credentials_request ''Alice'' ''correct horse battery'') (sample_draw 6 ''t1'')) =
     Answer (error_answer 409 AUTH_REGISTRATION_REJECTED)"
proof -
  have enc: "utf8_encode (lit ''Alice'') = Some (lit ''Alice'')"
    "utf8_encode (lit ''correct horse battery'') = Some (lit ''correct horse battery'')"
    by code_simp+
  have "\<exists>r \<in> set (user_table (a_db alice_state)). u_id r = lit ''u1'' \<or> u_normalized r = lit ''alice''"
    by (simp add: alice_state_def log_auth_def)
  then show ?thesis
    using registration_answers [OF sample_routes_ok _ _ _ _ enc refl, of "credentials_request ''Alice'' ''correct horse battery''"
        "[(lit ''username'', JStr (lit ''Alice'')), (lit ''password'', JStr (lit ''correct horse battery''))]"
        alice_state "sample_draw 6 ''t1''"]
    by (simp add: credentials_request_def alice_names sample_env_def auth_config_defaults_def)
qed

end
