(* ===== verification/Application.thy ===== *)
theory Application
  imports Registry RouteSamples
begin

text \<open>
  \<open>main.py\<close> and \<open>db.py\<close>: how an application is put together from the environment, what
  its shutdown leaves, and where its database is. The engine itself is SQLAlchemy's; the
  choice made for it and the directory created for it are the program's.
\<close>

section \<open>The database URL\<close>

definition DEFAULT_DATABASE_URL :: ustr where
  "DEFAULT_DATABASE_URL = lit ''sqlite+aiosqlite:///./data/app.db''"

definition MEMORY_DATABASE_URL :: ustr where
  "MEMORY_DATABASE_URL = lit ''sqlite+aiosqlite://''"

definition database_url :: "unicode_db \<Rightarrow> environ \<Rightarrow> ustr" where
  "database_url U env =
     (let configured = py_strip (is_space U) (case env (lit ''DATABASE_URL'') of None \<Rightarrow> [] | Some v \<Rightarrow> v)
      in if configured = [] then DEFAULT_DATABASE_URL else configured)"

text \<open>\<open>p in s\<close> for strings, and \<open>os.path.dirname\<close> of a POSIX path.\<close>

definition py_contains :: "ustr \<Rightarrow> ustr \<Rightarrow> bool" where
  "py_contains p s \<longleftrightarrow> list_ex (\<lambda>i. starts_with p (drop i s)) [0..<Suc (length s)]"

definition dirname :: "ustr \<Rightarrow> ustr" where
  "dirname p = (let hd = rev (dropWhile (\<lambda>c. c \<noteq> 47) (rev p))
     in if list_all (\<lambda>c. c = 47) hd then hd else rev (dropWhile (\<lambda>c. c = 47) (rev hd)))"

text \<open>The directory that is created, when there is one.\<close>

definition ensure_parent_directory :: "ustr \<Rightarrow> ustr option" where
  "ensure_parent_directory url =
     (let marker = lit ''sqlite+aiosqlite:///''
      in if \<not> starts_with marker url then None
         else (let directory = dirname (drop (length marker) url)
               in if directory = [] then None else Some directory))"

text \<open>
  The engine asked for: one shared connection for an in-memory database, or the normal pool,
  after creating a directory.
\<close>

datatype engine_choice = SharedConnection ustr | NormalPool ustr "ustr option"

definition create_engine :: "unicode_db \<Rightarrow> environ \<Rightarrow> ustr option \<Rightarrow> engine_choice" where
  "create_engine U env url =
     (let resolved = (case url of Some u \<Rightarrow> u | None \<Rightarrow> database_url U env)
      in if resolved = MEMORY_DATABASE_URL \<or> py_contains (lit '':memory:'') resolved
         then SharedConnection resolved
         else NormalPool resolved (ensure_parent_directory resolved))"

lemma database_url_nonempty: "database_url U env \<noteq> []"
  by (simp add: database_url_def DEFAULT_DATABASE_URL_def Let_def)

lemma default_engine:
  "create_engine U (\<lambda>_. None) None = NormalPool DEFAULT_DATABASE_URL (Some (lit ''./data''))"
proof -
  have "database_url U (\<lambda>_. None) = DEFAULT_DATABASE_URL"
    by (simp add: database_url_def py_strip_def)
  moreover have "\<not> py_contains (lit '':memory:'') DEFAULT_DATABASE_URL"
    "ensure_parent_directory DEFAULT_DATABASE_URL = Some (lit ''./data'')"
    "DEFAULT_DATABASE_URL \<noteq> MEMORY_DATABASE_URL"
    by code_simp+
  ultimately show ?thesis by (simp add: create_engine_def)
qed

text \<open>A file below a directory: the directory is created, whatever is in it.\<close>

lemma parent_directory:
  assumes "47 \<notin> set file" and "dir \<noteq> []" and "last dir \<noteq> 47"
  shows "ensure_parent_directory (lit ''sqlite+aiosqlite:///'' @ dir @ 47 # file) = Some dir"
proof -
  have "starts_with p (p @ s)" for p s by (induction p) simp_all
  moreover have "dropWhile (\<lambda>c. c \<noteq> 47) (rev file @ 47 # rev dir) = 47 # rev dir"
    using assms(1) by (subst dropWhile_append2) auto
  moreover have "dropWhile (\<lambda>c. c = 47) (rev dir) = rev dir"
    using assms(2,3) by (cases dir rule: rev_cases) simp_all
  moreover have "\<not> list_all (\<lambda>c. c = 47) (dir @ [47])"
    using assms(2,3) by (auto simp: list_all_iff intro!: bexI [of _ "last dir"])
  ultimately show ?thesis using assms(2) by (simp add: ensure_parent_directory_def dirname_def Let_def)
qed

section \<open>The application\<close>

text \<open>
  \<open>create_app\<close> and the start of its lifespan: settings that are not given are read from
  the environment, and the service, the manager and no handlers are set up on the database.
\<close>

definition create_app ::
  "unicode_db \<Rightarrow> environ \<Rightarrow> ustr \<Rightarrow> transport_limits option \<Rightarrow> auth_config option \<Rightarrow> database \<Rightarrow> system" where
  "create_app U env ephemeral lims conf db =
     (let resolved_limits = (case lims of None \<Rightarrow> default_limits U env | Some l \<Rightarrow> l);
          resolved_auth = (case conf of None \<Rightarrow> fst (default_auth_config U env ephemeral) | Some c \<Rightarrow> c)
      in initial resolved_auth db resolved_limits)"

text \<open>The end of the lifespan.\<close>

definition shut_down :: "system \<Rightarrow> system" where
  "shut_down s = s\<lparr>sys_server := (sys_server s)\<lparr>srv_manager := reset (srv_manager (sys_server s))\<rparr>\<rparr>"

lemma initial_ok:
  assumes "limits_ok l" and "db_ok db"
  shows "sys_ok A E (initial c db l) [] (initial c db l)"
proof -
  have "manager_ok (new_manager l)" using assms(1) by (simp add: manager_ok_new limits_ok_def)
  moreover have "\<not> receipt_in (new_manager l) j" for j
    by (simp add: receipt_in_def inbox_of_def held_for_def new_manager_def waiting_def new_queue_def)
  moreover have "get_connection (new_manager l) x = None" for x
    by (simp add: get_connection_def new_manager_def)
  ultimately show ?thesis
    using assms(2) by (simp add: sys_ok_def initial_def new_service_def accounted_def handlers_ok_def pending_def)
qed

text \<open>
  An application started with nothing but the environment. Whatever the environment
  says, its settings are usable, in every state it reaches registry and tables are
  consistent within the bounds the environment set, and its shutdown leaves no connection,
  no name and no queued message, but the tables as they are.
\<close>

lemma application_lifespan:
  assumes e: "ephemeral \<noteq> []" and db: "db_ok db" and a: "a = create_app U env ephemeral None None db"
    and r: "reaches A E a ls s"
  shows "auth_config_ok (fst (default_auth_config U env ephemeral)) \<and>
    limits (srv_manager (sys_server s)) = default_limits U env \<and>
    manager_ok (srv_manager (sys_server s)) \<and> db_ok (a_db (sys_auth s)) \<and>
    (let m = srv_manager (sys_server (shut_down s)) in
       manager_ok m \<and> connection_count m = 0 \<and> client_count m = 0 \<and> total_queued (offline_queue m) = 0 \<and>
       (\<forall>k. \<not> is_connected m k)) \<and>
    a_db (sys_auth (shut_down s)) = a_db (sys_auth s)"
proof -
  let ?m = "srv_manager (sys_server s)"
  have a': "a = initial (fst (default_auth_config U env ephemeral)) db (default_limits U env)"
    by (simp add: a create_app_def)
  have i: "sys_ok A E a [] a" unfolding a' by (rule initial_ok [OF default_limits_ok db])
  have ok: "manager_ok ?m" "db_ok (a_db (sys_auth s))" using sys_okD [OF reaches_ok [OF r i]] by auto
  have l: "limits ?m = default_limits U env" using reaches_limits [OF r i] by (simp add: a' initial_def new_manager_def)
  have z: "connection_count (reset ?m) = 0" "client_count (reset ?m) = 0"
    "total_queued (offline_queue (reset ?m)) = 0" "\<not> is_connected (reset ?m) k" for k
    by (simp_all add: connection_count_def client_count_def reset_def total_queued_def clear_queue_def
        is_connected_def dict_values_def)
  have "auth_config_ok (fst (default_auth_config U env ephemeral))"
    using default_auth_config_ok [OF e, of U env] by (cases "default_auth_config U env ephemeral") simp
  then show ?thesis using ok l z reset_ok [OF ok(1)] by (simp add: shut_down_def Let_def)
qed

lemma application_lifespan_witness:
  "let a = create_app ascii_unicode (\<lambda>_. None) (lit ''secret'') None None empty_db;
       m = srv_manager (sys_server (shut_down (the (sys_step sample_env sample_transport
             (LAuth (OpLogout (lit ''s1'') (utc 0))) a))))
   in connection_count m = 0 \<and> total_queued (offline_queue m) = 0"
proof -
  let ?a = "create_app ascii_unicode (\<lambda>_. None) (lit ''secret'') None None empty_db"
  let ?l = "LAuth (OpLogout (lit ''s1'') (utc 0))"
  have "reaches sample_env sample_transport ?a [?l] (the (sys_step sample_env sample_transport ?l ?a))"
    by (rule reaches.step [OF reaches.start]) simp
  from application_lifespan [OF _ db_ok_empty refl this] show ?thesis by (simp add: Let_def)
qed

end
