(* ===== verification/Turns.thy ===== *)
theory Turns
  imports Registry
begin

text \<open>
  What a turn of a handler can do to the manager, as an interface: a relation between managers
  that is reflexive and transitive and holds of the three things a turn is made of (a note in
  the handler's own context, a reply on its own queue, the routing of a receipt) holds of every
  turn that a frame or a timeout causes. The properties of runs are proved by interpreting it.
\<close>

text \<open>What the handler puts on its own queue itself: a dumped outbound model, no receipt.\<close>

definition is_reply :: "pydantic \<Rightarrow> json \<Rightarrow> bool" where
  "is_reply P j \<longleftrightarrow> \<not> is_receipt j \<and> (\<exists>x. j = dump P x)"

lemma is_reply_dump [simp]: "is_reply P (dump P x) \<longleftrightarrow> \<not> is_receipt (dump P x)"
  by (auto simp: is_reply_def)

lemma is_reply_error [simp]: "is_reply P (error_message P code mid)" "is_reply P (connection_ready P l cid)"
  by (simp_all add: error_message_def connection_ready_def)

lemma handle_privileged_replies:
  "handle_privileged E sv c e = (sv', rs) \<Longrightarrow> r \<in> set rs \<Longrightarrow> is_reply (te_pydantic E) r"
  by (auto simp: handle_privileged_def handle_message_send_def split: if_splits option.splits prod.splits)

lemma auth_begin_replies: "auth_begin E sv c e = (sv', Inl rs) \<Longrightarrow> r \<in> set rs \<Longrightarrow> is_reply (te_pydantic E) r"
  by (auto simp: auth_begin_def split: if_splits option.splits)

lemma validate_inbound_replies:
  "validate_inbound E sv c raw = (sv', Refuse rs) \<Longrightarrow> r \<in> set rs \<Longrightarrow> is_reply (te_pydantic E) r"
  by (auto simp: validate_inbound_def Let_def split: sum.splits json_error.splits option.splits if_splits)

text \<open>A privileged action is a routed receipt or leaves the manager alone.\<close>

lemma handle_privileged_routes:
  assumes "handle_privileged E sv c e = (sv', rs)"
  obtains "srv_manager sv' = srv_manager sv"
  | rcp st where "msg_type e = MESSAGE_SEND" and "sender e = routing_identity c" and "hub.route (srv_manager sv) rcp (receipt_for (te_pydantic E) c e rcp) = (srv_manager sv', st)"
proof (cases "msg_type e = MESSAGE_SEND \<and> sender e = routing_identity c \<and> recipient e \<noteq> None")
  case True
  then obtain rcp where "recipient e = Some rcp" by blast
  with True assms have "srv_manager sv' = srv_manager (fst (route_message E sv c e rcp))"
    by (auto simp: handle_privileged_def handle_message_send_def split: prod.splits)
  with True show thesis
    using that(2) [of rcp "snd (hub.route (srv_manager sv) rcp (receipt_for (te_pydantic E) c e rcp))"]
    by (simp add: route_message_hub)
next
  case False
  with assms show thesis
    by (intro that(1)) (auto simp: handle_privileged_def handle_message_send_def split: if_splits option.splits prod.splits)
qed

locale turn_relation =
  fixes P :: pydantic and cid :: ustr and R :: "manager \<Rightarrow> manager \<Rightarrow> bool"
  assumes refl: "R m m"
    and trans: "R a b \<Longrightarrow> R b c \<Longrightarrow> R a c"
    and note_own: "manager_ok m \<Longrightarrow> get_connection m cid = Some k \<Longrightarrow> same_standing k k' \<Longrightarrow>
          outbound k' = outbound k \<Longrightarrow> context_ok (limits m) k' \<Longrightarrow> R m (with_context m cid (\<lambda>_. k'))"
    and reply_own: "manager_ok (srv_manager sv) \<Longrightarrow> is_reply P j \<Longrightarrow>
          R (srv_manager sv) (srv_manager (fst (enqueue_own sv cid j)))"
    and route_one: "manager_ok m \<Longrightarrow> get_connection m cid = Some k \<Longrightarrow> authenticated k \<Longrightarrow>
          sender e = routing_identity k \<Longrightarrow> hub.route m rcp (receipt_for P k e rcp) = (m', st) \<Longrightarrow> R m m'"
begin

lemma replies:
  assumes "manager_ok (srv_manager sv)" and "\<And>r. r \<in> set rs \<Longrightarrow> is_reply P r"
  shows "R (srv_manager sv) (srv_manager (fst (enqueue_responses sv cid rs)))"
  using assms
proof (induction rs arbitrary: sv)
  case Nil
  show ?case by (simp add: refl)
next
  case (Cons r rs)
  obtain sv1 ok where e: "enqueue_own sv cid r = (sv1, ok)" by fastforce
  with reply_own [of sv r] Cons.prems have "R (srv_manager sv) (srv_manager sv1)" by simp
  moreover have "R (srv_manager sv1) (srv_manager (fst (enqueue_responses sv1 cid rs)))"
    by (rule Cons.IH) (use enqueue_own_ok [OF Cons.prems(1), of cid r] e Cons.prems(2) in simp_all)
  ultimately show ?case using e trans by (cases ok) auto
qed

lemma finish:
  assumes "R m (srv_manager sv)" and "manager_ok (srv_manager sv)" and "\<And>r. r \<in> set rs \<Longrightarrow> is_reply P r"
  shows "R m (srv_manager (fst (finish_frame sv cid rs)))"
  unfolding finish_frame_manager using trans [OF assms(1) replies [OF assms(2)]] assms(3) by blast

lemma answer_one:
  assumes "R m (srv_manager sv)" and "manager_ok (srv_manager sv)" and "is_reply P j"
  shows "R m (srv_manager (fst (enqueue_own sv cid j)))"
  using trans [OF assms(1) reply_own [OF assms(2,3)]] .

lemma dispatched:
  assumes P: "P = te_pydantic E" and ok: "manager_ok (srv_manager sv)"
    and c: "get_connection (srv_manager sv) cid = Some c"
    and may: "authenticated c \<or> msg_type e \<in> UNAUTHENTICATED_SENDABLE_TYPES"
  shows "R (srv_manager sv) (srv_manager (fst (dispatch E sv cid c e wall_now)))"
proof -
  obtain sv1 r where a: "auth_begin E sv c e = (sv1, r)" by fastforce
  then have e1: "srv_manager sv1 = srv_manager sv" using auth_begin_manager [of E sv c e] by simp
  obtain sv2 rs where h: "handle_privileged E sv c e = (sv2, rs)" by fastforce
  have m2: "R (srv_manager sv) (srv_manager sv2)"
  proof (cases rule: handle_privileged_routes [OF h])
    case 1
    then show ?thesis by (simp add: refl)
  next
    case (2 rcp st)
    have "authenticated c" using may 2(1) by (auto simp: UNAUTHENTICATED_SENDABLE_TYPES_def)
    from route_one [OF ok c this 2(2)] 2(3) P show ?thesis by simp
  qed
  have ok2: "manager_ok (srv_manager sv2)" using turn_okD(1) [OF handle_privileged_turn(1) [OF ok h]] .
  have "R (srv_manager sv) (srv_manager (fst (finish_frame sv1 cid qs)))" if "r = Inl qs" for qs
    by (rule finish) (use auth_begin_replies [OF a [unfolded that]] P e1 ok refl in auto)
  moreover have "R (srv_manager sv) (srv_manager (fst (finish_frame sv2 cid rs)))"
    by (rule finish [OF m2 ok2]) (use handle_privileged_replies [OF h] P in blast)
  moreover have "R (srv_manager sv) (srv_manager (fst (finish_frame sv cid [j])))" if "is_reply P j" for j
    by (rule finish [OF refl ok]) (use that in simp)
  ultimately show ?thesis
    using a h e1 refl P by (simp add: dispatch_def split: sum.split)
qed

text \<open>The turn a received text causes.\<close>

lemma received:
  assumes P: "P = te_pydantic E" and ok: "manager_ok (srv_manager sv)"
  shows "R (srv_manager sv) (srv_manager (fst (recv_frame E sv cid raw now wall_now)))"
proof (cases "get_connection (srv_manager sv) cid")
  case None
  then show ?thesis by (simp add: recv_frame_def refl)
next
  case (Some c)
  let ?m = "srv_manager sv" and ?c = "touch c now"
  obtain l b where a: "allow (limiter c) now = (l, b)" by fastforce
  let ?m1 = "with_context ?m cid (\<lambda>_. ?c)" and ?c2 = "?c\<lparr>limiter := l\<rparr>"
  let ?m2 = "with_context ?m1 cid (\<lambda>_. ?c2)"
  note tl = touch_limiter [OF connection_ok(2) [OF ok Some] a]
  have c1: "get_connection ?m1 cid = Some ?c" using Some by (simp add: get_connection_def with_context_get)
  have t1: "turn_ok ?m ?m1 {}" by (rule with_context_turn [OF ok Some tl(3)]) (use tl in simp_all)
  have ok2: "manager_ok ?m2"
    by (rule turn_okD(1) [OF with_context_turn [OF turn_okD(1) [OF t1] c1 tl(4)]]) (use tl in simp_all)
  have ok1: "manager_ok ?m1" using turn_okD(1) [OF t1] .
  have r1: "R ?m ?m1" by (rule note_own [OF ok Some tl(3,5,1)])
  have r2: "R ?m ?m2" by (rule trans [OF r1 note_own [OF ok1 c1 tl(4)]]) (use tl(2) in simp_all)
  have c2: "get_connection ?m2 cid = Some ?c2" using c1 by (simp add: get_connection_def with_context_get)
  obtain sv3 v where v: "validate_inbound E (sv\<lparr>srv_manager := ?m2\<rparr>) ?c2 raw = (sv3, v)" by fastforce
  have m3: "srv_manager sv3 = ?m2"
    using validate_inbound_manager [of E "sv\<lparr>srv_manager := ?m2\<rparr>" ?c2 raw] v by simp
  have "R ?m (srv_manager (fst (finish_frame sv3 cid rs)))" if "v = Refuse rs" for rs
    by (rule finish) (use r2 ok2 m3 validate_inbound_replies [OF v [unfolded that]] P in auto)
  moreover have "R ?m (srv_manager (fst (dispatch E sv3 cid ?c2 e wall_now)))" if "v = Accept e" for e
  proof (rule trans [OF r2])
    from v that obtain "authenticated ?c2 \<or> msg_type e \<in> UNAUTHENTICATED_SENDABLE_TYPES"
      using validate_inbound_accept [of E "sv\<lparr>srv_manager := ?m2\<rparr>" ?c2 raw sv3 e] by blast
    from dispatched [OF P _ _ this, of sv3] ok2 c2 m3
    show "R ?m2 (srv_manager (fst (dispatch E sv3 cid ?c2 e wall_now)))" by simp
  qed
  moreover have "R ?m (srv_manager (fst (enqueue_own sv1 cid (error_message P x y))))"
    if "R ?m (srv_manager sv1)" "manager_ok (srv_manager sv1)" for sv1 x y
    using answer_one [OF that] by simp
  ultimately show ?thesis
    using Some r1 r2 ok1 ok2 v a tl(6) m3 P
    by (auto simp: recv_frame_def Let_def split: option.split verdict.split)
qed

lemma timed_out:
  assumes "P = te_pydantic E" and "manager_ok (srv_manager sv)"
  shows "R (srv_manager sv) (srv_manager (fst (recv_timeout E sv cid)))"
  using answer_one [of "srv_manager sv"] assms by (simp add: recv_timeout_def refl split: option.split)

text \<open>A refused token.\<close>

lemma not_resolved:
  assumes "P = te_pydantic E" and "manager_ok (srv_manager sv)"
  shows "R (srv_manager sv) (srv_manager (fst (auth_finish E sv cid e (Inl x))))"
proof -
  have "R (srv_manager sv) (srv_manager (fst (finish_frame (emit sv ev k fs) cid [error_message P y z])))" for ev k fs y z
    by (rule finish) (simp_all add: refl assms(2))
  then show ?thesis using assms by (cases x) (simp_all add: auth_finish_def refl)
qed

end

end
