(* ===== verification/Delivery.thy ===== *)
theory Delivery
  imports Turns SystemSamples Application
begin

text \<open>
  What becomes of the messages in a connection's outbound queue. Every step of the system but
  a turn of the connection's own writer and the end of its handler adds at the end of the
  queue or leaves it; the writer takes the head. Hence the peer gets the messages in the
  order in which they were accepted, each once, and a writer that keeps sending empties the
  queue, after which the \<open>join\<close> in the \<open>finally\<close> block of \<open>websocket_transport\<close> returns.
\<close>

section \<open>Growing queues\<close>

definition q_grows :: "'e async_queue \<Rightarrow> 'e async_queue \<Rightarrow> bool" where
  "q_grows q q' \<longleftrightarrow> (\<exists>new. aq_items q' = aq_items q @ new \<and>
     aq_unfinished q' = aq_unfinished q + int (length new))"

lemma q_grows_refl [simp]: "q_grows q q"
  by (simp add: q_grows_def)

lemma q_grows_trans: "q_grows a b \<Longrightarrow> q_grows b c \<Longrightarrow> q_grows a c"
  unfolding q_grows_def by force

lemma enqueue_outbound_grows: "q_grows (outbound c) (outbound (fst (enqueue_outbound c msg)))"
  by (auto simp: enqueue_outbound_def aq_put_nowait_def q_grows_def split: option.split)

text \<open>The queue of a connection; one that is not registered has an empty one.\<close>

definition queue_of :: "manager \<Rightarrow> ustr \<Rightarrow> json async_queue" where
  "queue_of m x = (case get_connection m x of None \<Rightarrow> aq_new 0 | Some c \<Rightarrow> outbound c)"

lemma queue_of_items: "aq_items (queue_of m x) = inbox_of m x"
  by (simp add: queue_of_def inbox_of_def get_connection_def aq_new_def split: option.split)

definition grows :: "manager \<Rightarrow> manager \<Rightarrow> bool" where
  "grows m m' \<longleftrightarrow> (\<forall>x. q_grows (queue_of m x) (queue_of m' x))"

lemma grows_refl [simp]: "grows m m"
  by (simp add: grows_def)

lemma grows_trans: "grows a b \<Longrightarrow> grows b c \<Longrightarrow> grows a c"
  unfolding grows_def using q_grows_trans by blast

lemma growsI:
  assumes "\<And>x c. get_connection m x = Some c \<Longrightarrow> \<exists>c'. get_connection m' x = Some c' \<and> q_grows (outbound c) (outbound c')"
    and "\<And>x. get_connection m x = None \<Longrightarrow> get_connection m' x = None"
  shows "grows m m'"
  unfolding grows_def
proof
  show "q_grows (queue_of m x) (queue_of m' x)" for x
    using assms [of x] by (cases "get_connection m x") (auto simp: queue_of_def)
qed

lemma grows_same: "connections m' = connections m \<Longrightarrow> grows m m'"
  by (rule growsI) (simp_all add: get_connection_def)

lemma with_context_grows:
  assumes "\<And>c. get_connection m cid = Some c \<Longrightarrow> q_grows (outbound c) (outbound (f c))"
  shows "grows m (with_context m cid f)"
  by (rule growsI) (use assms in \<open>auto simp: get_connection_def with_context_get\<close>)

section \<open>The turns of a handler\<close>

lemma enqueue_own_grows: "grows (srv_manager sv) (srv_manager (fst (enqueue_own sv cid msg)))"
proof (cases rule: enqueue_own_cases [of sv cid msg])
  case (present c c' ok)
  have "grows (srv_manager sv) (with_context (srv_manager sv) cid (\<lambda>_. c'))"
    by (rule with_context_grows) (use present(1,2) enqueue_outbound_grows [of c msg] in simp)
  with present(3) show ?thesis by simp
qed simp

lemma deliver_grows:
  assumes "registry_ok m" and "deliver_to_client m k msg = (m', b)"
  shows "grows m m'"
  by (rule growsI)
     (use deliver_to_client_get(1) [OF assms] enqueue_outbound_grows in \<open>auto simp: get_connection_def split: if_splits\<close>)

lemma route_grows:
  assumes "manager_ok m" and "hub.route m rcp j = (m', st)"
  shows "grows m m'"
  using assms deliver_grows [of m rcp j]
  by (auto simp: hub.route_def queue_offline_def manager_ok_def intro: grows_same split: if_splits prod.splits)

interpretation growth: turn_relation P cid grows for P cid
proof unfold_locales
  show "grows m (with_context m cid (\<lambda>_. k'))" if "get_connection m cid = Some k" "outbound k' = outbound k" for m cid k k'
    using that by (intro with_context_grows) simp
qed (auto intro: grows_trans enqueue_own_grows route_grows)

lemma finish_frame_grows: "grows (srv_manager sv) (srv_manager (fst (finish_frame sv cid rs)))"
proof -
  have "grows (srv_manager sv) (srv_manager (fst (enqueue_responses sv cid rs)))"
  proof (induction rs arbitrary: sv)
    case (Cons r rs)
    obtain sv1 ok where e: "enqueue_own sv cid r = (sv1, ok)" by fastforce
    with enqueue_own_grows [of sv cid r] Cons.IH [of sv1] grows_trans show ?case by (cases ok) auto
  qed simp
  then show ?thesis by (simp add: finish_frame_manager)
qed

lemma auth_finish_grows:
  assumes "manager_ok (srv_manager sv)"
  shows "grows (srv_manager sv) (srv_manager (fst (auth_finish E sv cid e result)))"
proof (cases result)
  case (Inl x)
  then show ?thesis using growth.not_resolved [OF HOL.refl assms, of E] by simp
next
  case (Inr i)
  let ?m1 = "bind_identity (srv_manager sv) cid (ai_user_id i) (ai_username i) (ai_session_id i)"
  obtain q es where d: "drain (offline_queue (srv_manager sv)) (ai_username i) = (q, es)" by fastforce
  have "grows (srv_manager sv) ?m1"
    by (rule growsI) (auto simp: get_connection_def bind_identity_get)
  moreover have "grows ?m1 (?m1\<lparr>offline_queue := q\<rparr>)" by (rule grows_same) simp
  moreover have "grows (?m1\<lparr>offline_queue := q\<rparr>) (srv_manager (fst (finish_frame
      (emit (sv\<lparr>srv_manager := ?m1\<rparr>) ev k fs\<lparr>srv_manager := ?m1\<lparr>offline_queue := q\<rparr>\<rparr>) cid rs)))" for ev k fs rs
    using finish_frame_grows [of "emit (sv\<lparr>srv_manager := ?m1\<rparr>) ev k fs\<lparr>srv_manager := ?m1\<lparr>offline_queue := q\<rparr>\<rparr>" cid rs]
    by simp
  ultimately show ?thesis using grows_trans by (simp add: auth_finish_def Inr Let_def d)
qed

lemma after_turn_grows:
  assumes "grows (srv_manager (sys_server s)) (srv_manager sv)"
  shows "grows (srv_manager (sys_server s)) (srv_manager (sys_server (after_turn s cid h (sv, t))))"
proof -
  have "grows (srv_manager sv) (srv_manager (close_begin sv cid))"
    unfolding close_begin_def by simp (rule with_context_grows, simp add: mark_closing_def)
  with assms grows_trans show ?thesis by (cases t) (auto simp: after_turn_def)
qed

section \<open>The steps\<close>

lemma register_grows:
  assumes "register m tid host now wnow cid = (m', res)" and "get_connection m cid = None"
  shows "grows m m'"
proof -
  have "q_grows (aq_new 0) (aq_new n :: json async_queue)" for n by (simp add: q_grows_def aq_new_def)
  moreover have "outbound (new_context l cid tid wnow host now) = aq_new (max_pending_outbound l)" for l
    by (simp add: new_context_def)
  ultimately show ?thesis
    using assms by (auto simp: register_def Let_def grows_def queue_of_def get_connection_def split: if_splits)
qed

lemma ws_connect_grows:
  assumes "get_connection (srv_manager sv) cid = None"
    and "ws_connect sv origin host now wnow anon cid = (sv', r)"
  shows "grows (srv_manager sv) (srv_manager sv')"
proof -
  obtain m res where reg: "register (srv_manager sv) (lit ''anon-'' @ anon) host now wnow cid = (m, res)" by fastforce
  with register_grows [OF reg assms(1)] assms(2) show ?thesis
    by (auto simp: ws_connect_def reject_upgrade_def split: if_splits sum.splits)
qed

lemma ws_accepted_grows: "grows (srv_manager sv) (srv_manager (ws_accepted E sv cid))"
  using enqueue_own_grows [of "emit sv ''websocket_connected'' (get_connection (srv_manager sv) cid)
      [(''active_connections'', LInt (connection_count (srv_manager sv)))]" cid] by (simp add: ws_accepted_def)

lemma writer_turn_manager:
  assumes "writer_turn sv cid r = Some (sv', msg, w)"
  obtains q where "srv_manager sv' = with_context (srv_manager sv) cid (\<lambda>c. c\<lparr>outbound := q\<rparr>)"
    and "queue_of (srv_manager sv) cid = \<lparr>aq_items = msg # aq_items q, aq_maxsize = aq_maxsize q,
      aq_unfinished = aq_unfinished (queue_of (srv_manager sv) cid)\<rparr>"
    and "queue_of (srv_manager sv') cid = q" and "r = Sent \<longleftrightarrow> w = WriterRunning"
    and "r = Sent \<Longrightarrow> aq_unfinished q = (let n = aq_unfinished (queue_of (srv_manager sv) cid) in if n \<le> 0 then n else n - 1)"
proof -
  from assms obtain c q0 where c: "get_connection (srv_manager sv) cid = Some c" and g: "aq_get (outbound c) = Some (q0, msg)"
    by (auto simp: writer_turn_def split: option.splits send_result.splits)
  let ?q = "case r of Sent \<Rightarrow> task_done_quiet q0 | PeerGone \<Rightarrow> task_done_quiet (task_done_quiet q0) | SendFailed \<Rightarrow> task_done_quiet q0"
  from g have q0: "outbound c = q0\<lparr>aq_items := msg # aq_items q0\<rparr>"
    by (auto simp: aq_get_def split: list.splits)
  have m: "srv_manager sv' = with_context (srv_manager sv) cid (\<lambda>c. c\<lparr>outbound := ?q\<rparr>)"
    using assms c g by (cases r) (auto simp: writer_turn_def Let_def)
  show thesis
  proof (rule that [of ?q])
    show "srv_manager sv' = with_context (srv_manager sv) cid (\<lambda>c. c\<lparr>outbound := ?q\<rparr>)" by (rule m)
    show "queue_of (srv_manager sv') cid = ?q"
      using c by (simp add: m queue_of_def get_connection_def with_context_get)
    show "queue_of (srv_manager sv) cid = \<lparr>aq_items = msg # aq_items ?q, aq_maxsize = aq_maxsize ?q,
        aq_unfinished = aq_unfinished (queue_of (srv_manager sv) cid)\<rparr>"
      using c q0 by (cases r) (simp_all add: queue_of_def)
    show "r = Sent \<longleftrightarrow> w = WriterRunning"
      using assms c g by (cases r) (simp_all add: writer_turn_def Let_def)
    show "aq_unfinished ?q = (let n = aq_unfinished (queue_of (srv_manager sv) cid) in if n \<le> 0 then n else n - 1)"
      if "r = Sent"
      using that c q0 by (simp add: queue_of_def task_done_quiet_def aq_task_done_def Let_def)
  qed
qed

text \<open>A writer's turn, and how the other steps leave the writers.\<close>

lemma step_write:
  assumes "sys_step A E (LWrite x r) s = Some s'"
  obtains h msg sv w where "dict_get (sys_handlers s) x = Some h" and "h_writer h = WriterRunning"
    and "writer_turn (sys_server s) x r = Some (sv, msg, w)" and "sys_server s' = sv"
    and "sys_handlers s' = dict_set (sys_handlers s) x (h\<lparr>h_writer := w\<rparr>)"
  using assms by (auto split: option.splits if_splits)

lemma step_grows:
  assumes st: "sys_step A E l s = Some s'" and ok: "manager_ok (srv_manager (sys_server s))"
    and "\<And>r. l \<noteq> LWrite x r" and "l \<noteq> LClose x"
  shows "q_grows (queue_of (srv_manager (sys_server s)) x) (queue_of (srv_manager (sys_server s')) x)"
proof -
  let ?m = "srv_manager (sys_server s)" and ?m' = "srv_manager (sys_server s')"
  have turn: "q_grows (queue_of ?m x) (queue_of ?m' x)"
    if "s' = after_turn s cid h r" "grows ?m (srv_manager (fst r))" for cid h r
    using after_turn_grows [of s "fst r" cid h "snd r"] that by (simp add: grows_def)
  show ?thesis
  proof (cases l)
    case (LAuth op)
    with st show ?thesis by auto
  next
    case (LConnect origin host now wnow anon cid)
    with st obtain sv r where "ws_connect (sys_server s) origin host now wnow anon cid = (sv, r)"
      "get_connection ?m cid = None" "?m' = srv_manager sv"
      by (auto split: if_splits prod.splits sum.splits)
    with ws_connect_grows show ?thesis by (metis grows_def)
  next
    case (LAccepted cid)
    with st have "?m' = srv_manager (ws_accepted E (sys_server s) cid)" by (auto split: if_splits)
    with ws_accepted_grows show ?thesis by (metis grows_def)
  next
    case (LAcceptFailed cid)
    with st show ?thesis by (auto split: if_splits)
  next
    case (LFrame cid raw now wnow)
    with st turn [OF _ growth.received [OF HOL.refl ok]] show ?thesis by auto
  next
    case (LResolve cid t now)
    with st show ?thesis by (auto split: option.splits phase.splits)
  next
    case (LBind cid)
    with st turn [OF _ auth_finish_grows [OF ok]] show ?thesis by (auto split: option.splits phase.splits)
  next
    case (LTimeout cid)
    with st turn [OF _ growth.timed_out [OF HOL.refl ok]] show ?thesis by auto
  next
    case (LDisconnect cid)
    with st turn [where r = "(sys_server s, CloseWith CLOSE_NORMAL)"] show ?thesis by (auto simp: recv_disconnect_def)
  next
    case (LWrite cid r)
    with assms(3) have "x \<noteq> cid" by blast
    from st [unfolded LWrite] obtain sv msg w where w: "writer_turn (sys_server s) cid r = Some (sv, msg, w)"
      and "?m' = srv_manager sv" by (rule step_write) blast
    with \<open>x \<noteq> cid\<close> writer_turn_manager [OF w] have "get_connection ?m' x = get_connection ?m x"
      by (metis get_connection_def with_context_get)
    then show ?thesis by (simp add: queue_of_def)
  next
    case (LClose cid)
    with st assms(4) obtain w where "?m' = srv_manager (close_end (sys_server s) cid w)" "x \<noteq> cid"
      by (auto split: option.splits phase.splits)
    with close_end_effect(3) [OF ok, of cid w x] show ?thesis by (simp add: queue_of_def)
  qed
qed

lemma after_turn_writer:
  assumes "dict_get (sys_handlers s) cid = Some h" and "dict_get (sys_handlers s) x = Some k"
  shows "\<exists>k'. dict_get (sys_handlers (after_turn s cid h r)) x = Some k' \<and> h_writer k' = h_writer k"
  using after_turn_handlers(1) [OF assms(1), of r x] after_turn_handlers(2) [OF assms(1), of r x] assms(2) by fastforce

lemma step_writer_state:
  assumes st: "sys_step A E l s = Some s'"
    and "\<And>r. l \<noteq> LWrite x r" and "l \<noteq> LClose x" and k: "dict_get (sys_handlers s) x = Some k"
    and u: "unstarted s"
  shows "h_writer k = NoWriter \<or> (\<exists>k'. dict_get (sys_handlers s') x = Some k' \<and> h_writer k' = h_writer k)"
proof (cases l)
  case (LAccepted cid)
  with st u k show ?thesis by (auto simp: unstarted_def accepting_def split: if_splits option.splits)
next
  case (LAcceptFailed cid)
  with st u k show ?thesis by (auto simp: unstarted_def accepting_def split: if_splits option.splits)
next
  case (LWrite cid r)
  with assms(2) have "x \<noteq> cid" by auto
  from st [unfolded LWrite] obtain hn w where "sys_handlers s' = dict_set (sys_handlers s) cid (hn\<lparr>h_writer := w\<rparr>)"
    by (rule step_write) blast
  with k \<open>x \<noteq> cid\<close> show ?thesis by simp
next
  case (LClose cid)
  with st assms(3) k show ?thesis by (auto split: option.splits phase.splits)
next
  case (LConnect origin host now wnow anon cid)
  with st k show ?thesis by (auto split: if_splits prod.splits sum.splits)
next
  case (LFrame cid raw now wnow)
  with st have "\<exists>k'. dict_get (sys_handlers s') x = Some k' \<and> h_writer k' = h_writer k"
    by (auto dest!: receivingD) (rule after_turn_writer [OF _ k], assumption)
  then show ?thesis by (rule disjI2)
next
  case (LResolve cid t now)
  with st k show ?thesis by (cases "x = cid") (auto split: option.splits phase.splits)
next
  case (LBind cid)
  with st have "\<exists>k'. dict_get (sys_handlers s') x = Some k' \<and> h_writer k' = h_writer k"
    by (auto split: option.splits phase.splits) (rule after_turn_writer [OF _ k], assumption)
  then show ?thesis by (rule disjI2)
next
  case (LTimeout cid)
  with st have "\<exists>k'. dict_get (sys_handlers s') x = Some k' \<and> h_writer k' = h_writer k"
    by (auto dest!: receivingD) (rule after_turn_writer [OF _ k], assumption)
  then show ?thesis by (rule disjI2)
next
  case (LDisconnect cid)
  with st have "\<exists>k'. dict_get (sys_handlers s') x = Some k' \<and> h_writer k' = h_writer k"
    by (auto dest!: receivingD) (rule after_turn_writer [OF _ k], assumption)
  then show ?thesis by (rule disjI2)
qed (use st k in auto)

section \<open>What a connection's writer has sent\<close>

text \<open>The messages that the writer took in a run, in order, with what became of each.\<close>

definition writes_at :: "label \<Rightarrow> system \<Rightarrow> ustr \<Rightarrow> (json \<times> send_result) list" where
  "writes_at l s cid = (case l of
     LWrite x r \<Rightarrow> if x \<noteq> cid then [] else (case writer_turn (sys_server s) cid r of
        None \<Rightarrow> [] | Some (_, msg, _) \<Rightarrow> [(msg, r)])
   | _ \<Rightarrow> [])"

fun written :: "auth_env \<Rightarrow> transport_env \<Rightarrow> system \<Rightarrow> label list \<Rightarrow> ustr \<Rightarrow> (json \<times> send_result) list" where
  "written A E s0 [] cid = []"
| "written A E s0 (l # ls) cid = written A E s0 ls cid @
     (case sys_run A E ls s0 of None \<Rightarrow> [] | Some s \<Rightarrow> writes_at l s cid)"

lemma writes_at_other: "(\<And>r. l \<noteq> LWrite cid r) \<Longrightarrow> writes_at l s cid = []"
  by (cases l) (auto simp: writes_at_def)

lemma writer_turn_inbox: "writer_turn sv cid r = Some (sv', msg, w) \<Longrightarrow>
    inbox_of (srv_manager sv) cid = msg # inbox_of (srv_manager sv') cid"
  by (erule writer_turn_manager) (metis async_queue.select_convs(1) queue_of_items)

lemma reaches_inbox:
  assumes later: "reaches A E s ls' s'" and r: "reaches A E s0 ls s" and init: "sys_ok A E s0 [] s0"
    and "LClose cid \<notin> set ls'"
  shows "\<exists>new. map fst (written A E s ls' cid) @ inbox_of (srv_manager (sys_server s')) cid =
    inbox_of (srv_manager (sys_server s)) cid @ new"
  using later assms(4)
proof (induction rule: reaches.induct)
  case (step ls1 s1 l s2)
  then obtain new where IH: "map fst (written A E s ls1 cid) @ inbox_of (srv_manager (sys_server s1)) cid =
      inbox_of (srv_manager (sys_server s)) cid @ new" by auto
  have run: "sys_run A E ls1 s = Some s1" using step.hyps(1) by (simp add: reaches_run)
  have ok: "manager_ok (srv_manager (sys_server s1))"
    using sys_okD(1) [OF reaches_ok [OF reaches_trans [OF step.hyps(1) r] init]] .
  show ?case
  proof (cases "\<exists>r. l = LWrite cid r")
    case True
    then obtain r where l: "l = LWrite cid r" by blast
    from step.hyps(2) [unfolded l] obtain msg sv w where w: "writer_turn (sys_server s1) cid r = Some (sv, msg, w)"
      and "sys_server s2 = sv" by (rule step_write) blast
    with writer_turn_inbox [OF w] IH show ?thesis
      by (intro exI [of _ new]) (simp add: run l writes_at_def)
  next
    case False
    then have "q_grows (queue_of (srv_manager (sys_server s1)) cid) (queue_of (srv_manager (sys_server s2)) cid)"
      using step_grows [OF step.hyps(2) ok] step.prems by auto
    then obtain more where "inbox_of (srv_manager (sys_server s2)) cid = inbox_of (srv_manager (sys_server s1)) cid @ more"
      by (auto simp: q_grows_def queue_of_items)
    with IH False writes_at_other [of l cid] show ?thesis
      by (intro exI [of _ "new @ more"]) (simp add: run)
  qed
qed simp

text \<open>Only the last message taken can fail to be sent, and then the writer has stopped.\<close>

definition sent_well :: "(json \<times> send_result) list \<Rightarrow> handler option \<Rightarrow> bool" where
  "sent_well ws h \<longleftrightarrow> (\<forall>p \<in> set ws. snd p = Sent) \<or>
     (\<forall>p \<in> set (butlast ws). snd p = Sent) \<and> (\<exists>k. h = Some k \<and> h_writer k \<in> {WriterReturned, WriterFailed})"

lemma reaches_sent_well:
  assumes "reaches A E s ls' s'" and "LClose cid \<notin> set ls'" and r: "reaches A E s0 ls s"
    and init: "sys_ok A E s0 [] s0" "unstarted s0"
  shows "sent_well (written A E s ls' cid) (dict_get (sys_handlers s') cid)"
  using assms(1,2)
proof (induction rule: reaches.induct)
  case (step ls1 s1 l s2)
  then have IH: "sent_well (written A E s ls1 cid) (dict_get (sys_handlers s1) cid)" by simp
  have run: "sys_run A E ls1 s = Some s1" using step.hyps(1) by (simp add: reaches_run)
  show ?case
  proof (cases "\<exists>r. l = LWrite cid r")
    case True
    then obtain r where l: "l = LWrite cid r" by blast
    from step.hyps(2) [unfolded l] obtain h msg sv w where h: "dict_get (sys_handlers s1) cid = Some h"
      "h_writer h = WriterRunning" and w: "writer_turn (sys_server s1) cid r = Some (sv, msg, w)"
      and h2: "sys_handlers s2 = dict_set (sys_handlers s1) cid (h\<lparr>h_writer := w\<rparr>)" by (rule step_write) blast
    have "r = Sent \<longleftrightarrow> w = WriterRunning" by (rule writer_turn_manager [OF w])
    moreover have "w \<noteq> NoWriter" using w by (auto simp: writer_turn_def Let_def split: option.splits send_result.splits)
    ultimately have "r = Sent \<or> w \<in> {WriterReturned, WriterFailed}" by (cases w) auto
    with IH h h2 show ?thesis by (auto simp: run l writes_at_def w sent_well_def butlast_append)
  next
    case False
    then have "writes_at l s1 cid = []" using writes_at_other by blast
    moreover have "h_writer k = NoWriter \<or> (\<exists>k'. dict_get (sys_handlers s2) cid = Some k' \<and> h_writer k' = h_writer k)"
      if "dict_get (sys_handlers s1) cid = Some k" for k
      using step_writer_state [OF step.hyps(2) _ _ that reaches_unstarted [OF reaches_trans [OF step.hyps(1) r] init]]
        False step.prems by auto
    ultimately show ?thesis using IH by (fastforce simp: run sent_well_def)
  qed
qed (simp add: sent_well_def)

section \<open>The tally of unfinished messages\<close>

definition tallied :: "system \<Rightarrow> bool" where
  "tallied s \<longleftrightarrow> (\<forall>x h. dict_get (sys_handlers s) x = Some h \<longrightarrow> h_writer h \<in> {NoWriter, WriterRunning} \<longrightarrow>
     aq_unfinished (queue_of (srv_manager (sys_server s)) x) = int (length (inbox_of (srv_manager (sys_server s)) x)))"

text \<open>A handler that was not there before has a fresh queue.\<close>

lemma step_new_handler:
  assumes "sys_step A E l s = Some s'" and "manager_ok (srv_manager (sys_server s))" and "handlers_ok s"
    and "dict_get (sys_handlers s) x = None" and "dict_get (sys_handlers s') x = Some k"
  shows "queue_of (srv_manager (sys_server s)) x = aq_new 0"
  using assms(1-3)
proof (cases rule: step_shape)
  case (joined cid)
  with assms(4,5) show ?thesis by (auto simp: queue_of_def split: if_splits)
next
  case (turn cid hn sv t r)
  with after_turn_handlers(1) [OF turn(1), of "(sv, t)" x] assms(4,5) show ?thesis by simp
qed (use assms(4,5) in \<open>auto split: if_splits\<close>)

lemma step_tallied:
  assumes st: "sys_step A E l s = Some s'" and ok: "manager_ok (srv_manager (sys_server s))" "handlers_ok s"
    and t: "tallied s" and u: "unstarted s"
  shows "tallied s'"
  unfolding tallied_def
proof (intro allI impI)
  let ?m = "srv_manager (sys_server s)" and ?m' = "srv_manager (sys_server s')"
  fix x k assume k: "dict_get (sys_handlers s') x = Some k" "h_writer k \<in> {NoWriter, WriterRunning}"
  show "aq_unfinished (queue_of ?m' x) = int (length (inbox_of ?m' x))"
  proof (cases "\<exists>r. l = LWrite x r")
    case True
    then obtain r where l: "l = LWrite x r" by blast
    from st [unfolded l] obtain h msg sv w where h: "dict_get (sys_handlers s) x = Some h" "h_writer h = WriterRunning"
      and w: "writer_turn (sys_server s) x r = Some (sv, msg, w)" and m': "sys_server s' = sv"
      and h': "sys_handlers s' = dict_set (sys_handlers s) x (h\<lparr>h_writer := w\<rparr>)" by (rule step_write) blast
    have "w \<noteq> NoWriter" using w by (auto simp: writer_turn_def Let_def split: option.splits send_result.splits)
    with h' k have "w = WriterRunning" by auto
    with writer_turn_manager [OF w] have "r = Sent" by metis
    have n: "aq_unfinished (queue_of ?m x) = int (length (inbox_of ?m x))" using t h by (simp add: tallied_def)
    obtain q where q: "queue_of ?m' x = q"
      "aq_unfinished q = (let n = aq_unfinished (queue_of ?m x) in if n \<le> 0 then n else n - 1)"
      by (rule writer_turn_manager [OF w]) (use \<open>r = Sent\<close> m' in blast)
    then show ?thesis using writer_turn_inbox [OF w] n m' by simp
  next
    case False
    have lc: "l \<noteq> LClose x" using st k by (auto split: option.splits phase.splits)
    have g: "q_grows (queue_of ?m x) (queue_of ?m' x)" using step_grows [OF st ok(1)] False lc by blast
    have "aq_unfinished (queue_of ?m x) = int (length (aq_items (queue_of ?m x)))"
    proof (cases "dict_get (sys_handlers s) x")
      case None
      with step_new_handler [OF st ok None k(1)] show ?thesis by (simp add: aq_new_def)
    next
      case (Some h)
      with step_writer_state [OF st _ _ Some u] False lc k t show ?thesis by (auto simp: tallied_def queue_of_items)
    qed
    with g show ?thesis by (auto simp: q_grows_def queue_of_items [symmetric])
  qed
qed

lemma reaches_tallied:
  assumes "reaches A E s0 ls s" and "sys_ok A E s0 [] s0" and "tallied s0" and "unstarted s0"
  shows "tallied s"
  using assms(1)
proof (induction rule: reaches.induct)
  case (step ls s l s')
  with step_tallied [OF step.hyps(2)] sys_okD [OF reaches_ok [OF step.hyps(1) assms(2)]]
    reaches_unstarted [OF step.hyps(1) assms(2,4)] show ?case by blast
qed (rule assms(3))

section \<open>Emptying a queue\<close>

definition writing :: "system \<Rightarrow> ustr \<Rightarrow> bool" where
  "writing s cid \<longleftrightarrow> (\<exists>h. dict_get (sys_handlers s) cid = Some h \<and> h_writer h = WriterRunning)"

lemma write_enabled:
  assumes "writing s cid" and "inbox_of (srv_manager (sys_server s)) cid = msg # rest"
  obtains s' where "sys_step A E (LWrite cid Sent) s = Some s'" and "writing s' cid"
    and "writes_at (LWrite cid Sent) s cid = [(msg, Sent)]"
    and "inbox_of (srv_manager (sys_server s')) = (inbox_of (srv_manager (sys_server s)))(cid := rest)"
proof -
  let ?m = "srv_manager (sys_server s)"
  obtain h where h: "dict_get (sys_handlers s) cid = Some h" "h_writer h = WriterRunning"
    using assms(1) by (auto simp: writing_def)
  obtain c where c: "get_connection ?m cid = Some c" "aq_items (outbound c) = msg # rest"
    using assms(2) by (auto simp: inbox_of_def get_connection_def split: option.splits)
  define sv where "sv = (sys_server s)\<lparr>srv_manager := with_context ?m cid
    (\<lambda>c'. c'\<lparr>outbound := task_done_quiet (outbound c\<lparr>aq_items := rest\<rparr>)\<rparr>)\<rparr>"
  have w: "writer_turn (sys_server s) cid Sent = Some (sv, msg, WriterRunning)"
    using c by (simp add: writer_turn_def aq_get_def sv_def)
  show thesis
  proof
    show "sys_step A E (LWrite cid Sent) s = Some (s\<lparr>sys_server := sv,
        sys_handlers := dict_set (sys_handlers s) cid (h\<lparr>h_writer := WriterRunning\<rparr>)\<rparr>)" (is "_ = Some ?s'")
      using h w by simp
    show "writing ?s' cid" by (simp add: writing_def)
    show "writes_at (LWrite cid Sent) s cid = [(msg, Sent)]" by (simp add: writes_at_def w)
    show "inbox_of (srv_manager (sys_server ?s')) = (inbox_of ?m)(cid := rest)"
      using c by (auto simp: fun_eq_iff sv_def with_context_inbox get_connection_def)
  qed
qed

lemma flush_prefix:
  assumes "writing s cid" and "n \<le> length (inbox_of (srv_manager (sys_server s)) cid)"
  shows "\<exists>s'. reaches A E s (replicate n (LWrite cid Sent)) s' \<and> writing s' cid \<and>
    written A E s (replicate n (LWrite cid Sent)) cid =
      map (\<lambda>j. (j, Sent)) (take n (inbox_of (srv_manager (sys_server s)) cid)) \<and>
    inbox_of (srv_manager (sys_server s')) =
      (inbox_of (srv_manager (sys_server s)))(cid := drop n (inbox_of (srv_manager (sys_server s)) cid))"
  using assms(2)
proof (induction n)
  case 0
  then show ?case using assms(1) by (intro exI [of _ s]) (simp add: reaches.start)
next
  case (Suc n)
  let ?box = "inbox_of (srv_manager (sys_server s)) cid"
  from Suc.IH [OF Suc_leD [OF Suc.prems]] obtain s1 where s1: "reaches A E s (replicate n (LWrite cid Sent)) s1" "writing s1 cid"
    "written A E s (replicate n (LWrite cid Sent)) cid = map (\<lambda>j. (j, Sent)) (take n ?box)"
    "inbox_of (srv_manager (sys_server s1)) = (inbox_of (srv_manager (sys_server s)))(cid := drop n ?box)" by blast
  from Suc.prems have d: "drop n ?box = ?box ! n # drop (Suc n) ?box" by (simp add: Cons_nth_drop_Suc)
  with s1(4) have "inbox_of (srv_manager (sys_server s1)) cid = ?box ! n # drop (Suc n) ?box" by simp
  from write_enabled [OF s1(2) this, of A E] obtain s2 where s2: "sys_step A E (LWrite cid Sent) s1 = Some s2"
    "writing s2 cid" "writes_at (LWrite cid Sent) s1 cid = [(?box ! n, Sent)]"
    "inbox_of (srv_manager (sys_server s2)) = (inbox_of (srv_manager (sys_server s1)))(cid := drop (Suc n) ?box)" by blast
  have "sys_run A E (replicate n (LWrite cid Sent)) s = Some s1" using s1(1) by (simp add: reaches_run)
  then show ?case
    using reaches.step [OF s1(1) s2(1)] s2 s1(3,4) Suc.prems
    by (intro exI [of _ s2]) (simp add: take_Suc_conv_app_nth)
qed

section \<open>The properties\<close>

lemma initial_tallied: "tallied (initial c db l)"
  by (simp add: tallied_def initial_def)

text \<open>
  C20: a connection's messages leave in the order in which they were accepted, none twice and
  none left out. Over any stretch of a run in which its handler does not end, what the writer
  took, followed by what still waits, is what waited before followed by what was accepted
  since; and only the last message taken can have failed to be sent.
\<close>

theorem outbound_fifo:
  assumes "limits_ok l" and "db_ok db" and r: "reaches A E (initial c db l) ls s"
    and later: "reaches A E s ls' s'" and alive: "LClose cid \<notin> set ls'"
  shows "(\<exists>accepted. map fst (written A E s ls' cid) @ inbox_of (srv_manager (sys_server s')) cid =
      inbox_of (srv_manager (sys_server s)) cid @ accepted) \<and>
    (\<forall>p \<in> set (butlast (written A E s ls' cid)). snd p = Sent)"
proof -
  have "sent_well (written A E s ls' cid) (dict_get (sys_handlers s') cid)" 
    by (rule reaches_sent_well [OF later alive r initial_ok [OF assms(1,2)] initial_unstarted])
  then have "\<forall>p \<in> set (butlast (written A E s ls' cid)). snd p = Sent"
    unfolding sent_well_def by (meson in_set_butlastD)
  with reaches_inbox [OF later r initial_ok [OF assms(1,2)] alive] show ?thesis by blast
qed

lemma demo_start_ok: "limits_ok transport_limits_defaults" "db_ok pocket_db"
  using default_limits_ok [of ascii_unicode "\<lambda>_. None"] pocket_db_ok
  by (simp_all add: limits_ok_def transport_limits_defaults_def default_origins_def)

abbreviation demo_end :: "log_record list \<Rightarrow> system" where
  "demo_end g \<equiv> solo_at (alice_online_as [ready_message, auth_ready_message, ack_message] 4 4) (lit ''alice'') bob_box
     Receiving g"

text \<open>The sample run with one more turn of the writer.\<close>

lemma demo_writing:
  obtains g where "reaches pocket_env sample_transport demo_start demo_labels
      (demo_end g)"
    and "writing (demo_end g) (lit ''c1'')"
    and "inbox_of (srv_manager (sys_server (demo_end g))) (lit ''c1'') = [ready_message, auth_ready_message, ack_message]"
proof -
  obtain g where r: "reaches pocket_env sample_transport demo_start demo_labels
      (demo_end g)" using demo_run by blast
  show thesis
    by (rule that [OF r]) (simp_all add: writing_def solo_at_def solo_def inbox_of_def alice_online_as_def online_sel)
qed

theorem outbound_fifo_witness:
  "\<exists>s s' accepted. reaches pocket_env sample_transport demo_start demo_labels s \<and>
     reaches pocket_env sample_transport s [LWrite (lit ''c1'') Sent] s' \<and>
     written pocket_env sample_transport s [LWrite (lit ''c1'') Sent] (lit ''c1'') = [(ready_message, Sent)] \<and>
     ready_message # inbox_of (srv_manager (sys_server s')) (lit ''c1'') =
       [ready_message, auth_ready_message, ack_message] @ accepted"
proof -
  obtain g where r: "reaches pocket_env sample_transport demo_start demo_labels (demo_end g)"
    and w: "writing (demo_end g) (lit ''c1'')"
    and b: "inbox_of (srv_manager (sys_server (demo_end g))) (lit ''c1'') =
      [ready_message, auth_ready_message, ack_message]" by (rule demo_writing)
  from write_enabled [OF w b, of pocket_env sample_transport] obtain s' where
    s': "sys_step pocket_env sample_transport (LWrite (lit ''c1'') Sent) (demo_end g) = Some s'"
    "writes_at (LWrite (lit ''c1'') Sent) (demo_end g) (lit ''c1'') = [(ready_message, Sent)]" by blast
  note later = reaches.step [OF reaches.start s'(1)]
  have wr: "written pocket_env sample_transport (demo_end g) [LWrite (lit ''c1'') Sent] (lit ''c1'') =
      [(ready_message, Sent)]" using s'(2) by simp
  have "LClose (lit ''c1'') \<notin> set [LWrite (lit ''c1'') Sent]" by simp
  from outbound_fifo [OF demo_start_ok r [unfolded demo_start_def] later this]
  have "\<exists>accepted. ready_message # inbox_of (srv_manager (sys_server s')) (lit ''c1'') =
      [ready_message, auth_ready_message, ack_message] @ accepted" unfolding wr b by simp
  with r later wr show ?thesis by blast
qed

text \<open>
  What has been accepted for a connection can be delivered as long as its writer runs,
  whatever state its handler is in, the closing one included: turns of the writer alone send
  every waiting message in order, nothing else changes in any queue, and then the \<open>join\<close> that
  the closing handler waits for returns, which it does not as long as a message waits.
\<close>

lemma outbound_flushes:
  assumes "limits_ok l" and "db_ok db" and r: "reaches A E (initial c db l) ls s"
    and h: "dict_get (sys_handlers s) cid = Some h" "h_writer h = WriterRunning"
  shows "let m = srv_manager (sys_server s); ws = replicate (length (inbox_of m cid)) (LWrite cid Sent) in
    aq_joined (queue_of m cid) = (inbox_of m cid = []) \<and>
    (\<exists>s'. reaches A E s ws s' \<and> written A E s ws cid = map (\<lambda>j. (j, Sent)) (inbox_of m cid) \<and>
       inbox_of (srv_manager (sys_server s')) = (inbox_of m)(cid := []) \<and>
       aq_joined (queue_of (srv_manager (sys_server s')) cid))"
proof -
  note init = initial_ok [OF assms(1,2)]
  have joined: "aq_joined (queue_of (srv_manager (sys_server x)) cid) = (inbox_of (srv_manager (sys_server x)) cid = [])"
    if "reaches A E (initial c db l) ks x" "writing x cid" for ks x
    using reaches_tallied [OF that(1) init initial_tallied initial_unstarted] that(2) by (auto simp: tallied_def writing_def aq_joined_def)
  have w: "writing s cid" using h by (simp add: writing_def)
  from flush_prefix [OF w order_refl, of A E] joined [OF r w] joined [OF reaches_trans [OF _ r]]
  show ?thesis unfolding Let_def by fastforce
qed

lemma outbound_flushes_witness:
  "\<exists>s s'. reaches pocket_env sample_transport demo_start demo_labels s \<and>
     reaches pocket_env sample_transport s (replicate 3 (LWrite (lit ''c1'') Sent)) s' \<and>
     written pocket_env sample_transport s (replicate 3 (LWrite (lit ''c1'') Sent)) (lit ''c1'') =
       [(ready_message, Sent), (auth_ready_message, Sent), (ack_message, Sent)] \<and>
     aq_joined (queue_of (srv_manager (sys_server s')) (lit ''c1''))"
proof -
  obtain g where r: "reaches pocket_env sample_transport demo_start demo_labels
      (demo_end g)"
    and b: "inbox_of (srv_manager (sys_server (demo_end g))) (lit ''c1'') = [ready_message, auth_ready_message, ack_message]"
    by (rule demo_writing)
  have h: "dict_get (sys_handlers (demo_end g)) (lit ''c1'') = Some \<lparr>h_phase = Receiving, h_writer = WriterRunning\<rparr>"
    by (simp add: solo_at_def)
  have three: "length [ready_message, auth_ready_message, ack_message] = 3" by simp
  from outbound_flushes [OF demo_start_ok r [unfolded demo_start_def] h] r
  show ?thesis unfolding Let_def b three demo_start_def by (auto simp del: replicate.simps)
qed

end
