(* ===== verification/Addressed.thy ===== *)
theory Addressed
  imports Delivery
begin

text \<open>
  Who can read what. In every reachable state each queued message is the dump of an outbound
  model, a receipt waits only in the mailbox of its recipient or in the queue of a connection
  that holds the recipient's name (its account, or the throwaway name it was registered
  under), and nothing but receipts waits offline.
\<close>

section \<open>Where a message may wait\<close>

definition fits :: "pydantic \<Rightarrow> connection_context \<Rightarrow> json \<Rightarrow> bool" where
  "fits P c j \<longleftrightarrow> (\<exists>x. j = dump P x) \<and> (is_receipt j \<longrightarrow>
     jfield j ''recipient'' \<in> {Some (JStr (routing_identity c)), Some (JStr (transport_client_id c))})"

definition fits_mailbox :: "pydantic \<Rightarrow> ustr \<Rightarrow> json \<Rightarrow> bool" where
  "fits_mailbox P r j \<longleftrightarrow> (\<exists>x. j = dump P x) \<and> is_receipt j \<and> jfield j ''recipient'' = Some (JStr r)"

definition placed :: "pydantic \<Rightarrow> manager \<Rightarrow> bool" where
  "placed P m \<longleftrightarrow>
     (\<forall>x c. get_connection m x = Some c \<longrightarrow> (\<forall>j \<in> set (aq_items (outbound c)). fits P c j)) \<and>
     (\<forall>r. \<forall>j \<in> set (held_for m r). fits_mailbox P r j)"

lemma placedD:
  assumes "placed P m"
  shows "get_connection m x = Some c \<Longrightarrow> j \<in> set (aq_items (outbound c)) \<Longrightarrow> fits P c j"
    and "j \<in> set (held_for m r) \<Longrightarrow> fits_mailbox P r j"
  using assms unfolding placed_def by blast+

lemma placedI:
  assumes "\<And>x c j. get_connection m x = Some c \<Longrightarrow> j \<in> set (aq_items (outbound c)) \<Longrightarrow> fits P c j"
    and "\<And>r j. j \<in> set (held_for m r) \<Longrightarrow> fits_mailbox P r j"
  shows "placed P m"
  using assms unfolding placed_def by blast

lemma fits_standing: "same_standing c c' \<Longrightarrow> fits P c' j = fits P c j"
  using same_standing_identity [of c c'] by (simp add: fits_def same_standing_def)

lemma reply_fits: "is_reply P j \<Longrightarrow> fits P c j"
  by (simp add: is_reply_def fits_def)

lemma receipt_fits: "fits_mailbox P rcp (receipt_for P k e rcp)"
  by (auto simp: fits_mailbox_def receipt_for_def)

lemma mailbox_fits: "fits_mailbox P (routing_identity c) j \<Longrightarrow> fits P c j"
  by (simp add: fits_mailbox_def fits_def)

section \<open>The turns keep it\<close>

lemma placed_with_context:
  assumes "placed P m"
    and "\<And>c j. get_connection m cid = Some c \<Longrightarrow> j \<in> set (aq_items (outbound (f c))) \<Longrightarrow> fits P (f c) j"
  shows "placed P (with_context m cid f)"
proof (rule placedI)
  show "fits P c j" if "get_connection (with_context m cid f) x = Some c" "j \<in> set (aq_items (outbound c))" for x c j
    using that assms(2) placedD(1) [OF assms(1)] by (auto simp: get_connection_def with_context_get split: if_splits)
qed (use placedD(2) [OF assms(1)] in simp)

lemma enqueue_own_placed:
  assumes "placed P (srv_manager sv)"
    and fit: "\<And>c. get_connection (srv_manager sv) cid = Some c \<Longrightarrow> fits P c j"
  shows "placed P (srv_manager (fst (enqueue_own sv cid j)))"
proof (cases rule: enqueue_own_cases [of sv cid j])
  case (present c c' ok)
  have "fits P c' x" if "x \<in> set (aq_items (outbound c'))" for x
    using that enqueue_outbound_items [OF present(2)] fits_standing [OF enqueue_outbound_standing [OF present(2)]]
      placedD(1) [OF assms(1) present(1)] fit [OF present(1)] by (auto split: if_splits)
  with present(3) show ?thesis using placed_with_context [OF assms(1)] by simp
qed (use assms in simp)

lemma enqueue_responses_placed:
  assumes "placed P (srv_manager sv)"
    and "\<And>c r. get_connection (srv_manager sv) cid = Some c \<Longrightarrow> r \<in> set rs \<Longrightarrow> fits P c r"
  shows "placed P (srv_manager (fst (enqueue_responses sv cid rs)))"
  using assms
proof (induction rs arbitrary: sv)
  case (Cons r rs)
  obtain sv1 ok where e: "enqueue_own sv cid r = (sv1, ok)" by fastforce
  have p: "placed P (srv_manager sv1)" using enqueue_own_placed [of P sv cid r] Cons.prems e by simp
  have q: "quiet (srv_manager sv) (srv_manager sv1)" using enqueue_own_quiet [of sv cid r] e by simp
  have fit: "fits P c' y" if c': "get_connection (srv_manager sv1) cid = Some c'" and y: "y \<in> set rs" for c' y
  proof -
    obtain c where "get_connection (srv_manager sv) cid = Some c" "same_standing c c'"
      using quiet_get_back [OF q c'] by blast
    with Cons.prems(2) [of c y] y fits_standing [of c c'] show ?thesis by simp
  qed
  from Cons.IH [OF p fit] p e show ?case by (cases ok) simp_all
qed simp

lemma finish_frame_placed:
  assumes "placed P (srv_manager sv)"
    and "\<And>c r. get_connection (srv_manager sv) cid = Some c \<Longrightarrow> r \<in> set rs \<Longrightarrow> fits P c r"
  shows "placed P (srv_manager (fst (finish_frame sv cid rs)))"
  unfolding finish_frame_manager using assms by (rule enqueue_responses_placed)

lemma deliver_placed:
  assumes ok: "registry_ok m" and d: "deliver_to_client m rcp j = (m', b)" and p: "placed P m"
    and j: "fits_mailbox P rcp j"
  shows "placed P m'"
proof (rule placedI)
  fix x c y assume c: "get_connection m' x = Some c" and y: "y \<in> set (aq_items (outbound c))"
  show "fits P c y"
  proof (cases "holds_identity m rcp x")
    case True
    then obtain k where k: "get_connection m x = Some k" "routing_identity k = rcp"
      and e: "enqueue_outbound k j = (c, snd (enqueue_outbound k j))"
      using deliver_to_client_get(1) [OF ok d, of x] c by (auto simp: get_connection_def holds_identity_def)
    show ?thesis
      using y enqueue_outbound_items [OF e] fits_standing [OF enqueue_outbound_standing [OF e]]
        placedD(1) [OF p k(1)] mailbox_fits [of P k j] j k(2) by (auto split: if_splits)
  next
    case False
    with deliver_to_client_get(1) [OF ok d, of x] c y placedD(1) [OF p] show ?thesis
      by (simp add: get_connection_def)
  qed
next
  show "fits_mailbox P r y" if "y \<in> set (held_for m' r)" for r y
    using that deliver_to_client_frame(3) [OF d] placedD(2) [OF p] by (simp add: held_for_def)
qed

lemma queue_offline_placed:
  assumes "queue_offline m rcp j = (m', b)" and p: "placed P m" and j: "fits_mailbox P rcp j"
  shows "placed P m'"
proof -
  obtain q where q: "enqueue (offline_queue m) rcp j = (q, b)" and m': "m' = m\<lparr>offline_queue := q\<rparr>"
    using assms(1) by (auto simp: queue_offline_def split: prod.splits)
  show ?thesis
  proof (rule placedI)
    show "fits P c y" if "get_connection m' x = Some c" "y \<in> set (aq_items (outbound c))" for x c y
      using that placedD(1) [OF p] by (simp add: m' get_connection_def)
    show "fits_mailbox P r y" if "y \<in> set (held_for m' r)" for r y
      using that enqueue_waiting [OF q] placedD(2) [OF p] j by (auto simp: m' held_for_def split: if_splits)
  qed
qed

lemma route_placed:
  assumes "manager_ok m" and "hub.route m rcp (receipt_for P k e rcp) = (m', st)" and "placed P m"
  shows "placed P m'"
  using assms deliver_placed [OF _ _ assms(3) receipt_fits] queue_offline_placed [OF _ assms(3) receipt_fits]
  by (auto simp: hub.route_def manager_ok_def split: if_splits prod.splits)

interpretation placing: turn_relation P cid "\<lambda>m m'. placed P m \<longrightarrow> placed P m'" for P cid
proof unfold_locales
  fix m :: manager and k k'
  assume k: "get_connection m cid = Some k" "same_standing k k'" "outbound k' = outbound k"
  show "placed P m \<longrightarrow> placed P (with_context m cid (\<lambda>_. k'))"
    using placedD(1) [OF _ k(1)] k(3) fits_standing [OF k(2)] by (auto intro!: placed_with_context)
qed (auto intro: enqueue_own_placed reply_fits route_placed)

section \<open>A token is resolved for an unauthenticated connection\<close>

definition anonymous :: "manager \<Rightarrow> ustr \<Rightarrow> bool" where
  "anonymous m cid \<longleftrightarrow> (\<forall>c. get_connection m cid = Some c \<longrightarrow> \<not> authenticated c)"

text \<open>The phases from the presentation of a token to the use of the answer.\<close>

definition presenting :: "phase \<Rightarrow> bool" where
  "presenting p = (case p of Resolving _ _ \<Rightarrow> True | Resolved _ _ \<Rightarrow> True | _ \<Rightarrow> False)"

lemma presenting_simps [simp]:
  "presenting (Resolving e tok)" "presenting (Resolved e res)" "\<not> presenting Accepting" "\<not> presenting Receiving"
  "\<not> presenting (Closing code)"
  by (simp_all add: presenting_def)

definition unbound :: "system \<Rightarrow> bool" where
  "unbound s \<longleftrightarrow> (\<forall>cid h. dict_get (sys_handlers s) cid = Some h \<longrightarrow> presenting (h_phase h) \<longrightarrow>
     anonymous (srv_manager (sys_server s)) cid)"

lemma quiet_anonymous: "quiet m m' \<Longrightarrow> anonymous m cid \<Longrightarrow> anonymous m' cid"
  unfolding anonymous_def using quiet_get_back [of m m' cid] by (fastforce simp: same_standing_def)

lemma finish_frame_turns [simp]: "snd (finish_frame sv cid rs) \<noteq> AwaitToken e tok"
  by (simp add: finish_frame_def split: prod.split bool.split)

lemma dispatch_awaits: "snd (dispatch E sv cid c e wall_now) = AwaitToken e' tok \<Longrightarrow> \<not> authenticated c"
  by (rule notI) (simp add: dispatch_def auth_begin_def split_beta split: if_splits)

lemma recv_frame_awaits:
  assumes "snd (recv_frame E sv cid raw now wall_now) = AwaitToken e tok"
  shows "anonymous (srv_manager sv) cid"
proof (cases "get_connection (srv_manager sv) cid")
  case (Some c)
  have t: "authenticated (touch c now\<lparr>limiter := l\<rparr>) = authenticated c" for l by (simp add: touch_def)
  show ?thesis
    using assms Some
    by (auto simp: recv_frame_def Let_def anonymous_def t dest!: dispatch_awaits
        split: option.splits if_splits prod.splits verdict.splits)
qed (simp add: anonymous_def)

lemma close_begin_anonymous:
  assumes "manager_ok (srv_manager sv)" and "anonymous (srv_manager sv) x"
  shows "anonymous (srv_manager (close_begin sv cid)) x"
  using assms(2) close_begin_effect(3) [OF assms(1), of cid x]
  by (auto simp: anonymous_def mark_closing_def split: if_splits)

text \<open>
  After a turn the other handlers have the phases and the standing they had, and the own one
  waits for a token only if the turn ended so.
\<close>

lemma after_turn_unbound:
  assumes u: "unbound s" and h: "dict_get (sys_handlers s) cid = Some hn"
    and ok: "manager_ok (srv_manager sv)"
    and other: "\<And>x. x \<noteq> cid \<Longrightarrow> anonymous (srv_manager (sys_server s)) x \<Longrightarrow> anonymous (srv_manager sv) x"
    and own: "\<And>e tok. t = AwaitToken e tok \<Longrightarrow> anonymous (srv_manager sv) cid"
    and gone: "t = NotRegistered \<Longrightarrow> h_phase hn = Receiving"
  shows "unbound (after_turn s cid hn (sv, t))"
  unfolding unbound_def
proof (intro allI impI)
  fix x k
  assume k: "dict_get (sys_handlers (after_turn s cid hn (sv, t))) x = Some k" "presenting (h_phase k)"
  have "anonymous (srv_manager sv) x"
  proof (cases "x = cid")
    case True
    with k h own gone show ?thesis by (cases t) (auto simp: after_turn_def)
  next
    case False
    with k have "dict_get (sys_handlers s) x = Some k" by (cases t) (simp_all add: after_turn_def)
    with u k(2) other [OF False] show ?thesis unfolding unbound_def by blast
  qed
  then show "anonymous (srv_manager (sys_server (after_turn s cid hn (sv, t)))) x"
    using close_begin_anonymous [OF ok] by (cases t) (simp_all add: after_turn_def)
qed

lemma bound_anonymous: "x \<noteq> cid \<Longrightarrow> anonymous m x \<Longrightarrow> anonymous (bound m cid r) x"
  by (simp add: anonymous_def bound_other)

lemma step_unbound:
  assumes st: "sys_step A E l s = Some s'" and ok: "manager_ok (srv_manager (sys_server s))" and h: "handlers_ok s"
    and u: "unbound s"
  shows "unbound s'"
proof -
  let ?m = "srv_manager (sys_server s)"
  have quiet_turn: "unbound (after_turn s cid hn (sv, t))"
    if "dict_get (sys_handlers s) cid = Some hn" "h_phase hn = Receiving" "turn_ok ?m (srv_manager sv) new"
      "\<And>e tok. t = AwaitToken e tok \<Longrightarrow> anonymous ?m cid" for cid hn sv t new
    using after_turn_unbound [OF u that(1) turn_okD(1) [OF that(3)]] quiet_anonymous [OF turn_okD(2) [OF that(3)]] that
    by blast
  show ?thesis
  proof (cases l)
    case (LAuth op)
    with st u show ?thesis by (auto simp: unbound_def)
  next
    case (LConnect origin host now wnow anon cid)
    with st obtain sv r where c: "ws_connect (sys_server s) origin host now wnow anon cid = (sv, r)"
      and fresh: "get_connection ?m cid = None" by (auto split: if_splits prod.splits sum.splits)
    show ?thesis
    proof (cases r)
      case (Inl code)
      with st LConnect c ws_connect_Inl [of "sys_server s" origin host now wnow anon cid sv code] u
      show ?thesis by (auto simp: unbound_def anonymous_def split: if_splits)
    next
      case (Inr cid')
      then have s': "s' = s\<lparr>sys_server := sv,
          sys_handlers := dict_set (sys_handlers s) cid \<lparr>h_phase = Accepting, h_writer = NoWriter\<rparr>\<rparr>"
        using st LConnect c by (auto split: if_splits)
      from ws_connect_Inr(6) [OF ok fresh c [unfolded Inr]] u show ?thesis
        by (auto simp: s' unbound_def anonymous_def split: if_splits)
    qed
  next
    case (LAccepted cid)
    with st have s': "sys_server s' = ws_accepted E (sys_server s) cid"
      "sys_handlers s' = dict_set (sys_handlers s) cid \<lparr>h_phase = Receiving, h_writer = WriterRunning\<rparr>"
      by (auto split: if_splits)
    with u quiet_anonymous [OF turn_okD(2) [OF ws_accepted_turn [OF ok]]] show ?thesis
      by (auto simp: unbound_def split: if_splits)
  next
    case (LAcceptFailed cid)
    with st u show ?thesis by (auto simp: unbound_def split: if_splits)
  next
    case (LFrame cid raw now wnow)
    with st obtain hn where hn: "receiving s cid = Some hn"
      and s': "s' = after_turn s cid hn (recv_frame E (sys_server s) cid raw now wnow)" by auto
    obtain sv t where r: "recv_frame E (sys_server s) cid raw now wnow = (sv, t)" by fastforce
    from receivingD [OF hn] obtain c where "get_connection ?m cid = Some c" using handlers_okD [OF h] by metis
    from recv_frame_turn [OF ok this, of E raw now wnow] r recv_frame_awaits [of E "sys_server s" cid raw now wnow]
      receivingD [OF hn] show ?thesis unfolding s' r by (auto intro!: quiet_turn)
  next
    case (LResolve cid t now)
    with st obtain hn e tok where hn: "dict_get (sys_handlers s) cid = Some hn" "h_phase hn = Resolving e tok"
      and s': "s' = s\<lparr>sys_handlers := dict_set (sys_handlers s) cid
         (hn\<lparr>h_phase := Resolved e (resolve_access_token A (a_db (sys_auth s)) t now tok)\<rparr>)\<rparr>"
      by (auto split: option.splits phase.splits)
    from u hn have "anonymous ?m cid" unfolding unbound_def by fastforce
    with u show ?thesis by (auto simp: s' unbound_def split: if_splits)
  next
    case (LBind cid)
    with st obtain hn e r0 where hn: "dict_get (sys_handlers s) cid = Some hn"
      and s': "s' = after_turn s cid hn (auth_finish E (sys_server s) cid e r0)"
      by (auto split: option.splits phase.splits)
    obtain sv t where r: "auth_finish E (sys_server s) cid e r0 = (sv, t)" by fastforce
    note ef = auth_finish_effect [OF ok, where E = E and cid = cid and e = e and result = r0, unfolded r fst_conv]
    show ?thesis unfolding s' r
      using after_turn_unbound [OF u hn ef(1)] quiet_anonymous [OF ef(2)] bound_anonymous
        auth_finish_turns [of E "sys_server s" cid e r0] by (auto simp: r)
  next
    case (LTimeout cid)
    with st obtain hn where hn: "receiving s cid = Some hn"
      and s': "s' = after_turn s cid hn (recv_timeout E (sys_server s) cid)" by auto
    obtain sv t where r: "recv_timeout E (sys_server s) cid = (sv, t)" by fastforce
    then have "t \<noteq> AwaitToken e tok" for e tok by (auto simp: recv_timeout_def split: option.splits if_splits)
    with recv_timeout_turn [OF ok, of E cid] r receivingD [OF hn] show ?thesis
      unfolding s' r by (auto intro!: quiet_turn)
  next
    case (LDisconnect cid)
    with st obtain hn where hn: "receiving s cid = Some hn"
      and s': "s' = after_turn s cid hn (sys_server s, CloseWith CLOSE_NORMAL)"
      by (auto simp: recv_disconnect_def)
    with turn_ok_refl [OF ok] receivingD [OF hn] show ?thesis unfolding s' by (auto intro!: quiet_turn)
  next
    case (LWrite cid r)
    from st [unfolded LWrite] obtain hn msg sv w where hn: "dict_get (sys_handlers s) cid = Some hn"
      and w: "writer_turn (sys_server s) cid r = Some (sv, msg, w)" "sys_server s' = sv"
      and s': "sys_handlers s' = dict_set (sys_handlers s) cid (hn\<lparr>h_writer := w\<rparr>)" by (rule step_write) blast
    with quiet_anonymous [OF turn_okD(2) [OF writer_turn_effect(1) [OF ok w(1)]]] u show ?thesis
      by (auto simp: unbound_def split: if_splits)
  next
    case (LClose cid)
    with st obtain w where s': "s' = s\<lparr>sys_server := close_end (sys_server s) cid w,
        sys_handlers := dict_del (sys_handlers s) cid\<rparr>" by (auto split: option.splits phase.splits)
    with u close_end_effect(3) [OF ok, of cid w] show ?thesis
      by (auto simp: unbound_def anonymous_def split: if_splits)
  qed
qed

section \<open>Every step keeps messages in their place\<close>

lemma context_anonymous:
  assumes "manager_ok m" and "get_connection m cid = Some c" and "anonymous m cid"
  shows "routing_identity c = transport_client_id c"
proof -
  have "\<not> authenticated c" using assms(2,3) by (simp add: anonymous_def)
  with connection_ok(2) [OF assms(1,2)] show ?thesis by (simp add: context_ok_def routing_identity_def)
qed

text \<open>
  Binding the account name: what waits in the queue is addressed to the throwaway name, which
  stays with the connection, and what is drained for the account comes from its own mailbox.
\<close>

lemma auth_finish_placed:
  assumes ok: "manager_ok (srv_manager sv)" and p: "placed (te_pydantic E) (srv_manager sv)"
    and a: "anonymous (srv_manager sv) cid"
  shows "placed (te_pydantic E) (srv_manager (fst (auth_finish E sv cid e result)))"
proof (cases result)
  case (Inl x)
  then show ?thesis using placing.not_resolved [OF HOL.refl ok, where E = E and cid = cid and e = e and x = x] p by simp
next
  case (Inr i)
  let ?P = "te_pydantic E"
  let ?m1 = "bind_identity (srv_manager sv) cid (ai_user_id i) (ai_username i) (ai_session_id i)"
  obtain q es where d: "drain (offline_queue (srv_manager sv)) (ai_username i) = (q, es)" by fastforce
  then have "drain (offline_queue ?m1) (ai_username i) = (q, es)" by simp
  note dm = drained_manager [OF bind_identity_ok [OF ok] this]
  have p1: "placed ?P ?m1"
  proof (rule placedI)
    fix x c j assume c: "get_connection ?m1 x = Some c" and j: "j \<in> set (aq_items (outbound c))"
    show "fits ?P c j"
    proof (cases "x = cid")
      case True
      then obtain k where k: "get_connection (srv_manager sv) cid = Some k"
        and c: "c = authenticate k (ai_user_id i) (ai_username i) (ai_session_id i)"
        using c by (auto simp: get_connection_def bind_identity_get)
      have "transport_client_id c = transport_client_id k" by (simp add: c authenticate_def)
      with placedD(1) [OF p k] j context_anonymous [OF ok k a] show ?thesis by (auto simp: c fits_def)
    next
      case False
      with c j placedD(1) [OF p] show ?thesis by (simp add: get_connection_def bind_identity_get)
    qed
  qed (use placedD(2) [OF p] in simp)
  have p2: "placed ?P (?m1\<lparr>offline_queue := q\<rparr>)"
  proof (rule placedI)
    show "fits ?P c j" if "get_connection (?m1\<lparr>offline_queue := q\<rparr>) x = Some c" "j \<in> set (aq_items (outbound c))" for x c j
      using that placedD(1) [OF p1] by (simp add: get_connection_def)
    show "fits_mailbox ?P r j" if "j \<in> set (held_for (?m1\<lparr>offline_queue := q\<rparr>) r)" for r j
      using that placedD(2) [OF p1, of j r] unfolding dm(3) by (auto split: if_splits)
  qed
  have fit: "fits ?P c r" if c: "get_connection (?m1\<lparr>offline_queue := q\<rparr>) cid = Some c"
    and r: "r \<in> set (dump ?P (AuthReady (message_id e) (ai_user_id i) (ai_username i) (ai_session_id i)) # es)" for c r
  proof -
    have "routing_identity c = ai_username i" using c by (auto simp: get_connection_def bind_identity_get)
    moreover have "fits_mailbox ?P (ai_username i) y" if "y \<in> set es" for y
      using that placedD(2) [OF p1] unfolding dm(2) by blast
    ultimately show ?thesis using r mailbox_fits [of ?P c r] reply_fits by auto
  qed
  have "placed ?P (srv_manager (fst (finish_frame
      (emit (sv\<lparr>srv_manager := ?m1\<rparr>) ev k fs\<lparr>srv_manager := ?m1\<lparr>offline_queue := q\<rparr>\<rparr>) cid
      (dump ?P (AuthReady (message_id e) (ai_user_id i) (ai_username i) (ai_session_id i)) # es))))" for ev k fs
    by (rule finish_frame_placed) (use p2 fit in simp_all)
  then show ?thesis by (simp add: auth_finish_def Inr Let_def d)
qed

lemma close_begin_placed:
  assumes "placed P (srv_manager sv)"
  shows "placed P (srv_manager (close_begin sv cid))"
proof -
  have "fits P (mark_closing c) j = fits P c j" "outbound (mark_closing c) = outbound c" for c j
    by (simp_all add: fits_def mark_closing_def routing_identity_def split: option.split)
  then show ?thesis
    using placedD(1) [OF assms] unfolding close_begin_def by (simp, intro placed_with_context [OF assms]) simp
qed

lemma after_turn_placed:
  "placed P (srv_manager sv) \<Longrightarrow> placed P (srv_manager (sys_server (after_turn s cid h (sv, t))))"
  by (cases t) (simp_all add: after_turn_def close_begin_placed)

lemma ws_connect_placed:
  assumes "placed P (srv_manager sv)" and fresh: "get_connection (srv_manager sv) cid = None"
    and c: "ws_connect sv origin host now wnow anon cid = (sv', r)"
  shows "placed P (srv_manager sv')"
proof -
  obtain m res where reg: "register (srv_manager sv) (lit ''anon-'' @ anon) host now wnow cid = (m, res)" by fastforce
  have m: "placed P m"
  proof (rule placedI)
    show "fits P k j" if "get_connection m x = Some k" "j \<in> set (aq_items (outbound k))" for x k j
      using that reg placedD(1) [OF assms(1)] by (auto simp: register_def Let_def get_connection_def split: if_splits)
    show "fits_mailbox P q j" if "j \<in> set (held_for m q)" for q j
      using that reg placedD(2) [OF assms(1)] by (auto simp: register_def Let_def held_for_def split: if_splits)
  qed
  with c reg assms(1) show ?thesis
    by (auto simp: ws_connect_def reject_upgrade_def split: if_splits sum.splits)
qed

lemma ws_accepted_placed:
  "placed (te_pydantic E) (srv_manager sv) \<Longrightarrow> placed (te_pydantic E) (srv_manager (ws_accepted E sv cid))"
  unfolding ws_accepted_def by (rule enqueue_own_placed) (simp_all add: reply_fits)

lemma close_end_placed:
  assumes "placed P (srv_manager sv)"
  shows "placed P (srv_manager (close_end sv cid w))"
proof (rule placedI)
  show "fits P c j" if "get_connection (srv_manager (close_end sv cid w)) x = Some c" "j \<in> set (aq_items (outbound c))" for x c j
    using that placedD(1) [OF assms]
    by (auto simp: close_end_def unregister_def get_connection_def Let_def split: option.splits if_splits prod.splits)
  show "fits_mailbox P r j" if "j \<in> set (held_for (srv_manager (close_end sv cid w)) r)" for r j
    using that placedD(2) [OF assms]
    by (auto simp: close_end_def unregister_def held_for_def Let_def split: option.splits if_splits prod.splits)
qed

lemma writer_turn_placed:
  assumes p: "placed P (srv_manager sv)" and w: "writer_turn sv cid r = Some (sv', msg, st)"
  shows "placed P (srv_manager sv')"
proof -
  obtain q where m: "srv_manager sv' = with_context (srv_manager sv) cid (\<lambda>c. c\<lparr>outbound := q\<rparr>)"
    and q: "queue_of (srv_manager sv) cid = \<lparr>aq_items = msg # aq_items q, aq_maxsize = aq_maxsize q,
      aq_unfinished = aq_unfinished (queue_of (srv_manager sv) cid)\<rparr>"
    by (rule writer_turn_manager [OF w])
  have "fits P (c\<lparr>outbound := q\<rparr>) j" if c: "get_connection (srv_manager sv) cid = Some c" and j: "j \<in> set (aq_items q)" for c j
  proof -
    have "aq_items (outbound c) = msg # aq_items q" using q c by (simp add: queue_of_def) (metis async_queue.select_convs(1))
    with j placedD(1) [OF p c, of j] have "fits P c j" by simp
    then show ?thesis by (simp add: fits_def routing_identity_def split: option.splits)
  qed
  then show ?thesis unfolding m by (intro placed_with_context [OF p]) simp
qed

lemma step_placed:
  assumes st: "sys_step A E l s = Some s'" and ok: "manager_ok (srv_manager (sys_server s))" and u: "unbound s"
    and p: "placed (te_pydantic E) (srv_manager (sys_server s))"
  shows "placed (te_pydantic E) (srv_manager (sys_server s'))"
proof (cases l)
  case (LAuth op)
  with st p show ?thesis by auto
next
  case (LConnect origin host now wnow anon cid)
  with st obtain sv r where "ws_connect (sys_server s) origin host now wnow anon cid = (sv, r)"
    "get_connection (srv_manager (sys_server s)) cid = None" "sys_server s' = sv"
    by (auto split: if_splits prod.splits sum.splits)
  with ws_connect_placed [OF p] show ?thesis by blast
next
  case (LAccepted cid)
  with st ws_accepted_placed [OF p] show ?thesis by (auto split: if_splits)
next
  case (LAcceptFailed cid)
  with st p show ?thesis by (auto split: if_splits)
next
  case (LFrame cid raw now wnow)
  with st p placing.received [OF HOL.refl ok, where E = E and cid = cid and raw = raw and now = now and wall_now = wnow] show ?thesis
    by (cases "recv_frame E (sys_server s) cid raw now wnow") (auto intro: after_turn_placed)
next
  case (LResolve cid t now)
  with st p show ?thesis by (auto split: option.splits phase.splits)
next
  case (LBind cid)
  with st obtain hn e res where hn: "dict_get (sys_handlers s) cid = Some hn" "h_phase hn = Resolved e res"
    and s': "s' = after_turn s cid hn (auth_finish E (sys_server s) cid e res)"
    by (auto split: option.splits phase.splits)
  from hn u have "anonymous (srv_manager (sys_server s)) cid" unfolding unbound_def by fastforce
  from auth_finish_placed [OF ok p this] show ?thesis
    unfolding s' by (metis after_turn_placed prod.collapse)
next
  case (LTimeout cid)
  with st p placing.timed_out [OF HOL.refl ok, where E = E and cid = cid] show ?thesis
    by (cases "recv_timeout E (sys_server s) cid") (auto intro: after_turn_placed)
next
  case (LDisconnect cid)
  with st p show ?thesis by (auto simp: recv_disconnect_def intro: after_turn_placed)
next
  case (LWrite cid r)
  from st [unfolded LWrite] obtain msg sv w where "writer_turn (sys_server s) cid r = Some (sv, msg, w)" "sys_server s' = sv"
    by (rule step_write) blast
  with writer_turn_placed [OF p] show ?thesis by blast
next
  case (LClose cid)
  with st p show ?thesis by (auto intro: close_end_placed split: option.splits phase.splits)
qed

lemma reaches_placed:
  assumes r: "reaches A E s0 ls s" and init: "sys_ok A E s0 [] s0"
    and "unbound s0" and "placed (te_pydantic E) (srv_manager (sys_server s0))"
  shows "unbound s \<and> placed (te_pydantic E) (srv_manager (sys_server s))"
  using r
proof (induction rule: reaches.induct)
  case start
  show ?case using assms(3,4) by blast
next
  case (step ls s l s')
  note ok = sys_okD [OF reaches_ok [OF step.hyps(1) init]]
  from step_unbound [OF step.hyps(2) ok(1,3)] step_placed [OF step.hyps(2) ok(1)] step.IH show ?case by blast
qed

text \<open>
  C3: nobody gets a message that is not for him. In every reachable state whatever waits in
  the queue of a connection is the dump of an outbound model, and a message from another user
  waits only where the recipient's name is the connection's: the account it is bound to, or
  the throwaway name it was registered under. Offline there are only such messages, each in
  the mailbox of its recipient.
\<close>

theorem no_misdelivery:
  assumes "limits_ok l" and "db_ok db" and r: "reaches A E (initial c db l) ls s"
  shows "(\<forall>cid k j. get_connection (srv_manager (sys_server s)) cid = Some k \<and>
        j \<in> set (inbox_of (srv_manager (sys_server s)) cid) \<longrightarrow>
      (\<exists>x. j = dump (te_pydantic E) x) \<and>
      (is_receipt j \<longrightarrow> jfield j ''recipient'' \<in>
         {Some (JStr (routing_identity k)), Some (JStr (transport_client_id k))})) \<and>
    (\<forall>rcp j. j \<in> set (held_for (srv_manager (sys_server s)) rcp) \<longrightarrow>
      (\<exists>x. j = dump (te_pydantic E) x) \<and> is_receipt j \<and> jfield j ''recipient'' = Some (JStr rcp))"
proof -
  have "unbound (initial c db l)" "placed (te_pydantic E) (srv_manager (sys_server (initial c db l)))"
    by (simp_all add: unbound_def placed_def initial_def get_connection_def held_for_def new_manager_def
        waiting_def new_queue_def)
  from reaches_placed [OF r initial_ok [OF assms(1,2)] this] have p: "placed (te_pydantic E) (srv_manager (sys_server s))"
    by blast
  have "inbox_of (srv_manager (sys_server s)) cid = aq_items (outbound k)"
    if "get_connection (srv_manager (sys_server s)) cid = Some k" for cid k
    using that by (simp add: inbox_of_def get_connection_def)
  with placedD [OF p] show ?thesis unfolding fits_def fits_mailbox_def by metis
qed

theorem no_misdelivery_witness:
  "\<exists>s. reaches pocket_env sample_transport demo_start demo_labels s \<and>
     receipt_message \<in> set (held_for (srv_manager (sys_server s)) (lit ''bob'')) \<and>
     is_receipt receipt_message \<and> jfield receipt_message ''recipient'' = Some (JStr (lit ''bob'')) \<and>
     (\<exists>x. ack_message = dump sample_pydantic x)"
proof -
  obtain g where r: "reaches pocket_env sample_transport demo_start demo_labels (demo_end g)"
    and b: "inbox_of (srv_manager (sys_server (demo_end g))) (lit ''c1'') =
      [ready_message, auth_ready_message, ack_message]" by (rule demo_writing)
  have held: "receipt_message \<in> set (held_for (srv_manager (sys_server (demo_end g))) (lit ''bob''))"
    by (simp add: solo_at_def held_for_def waiting_def bob_box_def)
  have "get_connection (srv_manager (sys_server (demo_end g))) (lit ''c1'') =
      Some (alice_online_as [ready_message, auth_ready_message, ack_message] 4 4)"
    by (simp add: solo_at_def solo_get)
  note ack = conjunct1 [OF no_misdelivery [OF demo_start_ok r [unfolded demo_start_def]], rule_format, OF conjI, OF this,
      unfolded b, of ack_message]
  note box = conjunct2 [OF no_misdelivery [OF demo_start_ok r [unfolded demo_start_def]], rule_format, OF held]
  have "te_pydantic sample_transport = sample_pydantic" by (simp add: sample_transport_def)
  with r held ack box show ?thesis by (intro exI [of _ "demo_end g"]) simp
qed

end
