(* ===== verification/ChatSpec.thy ===== *)
theory ChatSpec
  imports TransportLimits Schemas
begin

text \<open>
  What the transport promises, without registries, handlers, tokens and frames: members with a
  name each and a bounded box of messages to come, and a bounded mailbox for every name that no
  member has. The operations are total functions; one that is not possible changes nothing.
  \<open>ChatRefinement\<close> shows that the server does nothing else.
\<close>

record chat =
  name_of :: "ustr \<Rightarrow> ustr option"
  leaving :: "ustr set"
  box :: "ustr \<Rightarrow> json list"
  mail :: "ustr \<Rightarrow> json list option"

definition empty_chat :: chat where
  "empty_chat = \<lparr>name_of = (\<lambda>_. None), leaving = {}, box = (\<lambda>_. []), mail = (\<lambda>_. None)\<rparr>"

text \<open>A member takes a message while it stays and its box has room.\<close>

definition takes :: "transport_limits \<Rightarrow> chat \<Rightarrow> ustr \<Rightarrow> bool" where
  "takes l c x \<longleftrightarrow> name_of c x \<noteq> None \<and> x \<notin> leaving c \<and> int (length (box c x)) < max_pending_outbound l"

definition tell :: "transport_limits \<Rightarrow> ustr \<Rightarrow> json \<Rightarrow> chat \<Rightarrow> chat" where
  "tell l x j c = (if takes l c x then c\<lparr>box := (box c)(x := box c x @ [j])\<rparr> else c)"

text \<open>
  A message for a name: to every member of that name that takes it, or, when there is none, to
  the mailbox of the name, within its bound and the bound of the number of mailboxes.
\<close>

definition post :: "transport_limits \<Rightarrow> ustr \<Rightarrow> json \<Rightarrow> chat \<Rightarrow> chat" where
  "post l r j c =
     (if \<exists>x. name_of c x = Some r
      then c\<lparr>box := (\<lambda>x. if name_of c x = Some r \<and> takes l c x then box c x @ [j] else box c x)\<rparr>
      else (case mail c r of
              None \<Rightarrow> if int (card (dom (mail c))) < max_queued_recipients l
                      then c\<lparr>mail := (mail c)(r \<mapsto> [j])\<rparr> else c
            | Some js \<Rightarrow> if int (length js) < max_queued_per_recipient l
                      then c\<lparr>mail := (mail c)(r \<mapsto> js @ [j])\<rparr> else c))"

text \<open>A member gets what its mailbox held, as far as its box has room; the rest is lost.\<close>

definition collect :: "transport_limits \<Rightarrow> ustr \<Rightarrow> ustr \<Rightarrow> chat \<Rightarrow> chat" where
  "collect l x r c = fold (tell l x) (case mail c r of None \<Rightarrow> [] | Some js \<Rightarrow> js) (c\<lparr>mail := (mail c)(r := None)\<rparr>)"

datatype chat_op =
    Join ustr ustr
  | Name ustr ustr
  | Tell ustr json
  | Post ustr json
  | Collect ustr ustr
  | Take ustr
  | Depart ustr
  | Leave ustr

fun chat_do :: "transport_limits \<Rightarrow> chat_op \<Rightarrow> chat \<Rightarrow> chat" where
  "chat_do l (Join x n) c = c\<lparr>name_of := (name_of c)(x \<mapsto> n)\<rparr>"
| "chat_do l (Name x n) c = (if name_of c x = None then c else c\<lparr>name_of := (name_of c)(x \<mapsto> n)\<rparr>)"
| "chat_do l (Tell x j) c = tell l x j c"
| "chat_do l (Post r j) c = post l r j c"
| "chat_do l (Collect x r) c = collect l x r c"
| "chat_do l (Take x) c = c\<lparr>box := (box c)(x := tl (box c x))\<rparr>"
| "chat_do l (Depart x) c = (if name_of c x = None then c else c\<lparr>leaving := insert x (leaving c)\<rparr>)"
| "chat_do l (Leave x) c = c\<lparr>name_of := (name_of c)(x := None), leaving := leaving c - {x}, box := (box c)(x := [])\<rparr>"

definition chat_run :: "transport_limits \<Rightarrow> chat_op list \<Rightarrow> chat \<Rightarrow> chat" where
  "chat_run l ops c = fold (chat_do l) ops c"

lemma chat_run_simps [simp]:
  "chat_run l [] c = c" "chat_run l (x # xs) c = chat_run l xs (chat_do l x c)"
  "chat_run l (xs @ ys) c = chat_run l ys (chat_run l xs c)"
  by (simp_all add: chat_run_def)

section \<open>What the specification gives\<close>

text \<open>A box that does not take a message does not take later ones.\<close>

lemma tell_refused: "\<not> takes l c x \<Longrightarrow> tell l x j c = c"
  by (simp add: tell_def)

lemma fold_tell_refused: "\<not> takes l c x \<Longrightarrow> fold (tell l x) js c = c"
  by (induction js) (simp_all add: tell_refused)

lemma tell_mail [simp]: "mail (tell l x j c) = mail c" "name_of (tell l x j c) = name_of c"
  by (simp_all add: tell_def)

lemma tell_mail_update: "tell l x j (c\<lparr>mail := f\<rparr>) = (tell l x j c)\<lparr>mail := f\<rparr>"
  by (simp add: tell_def takes_def)

lemma fold_tell_mail_update: "fold (tell l x) js (c\<lparr>mail := f\<rparr>) = (fold (tell l x) js c)\<lparr>mail := f\<rparr>"
  by (induction js arbitrary: c) (simp_all add: tell_mail_update)

text \<open>A message reaches only boxes of members with the name it is for, and its own mailbox.\<close>

lemma post_private:
  "name_of c x \<noteq> Some r \<Longrightarrow> box (post l r j c) x = box c x"
  "k \<noteq> r \<Longrightarrow> mail (post l r j c) k = mail c k"
  by (auto simp: post_def split: option.split)

end
