(* ===== verification/ChatRefinement.thy ===== *)
theory ChatRefinement
  imports Addressed ChatSpec
begin

text \<open>
  The server implements \<open>ChatSpec\<close>: under the abstraction \<open>chat_of\<close> every step of the server is
  a sequence of operations of the specification, and only of those that its label permits: a
  frame posts under the name its connection has, answers its own connection and may make it
  leave; resolving a token names its connection and collects its mail; a writer takes from its
  own box.
\<close>

section \<open>The abstraction\<close>

definition leaving_of :: "manager \<Rightarrow> ustr set" where
  "leaving_of m = {x. \<exists>c. get_connection m x = Some c \<and> closing c}"

definition chat_of :: "manager \<Rightarrow> chat" where
  "chat_of m = \<lparr>name_of = owner_of m, leaving = leaving_of m, box = inbox_of m,
     mail = (\<lambda>r. dict_get (queues (offline_queue m)) r)\<rparr>"

lemma chat_of_sel [simp]:
  "name_of (chat_of m) = owner_of m" "leaving (chat_of m) = leaving_of m" "box (chat_of m) = inbox_of m"
  "mail (chat_of m) = dict_get (queues (offline_queue m))"
  by (simp_all add: chat_of_def)

lemma chat_of_new [simp]: "chat_of (new_manager l) = empty_chat"
  by (simp add: chat_of_def empty_chat_def new_manager_def owner_of_def leaving_of_def inbox_of_def
      get_connection_def new_queue_def fun_eq_iff)

lemma quiet_leaving: "quiet m m' \<Longrightarrow> leaving_of m' = leaving_of m"
  unfolding leaving_of_def
proof (rule Collect_cong)
  fix x assume "quiet m m'"
  then show "(\<exists>c. get_connection m' x = Some c \<and> closing c) = (\<exists>c. get_connection m x = Some c \<and> closing c)"
    by (cases rule: quiet_get [of m m' x]) (auto simp: same_standing_def)
qed

lemma takes_chat:
  assumes "manager_ok m" and "get_connection m x = Some c" and "0 < max_pending_outbound (limits m)"
  shows "takes (limits m) (chat_of m) x = snd (enqueue_outbound c msg)"
proof -
  have "aq_maxsize (outbound c) = max_pending_outbound (limits m)"
    using connection_ok(2) [OF assms(1,2)] by (simp add: context_ok_def)
  with assms(2,3) show ?thesis
    by (auto simp: takes_def enqueue_outbound_accepts_iff owner_of_def leaving_of_def inbox_of_def get_connection_def)
qed

section \<open>The elementary effects\<close>

lemma chat_enqueue_own:
  assumes ok: "manager_ok (srv_manager sv)" and l: "0 < max_pending_outbound (limits (srv_manager sv))"
  shows "chat_of (srv_manager (fst (enqueue_own sv cid j))) =
      tell (limits (srv_manager sv)) cid j (chat_of (srv_manager sv))"
    and "snd (enqueue_own sv cid j) = takes (limits (srv_manager sv)) (chat_of (srv_manager sv)) cid"
proof -
  let ?m = "srv_manager sv" and ?m' = "srv_manager (fst (enqueue_own sv cid j))"
  show t: "snd (enqueue_own sv cid j) = takes (limits ?m) (chat_of ?m) cid"
  proof (cases rule: enqueue_own_cases [of sv cid j])
    case absent
    then show ?thesis by (simp add: takes_def owner_of_def get_connection_def)
  next
    case (present c c' b)
    with takes_chat [OF ok present(1) l, of j] show ?thesis by simp
  qed
  have "leaving_of ?m' = leaving_of ?m" using quiet_leaving [OF enqueue_own_quiet] .
  moreover have "offline_queue ?m' = offline_queue ?m"
    by (cases rule: enqueue_own_cases [of sv cid j]) simp_all
  moreover have "inbox_of ?m' = (if takes (limits ?m) (chat_of ?m) cid
      then (inbox_of ?m)(cid := inbox_of ?m cid @ [j]) else inbox_of ?m)"
    using enqueue_own_inbox [of sv cid j] t by (auto simp: fun_eq_iff)
  ultimately show "chat_of ?m' = tell (limits ?m) cid j (chat_of ?m)"
    by (simp add: chat_of_def tell_def)
qed

lemma chat_responses:
  assumes "manager_ok (srv_manager sv)" and "limits (srv_manager sv) = l" and "0 < max_pending_outbound l"
  shows "chat_of (srv_manager (fst (enqueue_responses sv cid rs))) = fold (tell l cid) rs (chat_of (srv_manager sv))"
  using assms
proof (induction rs arbitrary: sv)
  case (Cons r rs)
  obtain sv1 ok where e: "enqueue_own sv cid r = (sv1, ok)" by fastforce
  have c: "chat_of (srv_manager sv1) = tell l cid r (chat_of (srv_manager sv))"
    and t: "ok = takes l (chat_of (srv_manager sv)) cid"
    using chat_enqueue_own [of sv cid r] Cons.prems e by simp_all
  have "manager_ok (srv_manager sv1)" using enqueue_own_ok [OF Cons.prems(1), of cid r] e by simp
  moreover have "limits (srv_manager sv1) = l" using enqueue_own_frame(2) [of sv cid r] e Cons.prems(2) by simp
  ultimately have "chat_of (srv_manager (fst (enqueue_responses sv1 cid rs))) = fold (tell l cid) rs (chat_of (srv_manager sv1))"
    using Cons.IH Cons.prems(3) by blast
  with e c t show ?case
    by (cases ok) (simp_all add: tell_refused fold_tell_refused)
qed simp

lemma chat_deliver:
  assumes ok: "manager_ok m" and l: "0 < max_pending_outbound (limits m)" and con: "is_connected m r"
    and d: "deliver_to_client m r j = (m', b)"
  shows "chat_of m' = post (limits m) r j (chat_of m)"
proof -
  have reg: "registry_ok m" using ok by (simp add: manager_ok_def)
  have "inbox_of m' x = (if owner_of m x = Some r \<and> takes (limits m) (chat_of m) x then inbox_of m x @ [j]
      else inbox_of m x)" for x
  proof (cases "get_connection m x")
    case None
    with deliver_inbox_of [OF reg d, of x] show ?thesis by (simp add: get_connection_def owner_of_def inbox_of_def)
  next
    case (Some c)
    with deliver_inbox_of [OF reg d, of x] takes_chat [OF ok Some l, of j] show ?thesis
      by (simp add: get_connection_def owner_of_def inbox_of_def)
  qed
  moreover have "leaving_of m' = leaving_of m" using quiet_leaving [OF deliver_quiet [OF reg d]] .
  moreover have "owner_of m' = owner_of m" using deliver_owner_of [OF reg d] by (rule ext)
  moreover have "\<exists>x. owner_of m x = Some r" using hub.connected_iff [OF ok] con by blast
  ultimately show ?thesis
    using deliver_to_client_frame(3) [OF d] by (auto simp: chat_of_def post_def fun_eq_iff)
qed

lemma chat_hold:
  assumes ok: "manager_ok m" and per: "0 < max_queued_per_recipient (limits m)" and con: "\<not> is_connected m r"
    and h: "queue_offline m r j = (m', b)"
  shows "chat_of m' = post (limits m) r j (chat_of m)"
proof -
  let ?q = "offline_queue m"
  have q: "dict_ok (queues ?q)" "max_per_recipient ?q = max_queued_per_recipient (limits m)"
    "max_recipients ?q = max_queued_recipients (limits m)"
    using ok by (auto simp: manager_ok_def bounds_ok_def queue_ok_def)
  have card: "card (dom (dict_get (queues ?q))) = length (queues ?q)"
    using q(1) distinct_card [of "map fst (queues ?q)"] by (simp add: dict_ok_def dom_map_of_conv_image_fst)
  obtain q' where e: "enqueue ?q r j = (q', b)" and m': "m' = m\<lparr>offline_queue := q'\<rparr>"
    using h by (auto simp: queue_offline_def split: prod.splits)
  have same: "owner_of m' = owner_of m" "inbox_of m' = inbox_of m" "leaving_of m' = leaving_of m"
    by (simp_all add: m' owner_of_def inbox_of_def leaving_of_def get_connection_def fun_eq_iff)
  have none: "\<not> (\<exists>x. owner_of m x = Some r)" using hub.connected_iff [OF ok] con by blast
  show ?thesis
    using e none per q(2,3) card same
    by (auto simp: chat_of_def post_def enqueue_def Let_def m' fun_eq_iff split: option.splits if_splits)
qed

lemma chat_route:
  assumes "manager_ok m" and "limits_ok (limits m)" and "hub.route m r j = (m', st)"
  shows "chat_of m' = post (limits m) r j (chat_of m)"
  using assms chat_deliver [OF assms(1), of r j] chat_hold [OF assms(1), of r j]
  by (auto simp: hub.route_def limits_ok_def split: if_splits prod.splits)


section \<open>The turns of a handler\<close>

text \<open>What a member may do that has the name \<open>n\<close>: be answered, and post under that name.\<close>

definition speaks :: "pydantic \<Rightarrow> ustr \<Rightarrow> ustr \<Rightarrow> chat_op \<Rightarrow> bool" where
  "speaks P n x op \<longleftrightarrow> (case op of
     Tell y j \<Rightarrow> y = x \<and> is_reply P j
   | Post r j \<Rightarrow> (\<exists>v. j = dump P v) \<and> is_receipt j \<and> jfield j ''sender'' = Some (JStr n) \<and>
       jfield j ''recipient'' = Some (JStr r)
   | _ \<Rightarrow> False)"

definition chats :: "pydantic \<Rightarrow> transport_limits \<Rightarrow> ustr \<Rightarrow> ustr \<Rightarrow> manager \<Rightarrow> manager \<Rightarrow> bool" where
  "chats P l n x m m' \<longleftrightarrow> (limits_ok l \<and> manager_ok m \<and> limits m = l \<and> owner_of m x = Some n \<longrightarrow>
     manager_ok m' \<and> limits m' = l \<and> owner_of m' x = Some n \<and>
     (\<exists>ops. (\<forall>op \<in> set ops. speaks P n x op) \<and> chat_of m' = chat_run l ops (chat_of m)))"

lemma chatsI:
  assumes "\<And>ops. limits_ok l \<Longrightarrow> manager_ok m \<Longrightarrow> limits m = l \<Longrightarrow> owner_of m x = Some n \<Longrightarrow>
      manager_ok m' \<and> quiet m m' \<and> (\<exists>ops. (\<forall>op \<in> set ops. speaks P n x op) \<and> chat_of m' = chat_run l ops (chat_of m))"
  shows "chats P l n x m m'"
  unfolding chats_def using assms quiet_owner by (auto simp: quiet_def)

lemma chats_trans:
  assumes "chats P l n x a b" and "chats P l n x b c"
  shows "chats P l n x a c"
  unfolding chats_def
proof (intro impI)
  assume h: "limits_ok l \<and> manager_ok a \<and> limits a = l \<and> owner_of a x = Some n"
  with assms(1) obtain f where b: "manager_ok b" "limits b = l" "owner_of b x = Some n"
    and f: "\<forall>op \<in> set f. speaks P n x op" "chat_of b = chat_run l f (chat_of a)" unfolding chats_def by blast
  with h assms(2) obtain g where c: "manager_ok c" "limits c = l" "owner_of c x = Some n"
    and g: "\<forall>op \<in> set g. speaks P n x op" "chat_of c = chat_run l g (chat_of b)" unfolding chats_def by blast
  have "(\<forall>op \<in> set (f @ g). speaks P n x op) \<and> chat_of c = chat_run l (f @ g) (chat_of a)" using f g by auto
  with c show "manager_ok c \<and> limits c = l \<and> owner_of c x = Some n \<and>
      (\<exists>ops. (\<forall>op \<in> set ops. speaks P n x op) \<and> chat_of c = chat_run l ops (chat_of a))" by blast
qed

lemma chat_note:
  assumes "get_connection m x = Some k" and "same_standing k k'" and "outbound k' = outbound k"
  shows "chat_of (with_context m x (\<lambda>_. k')) = chat_of m"
proof -
  have q: "quiet m (with_context m x (\<lambda>_. k'))" by (rule quiet_with_context) (use assms(1,2) in simp)
  have "inbox_of (with_context m x (\<lambda>_. k')) = inbox_of m"
  proof
    show "inbox_of (with_context m x (\<lambda>_. k')) y = inbox_of m y" for y
      using assms(1,3) unfolding with_context_inbox by (simp add: inbox_of_def get_connection_def)
  qed
  with quiet_owner [OF q] quiet_leaving [OF q] show ?thesis by (simp add: chat_of_def)
qed

interpretation talk: turn_relation P cid "chats P l n cid" for P cid l n
proof unfold_locales
  show "chats P l n cid m m" for m
    by (rule chatsI) (auto intro!: exI [of _ "[]"])
  show "chats P l n cid m (with_context m cid (\<lambda>_. k'))"
    if "manager_ok m" "get_connection m cid = Some k" "same_standing k k'" "outbound k' = outbound k"
      "context_ok (limits m) k'" for m k k'
  proof (rule chatsI)
    have t: "turn_ok m (with_context m cid (\<lambda>_. k')) {}"
      by (rule with_context_turn [OF that(1,2,3)]) (use that in simp_all)
    have "chat_of (with_context m cid (\<lambda>_. k')) = chat_run l [] (chat_of m)" using chat_note [OF that(2-4)] by simp
    then show "manager_ok (with_context m cid (\<lambda>_. k')) \<and> quiet m (with_context m cid (\<lambda>_. k')) \<and>
        (\<exists>ops. (\<forall>op \<in> set ops. speaks P n cid op) \<and> chat_of (with_context m cid (\<lambda>_. k')) = chat_run l ops (chat_of m))"
      using turn_okD [OF t] by (intro conjI exI [of _ "[]"]) simp_all
  qed
  show "chats P l n cid (srv_manager sv) (srv_manager (fst (enqueue_own sv cid j)))" if "is_reply P j" for sv j
  proof (rule chatsI)
    assume h: "limits_ok l" "manager_ok (srv_manager sv)" "limits (srv_manager sv) = l"
    have "chat_of (srv_manager (fst (enqueue_own sv cid j))) = chat_run l [Tell cid j] (chat_of (srv_manager sv))"
      using chat_enqueue_own(1) [OF h(2), of cid j] h(1,3) by (simp add: limits_ok_def)
    with that enqueue_own_ok [OF h(2)] enqueue_own_quiet [of sv cid j]
    show "manager_ok (srv_manager (fst (enqueue_own sv cid j))) \<and> quiet (srv_manager sv) (srv_manager (fst (enqueue_own sv cid j))) \<and>
        (\<exists>ops. (\<forall>op \<in> set ops. speaks P n cid op) \<and>
          chat_of (srv_manager (fst (enqueue_own sv cid j))) = chat_run l ops (chat_of (srv_manager sv)))"
      by (intro conjI exI [of _ "[Tell cid j]"]) (simp_all add: speaks_def)
  qed
  show "chats P l n cid m m'"
    if "get_connection m cid = Some k" "sender e = routing_identity k" "hub.route m rcp (receipt_for P k e rcp) = (m', st)"
    for m k e rcp m' st
  proof (rule chatsI)
    let ?j = "receipt_for P k e rcp"
    assume h: "limits_ok l" "manager_ok m" "limits m = l" "owner_of m cid = Some n"
    have "routing_identity k = n" using h(4) that(1) by (simp add: owner_of_def get_connection_def)
    then have "speaks P n cid (Post rcp ?j)"
      using receipt_fits [of P rcp k e] by (simp add: speaks_def fits_mailbox_def receipt_for_def)
    moreover have "chat_of m' = chat_run l [Post rcp ?j] (chat_of m)" using chat_route [OF h(2) _ that(3)] h(1,3) by simp
    ultimately show "manager_ok m' \<and> quiet m m' \<and>
        (\<exists>ops. (\<forall>op \<in> set ops. speaks P n cid op) \<and> chat_of m' = chat_run l ops (chat_of m))"
      using hub.route_inv [OF h(2) that(3)] route_quiet [OF h(2) that(3)] by (intro conjI exI [of _ "[Post rcp ?j]"]) simp_all
  qed
qed (rule chats_trans)

section \<open>The other effects\<close>

lemma chat_depart:
  assumes "manager_ok (srv_manager sv)"
  shows "chat_of (srv_manager (close_begin sv cid)) = chat_do l (Depart cid) (chat_of (srv_manager sv))"
proof -
  note e = close_begin_effect [OF assms, of cid]
  have "offline_queue (srv_manager (close_begin sv cid)) = offline_queue (srv_manager sv)"
    by (simp add: close_begin_def)
  moreover have "leaving_of (srv_manager (close_begin sv cid)) =
      (if owner_of (srv_manager sv) cid = None then leaving_of (srv_manager sv) else insert cid (leaving_of (srv_manager sv)))"
    unfolding leaving_of_def e(3) by (auto simp: owner_of_def get_connection_def mark_closing_def)
  ultimately show ?thesis using e(4,5) by (simp add: chat_of_def)
qed

definition departs :: "turn \<Rightarrow> bool" where
  "departs t \<longleftrightarrow> (case t of CloseWith _ \<Rightarrow> True | Raised _ \<Rightarrow> True | _ \<Rightarrow> False)"

lemma chat_after_turn:
  assumes "manager_ok (srv_manager sv)"
  shows "chat_of (srv_manager (sys_server (after_turn s cid h (sv, t)))) =
    chat_run l (if departs t then [Depart cid] else []) (chat_of (srv_manager sv))"
  using chat_depart [OF assms, of cid l] by (cases t) (simp_all add: after_turn_def departs_def)

lemma chat_bind:
  "chat_of (bind_identity m cid u n sid) = chat_do l (Name cid n) (chat_of m)"
  by (auto simp: chat_of_def owner_of_def leaving_of_def bind_identity_get get_connection_def fun_eq_iff authenticate_def
      routing_identity_def)

lemma chat_drain:
  assumes "drain (offline_queue m) n = (q, es)"
  shows "chat_of (m\<lparr>offline_queue := q\<rparr>) = (chat_of m)\<lparr>mail := (mail (chat_of m))(n := None)\<rparr>"
    and "es = (case mail (chat_of m) n of None \<Rightarrow> [] | Some js \<Rightarrow> js)"
  using assms
  by (auto simp: drain_def chat_of_def owner_of_def leaving_of_def inbox_of_def get_connection_def fun_eq_iff split: option.splits)

lemma chat_auth_finish:
  assumes ok: "manager_ok (srv_manager sv)" and lim: "limits (srv_manager sv) = l" and l: "limits_ok l"
  shows "case result of
      Inl (AuthError x) \<Rightarrow> \<exists>r. is_reply (te_pydantic E) r \<and>
        chat_of (srv_manager (fst (auth_finish E sv cid e result))) = chat_run l [Tell cid r] (chat_of (srv_manager sv))
    | Inl x \<Rightarrow> chat_of (srv_manager (fst (auth_finish E sv cid e result))) = chat_of (srv_manager sv)
    | Inr i \<Rightarrow> \<exists>r. is_reply (te_pydantic E) r \<and>
        chat_of (srv_manager (fst (auth_finish E sv cid e result))) =
          chat_run l [Name cid (ai_username i), Tell cid r, Collect cid (ai_username i)] (chat_of (srv_manager sv))"
proof (cases result)
  case (Inl y)
  have pos: "0 < max_pending_outbound l" using l by (simp add: limits_ok_def)
  show ?thesis
  proof (cases y)
    case (AuthError x)
    let ?r = "error_message (te_pydantic E) WS_AUTH_FAILED (Some (message_id e))"
    have "chat_of (srv_manager (fst (enqueue_responses (emit sv ev k fs) cid [?r]))) = tell l cid ?r (chat_of (srv_manager sv))"
      for ev k fs
      using chat_responses [of "emit sv ev k fs" l cid "[?r]"] ok lim pos by (simp del: enqueue_responses.simps)
    then show ?thesis
      by (auto simp: Inl AuthError auth_finish_def finish_frame_manager simp del: enqueue_responses.simps intro!: exI [of _ ?r])
  qed (simp_all add: Inl auth_finish_def)
next
  case (Inr i)
  let ?n = "ai_username i"
  let ?m1 = "bind_identity (srv_manager sv) cid (ai_user_id i) ?n (ai_session_id i)"
  let ?r = "dump (te_pydantic E) (AuthReady (message_id e) (ai_user_id i) ?n (ai_session_id i))"
  obtain q es where d: "drain (offline_queue ?m1) ?n = (q, es)" by fastforce
  have ok2: "manager_ok (?m1\<lparr>offline_queue := q\<rparr>)" using drained_manager(1) [OF bind_identity_ok [OF ok] d] .
  have pos: "0 < max_pending_outbound l" using l by (simp add: limits_ok_def)
  let ?sv = "emit (sv\<lparr>srv_manager := ?m1\<rparr>) ''websocket_auth_success'' (get_connection ?m1 cid) []
      \<lparr>srv_manager := ?m1\<lparr>offline_queue := q\<rparr>\<rparr>"
  have "srv_manager (fst (auth_finish E sv cid e result)) = srv_manager (fst (enqueue_responses ?sv cid (?r # es)))"
    using d by (simp add: auth_finish_def Inr Let_def finish_frame_manager del: enqueue_responses.simps)
  then have "chat_of (srv_manager (fst (auth_finish E sv cid e result))) =
      fold (tell l cid) (?r # es) (chat_of (?m1\<lparr>offline_queue := q\<rparr>))"
    using chat_responses [of ?sv l cid "?r # es"] ok2 lim pos by (simp del: enqueue_responses.simps)
  also have "\<dots> = chat_run l [Tell cid ?r, Collect cid ?n] (chat_of ?m1)"
    unfolding chat_drain(1) [OF d]
    using chat_drain(2) [OF d] by (simp add: tell_mail_update collect_def)
  also have "\<dots> = chat_run l [Name cid ?n, Tell cid ?r, Collect cid ?n] (chat_of (srv_manager sv))"
    by (simp only: chat_run_simps chat_bind [of _ _ _ _ _ l])
  finally have "chat_of (srv_manager (fst (auth_finish E sv cid e result))) =
      chat_run l [Name cid ?n, Tell cid ?r, Collect cid ?n] (chat_of (srv_manager sv))" .
  moreover have "is_reply (te_pydantic E) ?r" by simp
  ultimately show ?thesis unfolding Inr sum.case by blast
qed


lemma chat_connect:
  assumes fresh: "get_connection (srv_manager sv) cid = None"
    and c: "ws_connect sv origin host now wnow anon cid = (sv', Inr cid')"
  shows "chat_of (srv_manager sv') = chat_run l [Join cid (lit ''anon-'' @ anon)] (chat_of (srv_manager sv))"
proof -
  let ?m = "srv_manager sv"
  obtain m res where reg: "register ?m (lit ''anon-'' @ anon) host now wnow cid = (m, res)" by fastforce
  from c reg obtain k where res: "res = Inr k" and sv': "sv' = sv\<lparr>srv_manager := m\<rparr>"
    by (auto simp: ws_connect_def reject_upgrade_def split: if_splits sum.splits prod.splits)
  obtain b where m: "m = ?m\<lparr>connections := dict_set (connections ?m) cid (new_context (limits ?m) cid (lit ''anon-'' @ anon) wnow host now),
      by_client := b\<rparr>"
    using reg res by (auto simp: register_def Let_def split: if_splits)
  show ?thesis
    using fresh unfolding m sv'
    by (auto simp: chat_of_def owner_of_def leaving_of_def inbox_of_def get_connection_def fun_eq_iff new_context_def
        routing_identity_def aq_new_def)
qed

lemma chat_accept:
  assumes "manager_ok (srv_manager sv)" and "limits_ok (limits (srv_manager sv))"
  shows "chat_of (srv_manager (ws_accepted E sv cid)) = chat_run (limits (srv_manager sv))
      [Tell cid (connection_ready (te_pydantic E) (limits (srv_manager sv)) cid)] (chat_of (srv_manager sv))"
  using chat_enqueue_own(1) [of "emit sv ''websocket_connected'' (get_connection (srv_manager sv) cid)
      [(''active_connections'', LInt (connection_count (srv_manager sv)))]" cid] assms
  by (simp add: ws_accepted_def limits_ok_def)

lemma chat_write:
  assumes "writer_turn sv cid r = Some (sv', msg, w)"
  shows "chat_of (srv_manager sv') = chat_do l (Take cid) (chat_of (srv_manager sv))"
proof -
  obtain q where m: "srv_manager sv' = with_context (srv_manager sv) cid (\<lambda>c. c\<lparr>outbound := q\<rparr>)"
    by (rule writer_turn_manager [OF assms])
  have "owner_of (srv_manager sv') = owner_of (srv_manager sv)"
    unfolding m by (rule with_context_owner) (simp add: routing_identity_def split: option.split)
  moreover have "leaving_of (srv_manager sv') = leaving_of (srv_manager sv)"
    by (auto simp: m leaving_of_def get_connection_def with_context_get split: if_splits)
  moreover have "inbox_of (srv_manager sv') = (inbox_of (srv_manager sv))(cid := tl (inbox_of (srv_manager sv) cid))"
    using writer_turn_inbox [OF assms] by (auto simp: m fun_eq_iff with_context_inbox)
  moreover have "offline_queue (srv_manager sv') = offline_queue (srv_manager sv)" by (simp add: m)
  ultimately show ?thesis by (simp add: chat_of_def)
qed

lemma chat_leave:
  assumes "manager_ok (srv_manager sv)"
  shows "chat_of (srv_manager (close_end sv cid w)) =
    chat_run l (if w = WriterFailed then [] else [Leave cid]) (chat_of (srv_manager sv))"
proof (cases "w = WriterFailed")
  case False
  note get = close_end_effect(3) [OF assms, of cid w]
  have "offline_queue (srv_manager (close_end sv cid w)) = offline_queue (srv_manager sv)"
    by (auto simp: close_end_def unregister_def Let_def split: option.split prod.split)
  moreover have "owner_of (srv_manager (close_end sv cid w)) = (owner_of (srv_manager sv))(cid := None)"
    using get False by (auto simp: fun_eq_iff owner_of_def get_connection_def)
  moreover have "inbox_of (srv_manager (close_end sv cid w)) = (inbox_of (srv_manager sv))(cid := [])"
    using get False by (auto simp: fun_eq_iff inbox_of_def get_connection_def)
  moreover have "leaving_of (srv_manager (close_end sv cid w)) = leaving_of (srv_manager sv) - {cid}"
    using get False by (auto simp: leaving_of_def split: if_splits)
  ultimately show ?thesis using False by (simp add: chat_of_def)
qed (simp add: close_end_def)

section \<open>The server implements the specification\<close>

text \<open>
  The operations that a label permits in a state, when \<open>ids\<close> are the identities that tokens
  have resolved to so far. The end of a turn may make the member leave.
\<close>

definition may_depart :: "ustr \<Rightarrow> chat_op list \<Rightarrow> chat_op list \<Rightarrow> bool" where
  "may_depart x ops all \<longleftrightarrow> all = ops \<or> all = ops @ [Depart x]"

definition permitted ::
  "(ustr \<times> authenticated_identity) set \<Rightarrow> pydantic \<Rightarrow> label \<Rightarrow> system \<Rightarrow> chat_op list \<Rightarrow> bool" where
  "permitted ids P l s all \<longleftrightarrow> (case l of
     LAuth _ \<Rightarrow> all = []
   | LConnect _ _ _ _ anon x \<Rightarrow> all = [] \<or> all = [Join x (lit ''anon-'' @ anon)]
   | LAccepted x \<Rightarrow> \<exists>r. is_reply P r \<and> all = [Tell x r]
   | LAcceptFailed _ \<Rightarrow> all = []
   | LFrame x _ _ _ \<Rightarrow> \<exists>n ops. owner_of (srv_manager (sys_server s)) x = Some n \<and>
       (\<forall>op \<in> set ops. speaks P n x op) \<and> may_depart x ops all
   | LResolve _ _ _ \<Rightarrow> all = []
   | LBind x \<Rightarrow> \<exists>ops. may_depart x ops all \<and> (ops = [] \<or> (\<exists>r. is_reply P r \<and> (ops = [Tell x r] \<or>
       (\<exists>i. (x, i) \<in> ids \<and> ops = [Name x (ai_username i), Tell x r, Collect x (ai_username i)]))))
   | LTimeout x \<Rightarrow> \<exists>r. is_reply P r \<and> all = [Tell x r, Depart x]
   | LDisconnect x \<Rightarrow> all = [Depart x]
   | LWrite x _ \<Rightarrow> all = [Take x]
   | LClose x \<Rightarrow> all = [] \<or> all = [Leave x])"

lemma depart_list: "may_depart x ops (ops @ (if departs t then [Depart x] else []))"
  by (simp add: may_depart_def)

lemma step_refines:
  assumes st: "sys_step A E l s = Some s'" and ok: "manager_ok (srv_manager (sys_server s))" and h: "handlers_ok s"
    and lim: "limits (srv_manager (sys_server s)) = tl'" and l: "limits_ok tl'"
    and ids: "pending (sys_handlers s) \<subseteq> ids"
  shows "\<exists>ops. permitted ids (te_pydantic E) l s ops \<and>
    chat_of (srv_manager (sys_server s')) = chat_run tl' ops (chat_of (srv_manager (sys_server s)))"
proof -
  let ?m = "srv_manager (sys_server s)" and ?m' = "srv_manager (sys_server s')"
  show ?thesis
  proof (cases l)
    case (LAuth op)
    with st show ?thesis by (intro exI [of _ "[]"]) (auto simp: permitted_def)
  next
    case (LConnect origin host now wnow anon cid)
    with st obtain sv r where c: "ws_connect (sys_server s) origin host now wnow anon cid = (sv, r)"
      and fresh: "get_connection ?m cid = None" and m': "?m' = srv_manager sv"
      by (auto split: if_splits prod.splits sum.splits)
    show ?thesis
    proof (cases r)
      case (Inl code)
      with ws_connect_Inl c m' LConnect show ?thesis by (intro exI [of _ "[]"]) (simp add: permitted_def)
    next
      case (Inr cid')
      have "chat_of ?m' = chat_run tl' [Join cid (lit ''anon-'' @ anon)] (chat_of ?m)"
        unfolding m' by (rule chat_connect [OF fresh c [unfolded Inr]])
      moreover have "permitted ids (te_pydantic E) l s [Join cid (lit ''anon-'' @ anon)]"
        by (simp add: LConnect permitted_def)
      ultimately show ?thesis by blast
    qed
  next
    case (LAccepted cid)
    with st have m': "?m' = srv_manager (ws_accepted E (sys_server s) cid)" by (auto split: if_splits)
    have "chat_of ?m' = chat_run tl' [Tell cid (connection_ready (te_pydantic E) (limits ?m) cid)] (chat_of ?m)"
      using chat_accept [OF ok, of E cid] l unfolding m' lim by blast
    moreover have "permitted ids (te_pydantic E) l s [Tell cid (connection_ready (te_pydantic E) (limits ?m) cid)]"
      unfolding LAccepted permitted_def label.case by (intro exI conjI) (rule is_reply_error(2), rule HOL.refl)
    ultimately show ?thesis by blast
  next
    case (LAcceptFailed cid)
    with st show ?thesis by (intro exI [of _ "[]"]) (auto simp: permitted_def split: if_splits)
  next
    case (LFrame cid raw now wnow)
    with st obtain hn where hn: "receiving s cid = Some hn"
      and s': "s' = after_turn s cid hn (recv_frame E (sys_server s) cid raw now wnow)" by auto
    obtain sv t where r: "recv_frame E (sys_server s) cid raw now wnow = (sv, t)" by fastforce
    from receivingD [OF hn] obtain c where "get_connection ?m cid = Some c" using handlers_okD [OF h] by metis
    then have n: "owner_of ?m cid = Some (routing_identity c)" by (simp add: owner_of_def get_connection_def)
    from talk.received [OF HOL.refl ok, of E tl' "routing_identity c" cid raw now wnow] r n ok lim l
    obtain ops where ops: "\<forall>op \<in> set ops. speaks (te_pydantic E) (routing_identity c) cid op"
      and ch: "chat_of (srv_manager sv) = chat_run tl' ops (chat_of ?m)" and ok': "manager_ok (srv_manager sv)"
      unfolding chats_def by auto
    have "permitted ids (te_pydantic E) l s (ops @ (if departs t then [Depart cid] else []))"
      unfolding LFrame permitted_def label.case by (intro exI conjI) (rule n, rule ops, rule depart_list)
    moreover have "chat_of ?m' = chat_run tl' (ops @ (if departs t then [Depart cid] else [])) (chat_of ?m)"
      unfolding s' r chat_after_turn [OF ok', of s cid hn t tl'] ch by simp
    ultimately show ?thesis by blast
  next
    case (LResolve cid t now)
    with st show ?thesis
      by (intro exI [of _ "[]"]) (auto simp: permitted_def split: option.splits phase.splits)
  next
    case (LBind cid)
    with st obtain hn e res where hn: "dict_get (sys_handlers s) cid = Some hn" "h_phase hn = Resolved e res"
      and s': "s' = after_turn s cid hn (auth_finish E (sys_server s) cid e res)"
      by (auto split: option.splits phase.splits)
    obtain sv u where r: "auth_finish E (sys_server s) cid e res = (sv, u)" by fastforce
    have ok': "manager_ok (srv_manager sv)" using auth_finish_effect(1) [OF ok, of E cid e res] r by simp
    have "\<exists>ops. (ops = [] \<or> (\<exists>y. is_reply (te_pydantic E) y \<and> (ops = [Tell cid y] \<or>
        (\<exists>i. (cid, i) \<in> ids \<and> ops = [Name cid (ai_username i), Tell cid y, Collect cid (ai_username i)])))) \<and>
        chat_of (srv_manager sv) = chat_run tl' ops (chat_of ?m)"
    proof (cases res)
      case (Inl x)
      with chat_auth_finish [OF ok lim l, where result = res and E = E and cid = cid and e = e] r show ?thesis
        by (cases x) (auto simp del: chat_run_simps intro: exI [of _ "[]"] simp: chat_run_simps(1))
    next
      case (Inr i)
      have "(cid, i) \<in> ids" using hn Inr ids by (auto simp: pending_def)
      with chat_auth_finish [OF ok lim l, where result = res and E = E and cid = cid and e = e] r Inr show ?thesis by (auto simp del: chat_run_simps)
    qed
    then obtain ops where ops: "ops = [] \<or> (\<exists>y. is_reply (te_pydantic E) y \<and> (ops = [Tell cid y] \<or>
        (\<exists>i. (cid, i) \<in> ids \<and> ops = [Name cid (ai_username i), Tell cid y, Collect cid (ai_username i)])))"
      and ch: "chat_of (srv_manager sv) = chat_run tl' ops (chat_of ?m)" by blast
    have "permitted ids (te_pydantic E) l s (ops @ (if departs u then [Depart cid] else []))"
      using ops depart_list unfolding LBind permitted_def label.case by blast
    moreover have "chat_of ?m' = chat_run tl' (ops @ (if departs u then [Depart cid] else [])) (chat_of ?m)"
      unfolding s' r chat_after_turn [OF ok', of s cid hn u tl'] ch by simp
    ultimately show ?thesis by blast
  next
    case (LTimeout cid)
    with st obtain hn where hn: "receiving s cid = Some hn"
      and s': "s' = after_turn s cid hn (recv_timeout E (sys_server s) cid)" by auto
    from receivingD [OF hn] obtain c where c: "get_connection ?m cid = Some c" using handlers_okD [OF h] by metis
    obtain y ev code where y: "is_reply (te_pydantic E) y"
      and r: "recv_timeout E (sys_server s) cid = (fst (enqueue_own (emit (sys_server s) ev (Some c) []) cid y), CloseWith code)"
    proof (cases "authenticated c")
      case True
      show ?thesis
        by (rule that [of "error_message (te_pydantic E) WS_IDLE_TIMEOUT None" "''websocket_idle_timeout''" CLOSE_IDLE_TIMEOUT])
           (simp_all add: recv_timeout_def c True)
    next
      case False
      show ?thesis
        by (rule that [of "error_message (te_pydantic E) WS_AUTH_REQUIRED None" "''websocket_auth_deadline_expired''" CLOSE_AUTH_REQUIRED])
           (simp_all add: recv_timeout_def c False)
    qed
    let ?sv = "fst (enqueue_own (emit (sys_server s) ev (Some c) []) cid y)"
    have ok': "manager_ok (srv_manager ?sv)" by (rule enqueue_own_ok) (simp add: ok)
    have "chat_of (srv_manager ?sv) = tell tl' cid y (chat_of ?m)"
      using chat_enqueue_own(1) [of "emit (sys_server s) ev (Some c) []" cid y] ok lim l by (simp add: limits_ok_def)
    then have "chat_of ?m' = chat_run tl' [Tell cid y, Depart cid] (chat_of ?m)"
      unfolding s' r chat_after_turn [OF ok', of s cid hn _ tl'] by (simp add: departs_def)
    moreover have "permitted ids (te_pydantic E) l s [Tell cid y, Depart cid]" using y unfolding LTimeout permitted_def by auto
    ultimately show ?thesis by blast
  next
    case (LDisconnect cid)
    with st obtain hn where s': "s' = after_turn s cid hn (sys_server s, CloseWith CLOSE_NORMAL)"
      by (auto simp: recv_disconnect_def)
    have "chat_of ?m' = chat_run tl' [Depart cid] (chat_of ?m)"
      unfolding s' chat_after_turn [OF ok, of s cid hn _ tl'] by (simp add: departs_def)
    moreover have "permitted ids (te_pydantic E) l s [Depart cid]" by (simp add: LDisconnect permitted_def)
    ultimately show ?thesis by blast
  next
    case (LWrite cid r)
    from st [unfolded LWrite] obtain msg sv w where "writer_turn (sys_server s) cid r = Some (sv, msg, w)" "sys_server s' = sv"
      by (rule step_write) blast
    with chat_write [of "sys_server s" cid r sv msg w tl'] LWrite show ?thesis
      by (intro exI [of _ "[Take cid]"]) (simp add: permitted_def)
  next
    case (LClose cid)
    with st obtain w where "?m' = srv_manager (close_end (sys_server s) cid w)"
      by (auto split: option.splits phase.splits)
    with chat_leave [OF ok, of cid w tl'] LClose show ?thesis
      by (intro exI [of _ "if w = WriterFailed then [] else [Leave cid]"]) (simp add: permitted_def)
  qed
qed

text \<open>
  C2: the server is a private, bounded mail system. Under the abstraction that keeps of a state
  the names of the connections, their queues, which of them are closing and the offline
  mailboxes, every step of a reachable state is a sequence of operations of \<open>ChatSpec\<close> that its
  label permits: a frame can only answer its own sender, post under the name the sender has and
  make it leave; only a resolved token names a connection, with the username it resolved to,
  and collects that name's mail; a post reaches the members of exactly that name, or its
  mailbox, as \<open>ChatSpec.post\<close> says; nothing else changes.
\<close>

theorem server_refines_chat:
  assumes "limits_ok l" and "db_ok db" and r: "reaches A E (initial c db l) ls s" and st: "sys_step A E x s = Some s'"
  shows "chat_of (srv_manager (sys_server (initial c db l))) = empty_chat \<and>
    (\<exists>ops. permitted (identities A E (initial c db l) ls) (te_pydantic E) x s ops \<and>
      chat_of (srv_manager (sys_server s')) = chat_run l ops (chat_of (srv_manager (sys_server s))))"
proof -
  note init = initial_ok [OF assms(1,2)]
  have "limits (srv_manager (sys_server s)) = l" using reaches_limits [OF r init] by (simp add: initial_def new_manager_def)
  moreover have "pending (sys_handlers s) \<subseteq> identities A E (initial c db l) ls"
    using reaches_ok [OF r init] by (simp add: sys_ok_def)
  ultimately show ?thesis
    using step_refines [OF st sys_okD(1,3) [OF reaches_ok [OF r init]] _ assms(1)] by (simp add: initial_def)
qed


theorem server_refines_chat_witness:
  "\<exists>s s' ops. reaches pocket_env sample_transport demo_start (tl demo_labels) s \<and>
     sys_step pocket_env sample_transport (hd demo_labels) s = Some s' \<and>
     permitted (identities pocket_env sample_transport demo_start (tl demo_labels)) sample_pydantic (hd demo_labels) s ops \<and>
     chat_of (srv_manager (sys_server s')) = chat_run transport_limits_defaults ops (chat_of (srv_manager (sys_server s))) \<and>
     mail (chat_of (srv_manager (sys_server s'))) (lit ''bob'') = Some [receipt_message]"
proof -
  have d: "demo_labels = hd demo_labels # tl demo_labels" by (simp add: demo_labels_def)
  obtain g where "reaches pocket_env sample_transport demo_start demo_labels
      (solo_at (alice_online_as [ready_message, auth_ready_message, ack_message] 4 4) (lit ''alice'') bob_box Receiving g)"
    using demo_run by blast
  then obtain s where r: "reaches pocket_env sample_transport demo_start (tl demo_labels) s"
    and st: "sys_step pocket_env sample_transport (hd demo_labels) s = Some
      (solo_at (alice_online_as [ready_message, auth_ready_message, ack_message] 4 4) (lit ''alice'') bob_box Receiving g)"
    using that by (subst (asm) d) (erule reaches_ConsE, blast)
  have "te_pydantic sample_transport = sample_pydantic" by (simp add: sample_transport_def)
  with conjunct2 [OF server_refines_chat [OF demo_start_ok r [unfolded demo_start_def] st], folded demo_start_def] obtain ops where
    "permitted (identities pocket_env sample_transport demo_start (tl demo_labels)) sample_pydantic (hd demo_labels) s ops"
    and "chat_of (solo (alice_online_as [ready_message, auth_ready_message, ack_message] 4 4) (lit ''alice'') bob_box) =
      chat_run transport_limits_defaults ops (chat_of (srv_manager (sys_server s)))"
    by (auto simp: solo_at_def)
  moreover have "mail (chat_of (solo (alice_online_as [ready_message, auth_ready_message, ack_message] 4 4)
      (lit ''alice'') bob_box)) (lit ''bob'') = Some [receipt_message]" by (simp add: bob_box_def)
  ultimately show ?thesis using r st
    by (intro exI conjI) (assumption | simp only: solo_at_def system.select_convs server.select_convs)+
qed

end
