(* ===== verification/Quiescence.thy ===== *)
theory Quiescence
  imports Delivery
begin

text \<open>
  The server left to itself. Between two inputs (an HTTP operation, an upgrade or its
  acceptance, a frame, a timeout, a disconnect) only four things can happen: a token that was
  being looked up is resolved, the answer is used, a writer sends a message, a closing handler ends. \<open>work\<close> is a measure that each of
  them decreases, so they cannot go on for ever, and where they stop nothing is left to do.
\<close>

section \<open>Internal steps and the work that is left\<close>

definition internal :: "label \<Rightarrow> bool" where
  "internal l \<longleftrightarrow> (case l of LResolve _ _ _ \<Rightarrow> True | LBind _ \<Rightarrow> True | LWrite _ _ \<Rightarrow> True | LClose _ \<Rightarrow> True | _ \<Rightarrow> False)"

definition phase_work :: "nat \<Rightarrow> phase \<Rightarrow> nat" where
  "phase_work cap p = (case p of Accepting \<Rightarrow> 0 | Receiving \<Rightarrow> 0 | Resolving _ _ \<Rightarrow> cap + 3
     | Resolved _ _ \<Rightarrow> cap + 2 | Closing _ \<Rightarrow> 1)"

definition handler_work :: "nat \<Rightarrow> system \<Rightarrow> ustr \<Rightarrow> nat" where
  "handler_work cap s x = (case dict_get (sys_handlers s) x of None \<Rightarrow> 0
     | Some h \<Rightarrow> phase_work cap (h_phase h) + length (inbox_of (srv_manager (sys_server s)) x))"

definition handler_ids :: "system \<Rightarrow> ustr set" where
  "handler_ids s = dom (dict_get (sys_handlers s))"

definition work :: "nat \<Rightarrow> system \<Rightarrow> nat" where
  "work cap s = (\<Sum>x \<in> handler_ids s. handler_work cap s x)"

lemma finite_handlers [simp]: "finite (handler_ids s)"
  by (simp add: handler_ids_def finite_dom_map_of)

lemma work_decreases:
  assumes ids: "handler_ids s' \<subseteq> handler_ids s" and x: "x \<in> handler_ids s"
    and "\<And>y. y \<noteq> x \<Longrightarrow> handler_work cap s' y = handler_work cap s y"
    and "handler_work cap s' x < handler_work cap s x"
  shows "work cap s' < work cap s"
proof -
  have "handler_work cap s' y = 0" if "y \<notin> handler_ids s'" for y
    using that by (simp add: handler_work_def handler_ids_def dom_def)
  then have "work cap s' = (\<Sum>y \<in> handler_ids s. handler_work cap s' y)"
    unfolding work_def by (intro sum.mono_neutral_left) (use ids in auto)
  also have "\<dots> < work cap s"
    unfolding work_def
  proof (rule sum_strict_mono_ex1)
    show "\<forall>y \<in> handler_ids s. handler_work cap s' y \<le> handler_work cap s y"
    proof
      show "handler_work cap s' y \<le> handler_work cap s y" for y
        using assms(3) [of y] assms(4) by (cases "y = x") simp_all
    qed
    show "\<exists>y \<in> handler_ids s. handler_work cap s' y < handler_work cap s y"
      using x assms(4) by blast
  qed simp
  finally show ?thesis .
qed

section \<open>What an internal step leaves alone\<close>

lemma enqueue_responses_others:
  "x \<noteq> cid \<Longrightarrow> inbox_of (srv_manager (fst (enqueue_responses sv cid rs))) x = inbox_of (srv_manager sv) x"
proof (induction rs arbitrary: sv)
  case (Cons r rs)
  obtain sv1 ok where e: "enqueue_own sv cid r = (sv1, ok)" by fastforce
  with enqueue_own_inbox [of sv cid r x] Cons.prems have "inbox_of (srv_manager sv1) x = inbox_of (srv_manager sv) x"
    by simp
  with Cons.IH [OF Cons.prems, of sv1] e show ?case by (cases ok) simp_all
qed simp

lemma auth_finish_others:
  assumes "x \<noteq> cid"
  shows "inbox_of (srv_manager (fst (auth_finish E sv cid e result))) x = inbox_of (srv_manager sv) x"
proof (cases result)
  case (Inl err)
  with assms show ?thesis
    by (cases err) (simp_all add: auth_finish_def finish_frame_manager enqueue_responses_others
        del: enqueue_responses.simps)
next
  case (Inr i)
  have "inbox_of (m\<lparr>offline_queue := q\<rparr>) = inbox_of m" for m q by (simp add: inbox_of_def fun_eq_iff)
  with Inr assms show ?thesis
    by (simp add: auth_finish_def Let_def finish_frame_manager enqueue_responses_others
        del: enqueue_responses.simps split: prod.split)
qed

lemma after_turn_inbox:
  assumes "manager_ok (srv_manager sv)"
  shows "inbox_of (srv_manager (sys_server (after_turn s cid h (sv, t)))) = inbox_of (srv_manager sv)"
  using close_begin_effect(5) [OF assms, of cid] by (cases t) (simp_all add: after_turn_def)

lemma after_turn_other_handler:
  "x \<noteq> cid \<Longrightarrow> dict_get (sys_handlers (after_turn s cid h r)) x = dict_get (sys_handlers s) x"
  by (cases r; cases "snd r") (auto simp: after_turn_def)

lemma after_turn_own_handler:
  assumes "t = Served \<or> (\<exists>code. t = CloseWith code) \<or> (\<exists>x. t = Raised x)"
  obtains h' where "dict_get (sys_handlers (after_turn s cid h (sv, t))) cid = Some h'" and "phase_work cap (h_phase h') \<le> 1"
  using assms by (cases t) (auto simp: after_turn_def phase_work_def)

lemma inbox_bound:
  assumes "manager_ok m" and "int cap = max_pending_outbound (limits m)" and "0 < cap"
  shows "length (inbox_of m x) \<le> cap"
proof (cases "get_connection m x")
  case (Some c)
  with connection_ok(2) [OF assms(1) Some] assms(2,3) show ?thesis
    by (auto simp: context_ok_def aq_ok_def inbox_of_def get_connection_def)
qed (simp add: inbox_of_def get_connection_def)

lemma internal_step_works:
  assumes st: "sys_step A E l s = Some s'" and l: "internal l"
    and ok: "manager_ok (srv_manager (sys_server s))" "manager_ok (srv_manager (sys_server s'))"
    and cap: "int cap = max_pending_outbound (limits (srv_manager (sys_server s')))" "0 < cap"
  shows "work cap s' < work cap s"
proof -
  let ?m = "srv_manager (sys_server s)" and ?m' = "srv_manager (sys_server s')"
  from l consider (resolve) cid t now where "l = LResolve cid t now" | (use_it) cid where "l = LBind cid" | (writes) cid r where "l = LWrite cid r"
    | (close) cid where "l = LClose cid" by (cases l) (auto simp: internal_def)
  then show ?thesis
  proof cases
    case resolve
    with st obtain hn e tok where hn: "dict_get (sys_handlers s) cid = Some hn" "h_phase hn = Resolving e tok"
      and s': "s' = s\<lparr>sys_handlers := dict_set (sys_handlers s) cid
         (hn\<lparr>h_phase := Resolved e (resolve_access_token A (a_db (sys_auth s)) t now tok)\<rparr>)\<rparr>"
      by (auto split: option.splits phase.splits)
    show ?thesis
    proof (rule work_decreases)
      show "handler_ids s' \<subseteq> handler_ids s" and "cid \<in> handler_ids s"
        using hn by (auto simp: handler_ids_def s' split: if_splits)
      show "handler_work cap s' y = handler_work cap s y" if "y \<noteq> cid" for y
        using that by (simp add: handler_work_def s' split: option.split)
      show "handler_work cap s' cid < handler_work cap s cid"
        using hn by (simp add: handler_work_def s' phase_work_def)
    qed
  next
    case use_it
    with st obtain hn e r0 where hn: "dict_get (sys_handlers s) cid = Some hn" "h_phase hn = Resolved e r0"
      and s': "s' = after_turn s cid hn (auth_finish E (sys_server s) cid e r0)"
      by (auto split: option.splits phase.splits)
    obtain sv u where r: "auth_finish E (sys_server s) cid e r0 = (sv, u)" by fastforce
    have box: "inbox_of ?m' = inbox_of (srv_manager sv)" unfolding s' r
      by (rule after_turn_inbox) (use auth_finish_effect(1) [OF ok(1), of E cid e r0] r in simp)
    from auth_finish_turns [of E "sys_server s" cid e r0] obtain h' where
      h': "dict_get (sys_handlers s') cid = Some h'" "phase_work cap (h_phase h') \<le> 1"
      unfolding s' r snd_conv by (rule after_turn_own_handler)
    show ?thesis
    proof (rule work_decreases)
      show "handler_ids s' \<subseteq> handler_ids s" and "cid \<in> handler_ids s"
        using hn after_turn_handlers(1) [OF hn(1)] by (auto simp: handler_ids_def dom_def s' split: option.splits)
      show "handler_work cap s' y = handler_work cap s y" if "y \<noteq> cid" for y
      proof -
        have "inbox_of ?m' y = inbox_of ?m y"
          using auth_finish_others [OF that, of E "sys_server s" e r0] by (simp add: box r)
        moreover have "dict_get (sys_handlers s') y = dict_get (sys_handlers s) y"
          unfolding s' by (rule after_turn_other_handler [OF that])
        ultimately show ?thesis by (simp add: handler_work_def split: option.split)
      qed
      have "length (inbox_of ?m' cid) \<le> cap" by (rule inbox_bound [OF ok(2) cap])
      with h' hn show "handler_work cap s' cid < handler_work cap s cid"
        by (simp add: handler_work_def phase_work_def)
    qed
  next
    case writes
    from st [unfolded writes] obtain hn msg sv w where hn: "dict_get (sys_handlers s) cid = Some hn"
      and w: "writer_turn (sys_server s) cid r = Some (sv, msg, w)" "sys_server s' = sv"
      and s': "sys_handlers s' = dict_set (sys_handlers s) cid (hn\<lparr>h_writer := w\<rparr>)" by (rule step_write) blast
    show ?thesis
    proof (rule work_decreases)
      show "handler_ids s' \<subseteq> handler_ids s" and "cid \<in> handler_ids s"
        using hn by (auto simp: handler_ids_def s' split: if_splits)
      show "handler_work cap s' y = handler_work cap s y" if "y \<noteq> cid" for y
      proof -
        obtain q where "srv_manager sv = with_context ?m cid (\<lambda>c. c\<lparr>outbound := q\<rparr>)"
          by (rule writer_turn_manager [OF w(1)])
        with that w(2) have "inbox_of ?m' y = inbox_of ?m y" by (simp add: with_context_inbox)
        with that show ?thesis by (simp add: handler_work_def s' split: option.split)
      qed
      show "handler_work cap s' cid < handler_work cap s cid"
        using writer_turn_inbox [OF w(1)] w(2) hn by (simp add: handler_work_def s')
    qed
  next
    case close
    with st obtain hn code w where hn: "dict_get (sys_handlers s) cid = Some hn" "h_phase hn = Closing code"
      and s': "s' = s\<lparr>sys_server := close_end (sys_server s) cid w, sys_handlers := dict_del (sys_handlers s) cid\<rparr>"
      by (auto split: option.splits phase.splits)
    show ?thesis
    proof (rule work_decreases)
      show "handler_ids s' \<subseteq> handler_ids s" and "cid \<in> handler_ids s"
        using hn by (auto simp: handler_ids_def s' split: if_splits)
      show "handler_work cap s' y = handler_work cap s y" if "y \<noteq> cid" for y
        using that close_end_effect(3) [OF ok(1), of cid w y]
        by (simp add: handler_work_def s' inbox_of_def get_connection_def split: option.split)
      show "handler_work cap s' cid < handler_work cap s cid"
        using hn by (simp add: handler_work_def s' phase_work_def)
    qed
  qed
qed

lemma reaches_works:
  assumes later: "reaches A E s ls' s'" and r: "reaches A E s0 ls s" and init: "sys_ok A E s0 [] s0"
    and cap: "int cap = max_pending_outbound (limits (srv_manager (sys_server s0)))" "0 < cap"
    and "\<forall>l \<in> set ls'. internal l"
  shows "length ls' + work cap s' \<le> work cap s"
  using later assms(6)
proof (induction rule: reaches.induct)
  case (step ls1 s1 l s2)
  note r1 = reaches_trans [OF step.hyps(1) r]
  note r2 = reaches.step [OF r1 step.hyps(2)]
  have "work cap s2 < work cap s1"
    using internal_step_works [OF step.hyps(2) _ sys_okD(1) [OF reaches_ok [OF r1 init]]
        sys_okD(1) [OF reaches_ok [OF r2 init]]] reaches_limits [OF r2 init] cap step.prems by simp
  with step show ?case by simp
qed simp

section \<open>At rest\<close>

definition at_rest :: "system \<Rightarrow> bool" where
  "at_rest s \<longleftrightarrow> (\<forall>x h. dict_get (sys_handlers s) x = Some h \<longrightarrow>
     h_phase h \<in> {Accepting, Receiving} \<and> (h_writer h = WriterRunning \<longrightarrow> inbox_of (srv_manager (sys_server s)) x = []))"

lemma write_blocked:
  assumes "dict_get (sys_handlers s) cid = Some h" and "inbox_of (srv_manager (sys_server s)) cid = []"
  shows "sys_step A E (LWrite cid r) s = None"
proof -
  have "writer_turn (sys_server s) cid r = None"
    using assms(2) by (auto simp: writer_turn_def inbox_of_def get_connection_def aq_get_def split: option.split)
  with assms(1) show ?thesis by simp
qed

lemma at_rest_iff: "at_rest s \<longleftrightarrow> (\<forall>l. internal l \<longrightarrow> sys_step A E l s = None)"
proof
  assume rest: "at_rest s"
  show "\<forall>l. internal l \<longrightarrow> sys_step A E l s = None"
  proof (intro allI impI)
    fix l assume "internal l"
    then consider (resolve) cid t now where "l = LResolve cid t now" | (use_it) cid where "l = LBind cid" | (writes) cid r where "l = LWrite cid r"
      | (close) cid where "l = LClose cid" by (cases l) (auto simp: internal_def)
    then show "sys_step A E l s = None"
    proof cases
      case writes
      show ?thesis
      proof (cases "dict_get (sys_handlers s) cid")
        case (Some h)
        with rest write_blocked [OF Some] writes show ?thesis
          by (cases "h_writer h = WriterRunning") (auto simp: at_rest_def)
      qed (simp add: writes)
    qed (use rest in \<open>fastforce simp: at_rest_def split: option.split phase.split\<close>)+
  qed
next
  assume none: "\<forall>l. internal l \<longrightarrow> sys_step A E l s = None"
  show "at_rest s" unfolding at_rest_def
  proof (intro allI impI conjI)
    fix x h assume h: "dict_get (sys_handlers s) x = Some h"
    have "sys_step A E (LClose x) s = None" "sys_step A E (LResolve x (utc 0) (utc 0)) s = None"
      "sys_step A E (LBind x) s = None"
      by (rule none [rule_format]; simp add: internal_def)+
    with h show "h_phase h \<in> {Accepting, Receiving}" by (simp split: phase.splits)
    assume "h_writer h = WriterRunning"
    with h have w: "writing s x" by (simp add: writing_def)
    show "inbox_of (srv_manager (sys_server s)) x = []"
    proof (rule ccontr)
      assume "inbox_of (srv_manager (sys_server s)) x \<noteq> []"
      then obtain msg rest where "inbox_of (srv_manager (sys_server s)) x = msg # rest" by (auto simp: neq_Nil_conv)
      from write_enabled [OF w this, of A E] obtain s1 where "sys_step A E (LWrite x Sent) s = Some s1" by blast
      moreover have "sys_step A E (LWrite x Sent) s = None" by (rule none [rule_format]) (simp add: internal_def)
      ultimately show False by simp
    qed
  qed
qed

text \<open>
  C30: the server does not keep itself busy. In any run without inputs from a reachable state
  (tokens are resolved, answers used, writers send, closing handlers end, in any order and
  with any results) the number of steps is at most the work left at its start, hence at most
  \<open>2 * cap + 3\<close> for each handler, where \<open>cap\<close> is the bound of the outbound queues; and a state
  in which no such step is possible is one in which every handler waits for a frame or for its
  upgrade to be accepted, and every running writer has sent everything.
\<close>

theorem internal_activity_ends:
  assumes "limits_ok l" and "db_ok db" and r: "reaches A E (initial c db l) ls s"
    and later: "reaches A E s ls' s'" and int: "\<forall>x \<in> set ls'. internal x"
  shows "length ls' + work (nat (max_pending_outbound l)) s' \<le> work (nat (max_pending_outbound l)) s \<and>
    work (nat (max_pending_outbound l)) s \<le> length (sys_handlers s) * (2 * nat (max_pending_outbound l) + 3) \<and>
    (at_rest s' \<longleftrightarrow> (\<forall>x. internal x \<longrightarrow> sys_step A E x s' = None))"
proof -
  let ?cap = "nat (max_pending_outbound l)"
  note init = initial_ok [OF assms(1,2)]
  have cap: "int ?cap = max_pending_outbound l" "0 < ?cap" using assms(1) by (auto simp: limits_ok_def)
  have lim: "limits (srv_manager (sys_server s)) = l" using reaches_limits [OF r init] by (simp add: initial_def new_manager_def)
  have "handler_work ?cap s x \<le> 2 * ?cap + 3" for x
    using inbox_bound [OF sys_okD(1) [OF reaches_ok [OF r init]], of ?cap x] cap lim
    by (auto simp: handler_work_def phase_work_def split: option.split phase.split)
  then have "work ?cap s \<le> of_nat (card (handler_ids s)) * (2 * ?cap + 3)"
    unfolding work_def by (intro sum_bounded_above) blast
  then have "work ?cap s \<le> card (handler_ids s) * (2 * ?cap + 3)" by (simp only: of_nat_id)
  also have "\<dots> \<le> length (sys_handlers s) * (2 * ?cap + 3)"
    unfolding handler_ids_def dom_map_of_conv_image_fst
    by (intro mult_right_mono) (use card_image_le [of "set (sys_handlers s)" fst] card_length [of "sys_handlers s"] in auto)
  finally have "work ?cap s \<le> length (sys_handlers s) * (2 * ?cap + 3)" .
  moreover have "length ls' + work ?cap s' \<le> work ?cap s"
    by (rule reaches_works [OF later r init _ cap(2) int]) (simp add: cap(1) initial_def new_manager_def del: int_nat_eq)
  ultimately show ?thesis using at_rest_iff [of s' A E] by blast
qed

theorem internal_activity_ends_witness:
  "\<exists>s s'. reaches pocket_env sample_transport demo_start demo_labels s \<and>
     reaches pocket_env sample_transport s (replicate 3 (LWrite (lit ''c1'') Sent)) s' \<and>
     3 + work 100 s' \<le> work 100 s \<and> work 100 s \<le> 203 \<and>
     at_rest s' = (\<forall>x. internal x \<longrightarrow> sys_step pocket_env sample_transport x s' = None)"
proof -
  obtain g where r: "reaches pocket_env sample_transport demo_start demo_labels (demo_end g)"
    and w: "writing (demo_end g) (lit ''c1'')"
    and b: "inbox_of (srv_manager (sys_server (demo_end g))) (lit ''c1'') =
      [ready_message, auth_ready_message, ack_message]" by (rule demo_writing)
  have "3 \<le> length (inbox_of (srv_manager (sys_server (demo_end g))) (lit ''c1''))" by (simp add: b)
  from flush_prefix [OF w this, of pocket_env sample_transport] obtain s' where
    later: "reaches pocket_env sample_transport (demo_end g) (replicate 3 (LWrite (lit ''c1'') Sent)) s'" by blast
  have "\<forall>x \<in> set (replicate 3 (LWrite (lit ''c1'') Sent)). internal x" by (simp add: internal_def)
  from internal_activity_ends [OF demo_start_ok r [unfolded demo_start_def] later this]
  have "3 + work 100 s' \<le> work 100 (demo_end g)" "work 100 (demo_end g) \<le> length (sys_handlers (demo_end g)) * 203"
    "at_rest s' = (\<forall>x. internal x \<longrightarrow> sys_step pocket_env sample_transport x s' = None)"
    by (simp_all add: transport_limits_defaults_def)
  moreover have "length (sys_handlers (demo_end g)) = 1" by (simp add: solo_at_def)
  ultimately show ?thesis using r later by auto
qed

end
