(* ===== verification/Deadlines.thy ===== *)
theory Deadlines
  imports Quiescence
begin

text \<open>
  The receive loop in time. \<open>wait_for\<close> gives every wait for a frame its own deadline: the state
  gets a clock and, for every handler, the time at which its present wait began. The timers are
  taken to fire on time: no step happens later than a deadline that has not been served, and a
  timeout happens exactly at the deadline of its wait.
\<close>

section \<open>Timed runs\<close>

record timed =
  clock :: rat
  untimed :: system
  since :: "ustr \<Rightarrow> rat"

text \<open>The label after which the loop of a handler waits anew, and its reading of the clock.\<close>

fun wait_restarts :: "label \<Rightarrow> ustr option" where
  "wait_restarts (LAccepted x) = Some x"
| "wait_restarts (LFrame x _ _ _) = Some x"
| "wait_restarts (LBind x) = Some x"
| "wait_restarts _ = None"

fun stamped :: "rat \<Rightarrow> label \<Rightarrow> bool" where
  "stamped t (LConnect _ _ now _ _ _) = (now = t)"
| "stamped t (LFrame _ _ now _) = (now = t)"
| "stamped t _ = True"

definition deadline_of :: "system \<Rightarrow> (ustr \<Rightarrow> rat) \<Rightarrow> ustr \<Rightarrow> rat option" where
  "deadline_of s f x = (case receiving s x of None \<Rightarrow> None
     | Some _ \<Rightarrow> (case get_connection (srv_manager (sys_server s)) x of None \<Rightarrow> None
         | Some c \<Rightarrow> (case recv_deadline (sys_server s) c of Fin d \<Rightarrow> Some (f x + d) | _ \<Rightarrow> None)))"

definition passes :: "timed \<Rightarrow> rat \<Rightarrow> bool" where
  "passes T t \<longleftrightarrow> clock T \<le> t \<and> list_all (\<lambda>(x, _). case deadline_of (untimed T) (since T) x of
     None \<Rightarrow> True | Some e \<Rightarrow> t \<le> e) (sys_handlers (untimed T))"

definition expires :: "timed \<Rightarrow> rat \<Rightarrow> label \<Rightarrow> bool" where
  "expires T t l \<longleftrightarrow> (case l of LTimeout x \<Rightarrow> deadline_of (untimed T) (since T) x = Some t | _ \<Rightarrow> True)"

definition timed_step :: "auth_env \<Rightarrow> transport_env \<Rightarrow> rat \<times> label \<Rightarrow> timed \<Rightarrow> timed option" where
  "timed_step A E e T = (case e of (t, l) \<Rightarrow>
     if passes T t \<and> stamped t l \<and> expires T t l
     then map_option (\<lambda>s. \<lparr>clock = t, untimed = s,
        since = (case wait_restarts l of None \<Rightarrow> since T | Some x \<Rightarrow> (since T)(x := t))\<rparr>) (sys_step A E l (untimed T))
     else None)"

definition timed_initial :: "auth_config \<Rightarrow> database \<Rightarrow> transport_limits \<Rightarrow> timed" where
  "timed_initial c db l = \<lparr>clock = 0, untimed = initial c db l, since = (\<lambda>_. 0)\<rparr>"

inductive timed_reaches :: "auth_env \<Rightarrow> transport_env \<Rightarrow> timed \<Rightarrow> (rat \<times> label) list \<Rightarrow> timed \<Rightarrow> bool"
  for A E T0 where
  begins: "timed_reaches A E T0 [] T0"
| goes_on: "timed_reaches A E T0 es T \<Longrightarrow> timed_step A E e T = Some T' \<Longrightarrow> timed_reaches A E T0 (e # es) T'"

lemma timed_stepE:
  assumes "timed_step A E (t, l) T = Some T'"
  obtains s where "passes T t" and "stamped t l" and "expires T t l" and "sys_step A E l (untimed T) = Some s"
    and "T' = \<lparr>clock = t, untimed = s,
        since = (case wait_restarts l of None \<Rightarrow> since T | Some x \<Rightarrow> (since T)(x := t))\<rparr>"
  using assms by (auto simp: timed_step_def split: if_splits)

lemma timed_reaches_reaches:
  "timed_reaches A E T0 es T \<Longrightarrow> reaches A E (untimed T0) (map snd es) (untimed T)"
proof (induction rule: timed_reaches.induct)
  case (goes_on es T e T')
  obtain t l where e: "e = (t, l)" by fastforce
  with goes_on.hyps(2) obtain s where "sys_step A E l (untimed T) = Some s" "untimed T' = s"
    using timed_stepE [of A E t l T T'] by (metis timed.select_convs(2))
  with goes_on.IH e show ?case by (auto intro: reaches.step)
qed (simp add: reaches.start)

section \<open>Waiting on\<close>

text \<open>A handler that waits after a step of another kind was waiting before, with the same deadline.\<close>

lemma not_receiving:
  assumes "dict_get (sys_handlers s) cid = Some h" and "t = CloseWith code"
  shows "receiving (after_turn s cid h (sv, t)) cid = None"
  using assms by (simp add: after_turn_def receiving_def)

lemma receiving_other:
  "x \<noteq> cid \<Longrightarrow> receiving (after_turn s cid h r) x = receiving s x"
  by (simp add: receiving_def after_turn_other_handler)

lemma turn_waiting:
  assumes "x \<noteq> cid" and "manager_ok (srv_manager sv)" and "quiet (bound (srv_manager (sys_server s)) cid r) (srv_manager sv)"
    and s': "s' = after_turn s cid h (sv, t)" and "receiving s' x = Some h'"
    and "get_connection (srv_manager (sys_server s')) x = Some c'"
  shows "\<exists>c. receiving s x = Some h' \<and> get_connection (srv_manager (sys_server s)) x = Some c \<and> authenticated c' = authenticated c"
proof -
  have "get_connection (srv_manager sv) x = Some c'" using after_turn_get(2) [OF assms(2,1)] assms(6) s' by simp
  with assms(3) obtain c where "get_connection (bound (srv_manager (sys_server s)) cid r) x = Some c" "same_standing c c'"
    by (cases rule: quiet_get [of _ _ x]) auto
  with bound_other [OF assms(1)] receiving_other [OF assms(1)] assms(5) s' show ?thesis
    by (auto simp: same_standing_def)
qed

lemma step_waiting:
  assumes st: "sys_step A E l s = Some s'" and ok: "manager_ok (srv_manager (sys_server s))" and h: "handlers_ok s"
    and x: "wait_restarts l \<noteq> Some x" and rc: "receiving s' x = Some h'"
    and c': "get_connection (srv_manager (sys_server s')) x = Some c'"
  shows "\<exists>h c. receiving s x = Some h \<and> get_connection (srv_manager (sys_server s)) x = Some c \<and>
    authenticated c' = authenticated c"
proof -
  let ?m = "srv_manager (sys_server s)"
  have b: "bound ?m cid (Inl TypeError) = ?m" for cid by (simp add: bound_def)
  show ?thesis
  proof (cases l)
    case (LAuth op)
    with st rc c' show ?thesis by (auto simp: receiving_def)
  next
    case (LConnect origin host now wnow anon cid)
    with st obtain sv r where c: "ws_connect (sys_server s) origin host now wnow anon cid = (sv, r)"
      and fresh: "get_connection ?m cid = None"
      by (auto split: if_splits prod.splits sum.splits)
    show ?thesis
    proof (cases r)
      case (Inl code)
      with st LConnect c ws_connect_Inl [of "sys_server s" origin host now wnow anon cid sv code] rc c'
      show ?thesis by (auto simp: receiving_def split: if_splits)
    next
      case (Inr cid')
      have "x \<noteq> cid" using st LConnect c Inr rc by (auto simp: receiving_def split: if_splits)
      with st LConnect c Inr ws_connect_Inr(6) [OF ok fresh c [unfolded Inr] \<open>x \<noteq> cid\<close>] rc c'
      show ?thesis by (auto simp: receiving_def split: if_splits)
    qed
  next
    case (LAccepted cid)
    with x have "x \<noteq> cid" by simp
    with st LAccepted ws_accepted_others [OF this] rc c' show ?thesis
      by (auto simp: receiving_def split: if_splits)
  next
    case (LAcceptFailed cid)
    with st rc c' show ?thesis by (auto simp: receiving_def split: if_splits option.splits)
  next
    case (LFrame cid raw now wnow)
    with st obtain hn where hn: "receiving s cid = Some hn"
      and s': "s' = after_turn s cid hn (recv_frame E (sys_server s) cid raw now wnow)" by auto
    from receivingD [OF hn] obtain c where "get_connection ?m cid = Some c" using handlers_okD [OF h] by metis
    note t = recv_frame_turn [OF ok this, where E = E and raw = raw and now = now and wall_now = wnow]
    from LFrame x have "x \<noteq> cid" by simp
    from turn_waiting [OF this turn_okD(1) [OF t], of s "Inl TypeError" s' hn "snd (recv_frame E (sys_server s) cid raw now wnow)"]
      turn_okD(2) [OF t] rc c' s' b show ?thesis by auto
  next
    case (LResolve cid t now)
    with st rc c' show ?thesis by (auto simp: receiving_def split: option.splits phase.splits if_splits)
  next
    case (LBind cid)
    with st obtain hn e res where "dict_get (sys_handlers s) cid = Some hn"
      and s': "s' = after_turn s cid hn (auth_finish E (sys_server s) cid e res)"
      by (auto split: option.splits phase.splits)
    note ef = auth_finish_effect(1,2) [OF ok, where E = E and cid = cid and e = e and result = res]
    from LBind x have "x \<noteq> cid" by simp
    from turn_waiting [OF this ef, of s' hn "snd (auth_finish E (sys_server s) cid e res)"] rc c' s' show ?thesis by auto
  next
    case (LTimeout cid)
    with st obtain hn where hn: "receiving s cid = Some hn"
      and s': "s' = after_turn s cid hn (recv_timeout E (sys_server s) cid)" by auto
    from receivingD [OF hn] obtain c where c: "get_connection ?m cid = Some c" using handlers_okD [OF h] by metis
    obtain sv code where r: "recv_timeout E (sys_server s) cid = (sv, CloseWith code)"
      using c by (cases "authenticated c") (auto simp: recv_timeout_def)
    have "x \<noteq> cid" using not_receiving receivingD [OF hn] rc r s' by auto
    from recv_timeout_turn [OF ok, where E = E and cid = cid] r
    have t: "turn_ok ?m (srv_manager sv) {}" by simp
    from turn_waiting [OF \<open>x \<noteq> cid\<close> turn_okD(1) [OF t], of s "Inl TypeError" s' hn "CloseWith code"]
      turn_okD(2) [OF t] rc c' s' b r show ?thesis by auto
  next
    case (LDisconnect cid)
    with st obtain hn where hn: "receiving s cid = Some hn"
      and s': "s' = after_turn s cid hn (sys_server s, CloseWith CLOSE_NORMAL)"
      by (auto simp: recv_disconnect_def)
    have "x \<noteq> cid" using not_receiving receivingD [OF hn] rc s' by auto
    from turn_waiting [OF this ok _ s' rc c', of "Inl TypeError"] b show ?thesis by auto
  next
    case (LWrite cid r)
    from st [unfolded LWrite] obtain hn msg sv w where hn: "dict_get (sys_handlers s) cid = Some hn"
      and w: "writer_turn (sys_server s) cid r = Some (sv, msg, w)" "sys_server s' = sv"
      and s': "sys_handlers s' = dict_set (sys_handlers s) cid (hn\<lparr>h_writer := w\<rparr>)" by (rule step_write) blast
    have "receiving s x \<noteq> None" using rc hn s' by (auto simp: receiving_def split: option.splits if_splits)
    moreover obtain c where "get_connection ?m x = Some c" "same_standing c c'"
      using turn_okD(2) [OF writer_turn_effect(1) [OF ok w(1)]] c' w(2)
      by (cases rule: quiet_get [of ?m "srv_manager sv" x]) auto
    ultimately show ?thesis by (auto simp: same_standing_def)
  next
    case (LClose cid)
    with st obtain hn where "dict_get (sys_handlers s) cid = Some hn"
      and s': "s' = s\<lparr>sys_server := close_end (sys_server s) cid (h_writer hn),
        sys_handlers := dict_del (sys_handlers s) cid\<rparr>"
      by (auto split: option.splits phase.splits)
    with rc have "x \<noteq> cid" "receiving s x = Some h'" by (auto simp: receiving_def split: option.splits if_splits)
    with close_end_effect(3) [OF ok, of cid "h_writer hn" x] c' s' show ?thesis by auto
  qed
qed

lemma step_deadline:
  assumes st: "sys_step A E l s = Some s'" and ok: "manager_ok (srv_manager (sys_server s))" and h: "handlers_ok s"
    and x: "wait_restarts l \<noteq> Some x" and d: "deadline_of s' f x = Some e"
  shows "deadline_of s f x = Some e"
proof -
  from d obtain h' c' where *: "receiving s' x = Some h'" "get_connection (srv_manager (sys_server s')) x = Some c'"
    by (auto simp: deadline_of_def split: option.splits)
  from step_waiting [OF st ok h x this] obtain hn c where "receiving s x = Some hn"
    "get_connection (srv_manager (sys_server s)) x = Some c" "authenticated c' = authenticated c" by blast
  with * d step_limits [OF st ok h] show ?thesis
    by (cases "authenticated c") (simp_all add: deadline_of_def recv_deadline_def)
qed


section \<open>The invariant of timed runs\<close>

definition wait_events :: "(rat \<times> label) list \<Rightarrow> ustr \<Rightarrow> rat set" where
  "wait_events es x = {t. \<exists>l. (t, l) \<in> set es \<and> wait_restarts l = Some x}"

lemma wait_events_Cons [simp]:
  "wait_events ((t, l) # es) x = (if wait_restarts l = Some x then insert t (wait_events es x) else wait_events es x)"
  by (auto simp: wait_events_def)

definition timely :: "(rat \<times> label) list \<Rightarrow> timed \<Rightarrow> bool" where
  "timely es T \<longleftrightarrow> (\<forall>x. (\<forall>t \<in> wait_events es x. t \<le> since T x \<and> t \<le> clock T) \<and>
     (receiving (untimed T) x \<noteq> None \<longrightarrow> since T x \<in> wait_events es x) \<and>
     (\<forall>e. deadline_of (untimed T) (since T) x = Some e \<longrightarrow> clock T \<le> e))"

lemma deadline_positive:
  assumes "limits_ok (limits (srv_manager (sys_server s)))" and "deadline_of s f x = Some e"
  shows "f x < e"
  using assms by (auto simp: deadline_of_def recv_deadline_def limits_ok_def split: option.splits pyfloat.splits if_splits)

lemma deadline_passes:
  assumes "passes T t" and "deadline_of (untimed T) (since T) x = Some e"
  shows "t \<le> e"
proof -
  from assms(2) obtain h where "dict_get (sys_handlers (untimed T)) x = Some h"
    by (auto simp: deadline_of_def receiving_def split: option.splits)
  then have "(x, h) \<in> set (sys_handlers (untimed T))" by (rule map_of_SomeD)
  with assms show ?thesis by (auto simp: passes_def list_all_iff)
qed

lemma deadline_since: "f x = g x \<Longrightarrow> deadline_of s f x = deadline_of s g x"
  by (auto simp: deadline_of_def split: option.split pyfloat.split)

lemma timely_step:
  assumes inv: "timely es T" and st: "timed_step A E (t, l) T = Some T'"
    and ok: "manager_ok (srv_manager (sys_server (untimed T)))" and h: "handlers_ok (untimed T)"
    and lim: "limits_ok (limits (srv_manager (sys_server (untimed T))))"
  shows "timely ((t, l) # es) T'"
proof -
  from st obtain s where p: "passes T t" and step: "sys_step A E l (untimed T) = Some s"
    and T': "T' = \<lparr>clock = t, untimed = s,
        since = (case wait_restarts l of None \<Rightarrow> since T | Some x \<Rightarrow> (since T)(x := t))\<rparr>" by (rule timed_stepE)
  have later: "clock T \<le> t" using p by (simp add: passes_def)
  have lim': "limits_ok (limits (srv_manager (sys_server s)))" using step_limits [OF step ok h] lim by simp
  show ?thesis unfolding timely_def
  proof (intro allI)
    fix x
    show "(\<forall>u \<in> wait_events ((t, l) # es) x. u \<le> since T' x \<and> u \<le> clock T') \<and>
        (receiving (untimed T') x \<noteq> None \<longrightarrow> since T' x \<in> wait_events ((t, l) # es) x) \<and>
        (\<forall>e. deadline_of (untimed T') (since T') x = Some e \<longrightarrow> clock T' \<le> e)"
    proof (cases "wait_restarts l = Some x")
      case True
      then have "since T' x = t" by (simp add: T')
      moreover have "\<forall>u \<in> wait_events es x. u \<le> t"
        using inv later order.trans unfolding timely_def by blast
      moreover have "t \<le> e" if "deadline_of s (since T') x = Some e" for e
        using deadline_positive [OF lim' that] \<open>since T' x = t\<close> by simp
      moreover have "clock T' = t" "untimed T' = s" by (simp_all add: T')
      ultimately show ?thesis using True by simp
    next
      case False
      then have s: "since T' x = since T x" by (auto simp: T' split: option.split)
      have "receiving (untimed T) x \<noteq> None" if r: "receiving s x \<noteq> None"
      proof -
        from r obtain h' where h': "receiving s x = Some h'" by blast
        from handlers_okD [OF step_handlers [OF step ok h]] receivingD [OF this]
        obtain c' where "get_connection (srv_manager (sys_server s)) x = Some c'" by metis
        from step_waiting [OF step ok h False h' this] show ?thesis by blast
      qed
      moreover have "t \<le> e" if "deadline_of s (since T') x = Some e" for e
        using deadline_passes [OF p step_deadline [OF step ok h False]] that deadline_since [of "since T'" x "since T" s] s by simp
      moreover have "clock T' = t" "untimed T' = s" by (simp_all add: T')
      ultimately show ?thesis using False inv later s unfolding timely_def by force
    qed
  qed
qed

lemma timed_reaches_timely:
  assumes "limits_ok l" and "db_ok db" and "timed_reaches A E (timed_initial c db l) es T"
  shows "timely es T" and "sys_ok A E (initial c db l) (map snd es) (untimed T)"
    and "limits (srv_manager (sys_server (untimed T))) = l"
proof -
  note init = initial_ok [OF assms(1,2)]
  have ok: "sys_ok A E (initial c db l) (map snd es) (untimed T)" "limits (srv_manager (sys_server (untimed T))) = l"
    if "timed_reaches A E (timed_initial c db l) es T" for es T
    using reaches_ok [OF _ init] reaches_limits [OF _ init] timed_reaches_reaches [OF that]
    by (auto simp: timed_initial_def initial_def new_manager_def)
  from ok [OF assms(3)] show "sys_ok A E (initial c db l) (map snd es) (untimed T)"
    "limits (srv_manager (sys_server (untimed T))) = l" by blast+
  show "timely es T" using assms(3)
  proof (induction rule: timed_reaches.induct)
    case begins
    show ?case by (auto simp: timely_def wait_events_def timed_initial_def initial_def receiving_def deadline_of_def)
  next
    case (goes_on es T e T')
    obtain t x where e: "e = (t, x)" by fastforce
    from timely_step [OF goes_on.IH goes_on.hyps(2) [unfolded e]] sys_okD(1,3) [OF ok(1) [OF goes_on.hyps(1)]]
      ok(2) [OF goes_on.hyps(1)] assms(1) show ?case by (simp add: e)
  qed
qed

section \<open>A wait that is always begun anew\<close>

lemma passes_now: "timely es T \<Longrightarrow> passes T (clock T)"
  by (auto simp: passes_def list_all_iff timely_def split: option.split)

text \<open>
  A client that is accepted, sends empty frames with the pauses \<open>ds\<close> between them (the last one
  first) and reads what it gets; the latest event first.
\<close>

fun evade :: "rat list \<Rightarrow> ustr option \<Rightarrow> ustr option \<Rightarrow> ustr \<Rightarrow> ustr \<Rightarrow> (rat \<times> label) list" where
  "evade [] origin host anon x = [(0, LWrite x Sent), (0, LAccepted x), (0, LConnect origin host 0 (utc 0) anon x)]"
| "evade (d # ds) origin host anon x = (sum_list (d # ds), LWrite x Sent) #
     (sum_list (d # ds), LFrame x [] (sum_list (d # ds)) (utc 0)) # evade ds origin host anon x"

definition holding :: "system \<Rightarrow> ustr \<Rightarrow> json list \<Rightarrow> bool" where
  "holding s x js \<longleftrightarrow> sys_handlers s = [(x, \<lparr>h_phase = Receiving, h_writer = WriterRunning\<rparr>)] \<and>
     (\<exists>c. get_connection (srv_manager (sys_server s)) x = Some c \<and> \<not> authenticated c \<and> \<not> closing c \<and>
       aq_items (outbound c) = js)"

lemma holding_write:
  assumes "manager_ok (srv_manager (sys_server s))" and "holding s x [j]"
  shows "\<exists>s'. sys_step A E (LWrite x Sent) s = Some s' \<and> holding s' x []"
proof -
  have w: "writing s x" using assms(2) by (simp add: holding_def writing_def)
  have "inbox_of (srv_manager (sys_server s)) x = [j]"
    using assms(2) by (auto simp: holding_def inbox_of_def get_connection_def)
  from write_enabled [OF w this, of A E] obtain s' where st: "sys_step A E (LWrite x Sent) s = Some s'"
    and w': "writing s' x" and box: "inbox_of (srv_manager (sys_server s')) = (inbox_of (srv_manager (sys_server s)))(x := [])"
    by metis
  from st obtain hn msg sv w where hn: "dict_get (sys_handlers s) x = Some hn"
    and wt: "writer_turn (sys_server s) x Sent = Some (sv, msg, w)" "sys_server s' = sv"
    and s': "sys_handlers s' = dict_set (sys_handlers s) x (hn\<lparr>h_writer := w\<rparr>)" by (rule step_write) blast
  have "w = WriterRunning" using w' hn s' by (auto simp: writing_def)
  moreover obtain c where "get_connection (srv_manager (sys_server s)) x = Some c" "\<not> authenticated c" "\<not> closing c"
    using assms(2) by (auto simp: holding_def)
  with turn_okD(2) [OF writer_turn_effect(1) [OF assms(1) wt(1)]] wt(2) obtain c' where
    c': "get_connection (srv_manager (sys_server s')) x = Some c'" "\<not> authenticated c'" "\<not> closing c'"
    by (cases rule: quiet_get [of _ _ x]) (auto simp: same_standing_def)
  moreover have "aq_items (outbound c') = []"
    using fun_cong [OF box, of x] c'(1) by (simp add: inbox_of_def get_connection_def)
  ultimately have "holding s' x []" using assms(2) hn s' by (auto simp: holding_def)
  with st show ?thesis by blast
qed

lemma empty_text: "json_loads n [] = Inl JSONDecodeError" "utf8_encode [] = Some []"
  by (simp_all add: json_eval)

lemma holding_frame:
  assumes ok: "manager_ok (srv_manager (sys_server s))" and l: "limits_ok (limits (srv_manager (sys_server s)))"
    and h: "holding s x []"
  shows "\<exists>s' j. sys_step A E (LFrame x [] now wnow) s = Some s' \<and> holding s' x [j]"
proof -
  let ?m = "srv_manager (sys_server s)"
  obtain c where c: "get_connection ?m x = Some c" "\<not> authenticated c" "\<not> closing c" "aq_items (outbound c) = []"
    using h by (auto simp: holding_def)
  obtain r b where a: "allow (limiter c) now = (r, b)" by fastforce
  have room: "0 < aq_maxsize (outbound c)" using connection_ok(2) [OF ok c(1)] l by (simp add: context_ok_def limits_ok_def)
  let ?c2 = "(touch c now)\<lparr>limiter := r\<rparr>"
  have put: "enqueue_outbound ?c2 j = (?c2\<lparr>outbound := (outbound c)\<lparr>aq_items := [j], aq_unfinished := aq_unfinished (outbound c) + 1\<rparr>\<rparr>, True)" for j
    using c(3,4) room by (simp add: enqueue_outbound_def aq_put_nowait_def aq_full_def touch_def)
  have small: "\<not> max_message_bytes (limits ?m) < 0" using l by (simp add: limits_ok_def)
  let ?r = "recv_frame E (sys_server s) x [] now wnow"
  obtain j where r: "snd ?r = Served" and g: "get_connection (srv_manager (fst ?r)) x = Some (fst (enqueue_outbound ?c2 j))"
  proof (cases b)
    case True
    show ?thesis
      by (rule that [of "error_message (te_pydantic E) WS_INVALID_JSON None"])
         (use c(1) a True small put in \<open>simp_all add: recv_frame_def empty_text Let_def validate_inbound_def
            finish_frame_def enqueue_own_def get_connection_def with_context_get validation_failed_def emit_def touch_def\<close>)
  next
    case False
    show ?thesis
      by (rule that [of "error_message (te_pydantic E) WS_RATE_LIMITED None"])
         (use c(1) a False small put in \<open>simp_all add: recv_frame_def empty_text Let_def
            enqueue_own_def get_connection_def with_context_get emit_def touch_def\<close>)
  qed
  obtain sv where rv: "?r = (sv, Served)" using r by (metis prod.collapse)
  have "receiving s x = Some \<lparr>h_phase = Receiving, h_writer = WriterRunning\<rparr>"
    using h by (simp add: holding_def receiving_def)
  then have "sys_step A E (LFrame x [] now wnow) s = Some (after_turn s x \<lparr>h_phase = Receiving, h_writer = WriterRunning\<rparr> (sv, Served))"
    by (simp add: rv)
  moreover have "holding (after_turn s x \<lparr>h_phase = Receiving, h_writer = WriterRunning\<rparr> (sv, Served)) x [j]"
    using h g c(2,3) put rv by (simp add: holding_def after_turn_def touch_def)
  ultimately show ?thesis by blast
qed

lemma holding_connect:
  assumes l: "limits_ok l" and o: "is_origin_allowed l origin"
  shows "\<exists>s s' j. sys_step A E (LConnect origin host 0 (utc 0) anon x) (initial c db l) = Some s \<and>
    sys_step A E (LAccepted x) s = Some s' \<and> holding s' x [j]"
proof -
  let ?c = "new_context l x (lit ''anon-'' @ anon) (utc 0) host 0"
  obtain m' where reg: "register (new_manager l) (lit ''anon-'' @ anon) host 0 (utc 0) x = (m', Inr ?c)"
    and g: "get_connection m' x = Some ?c" and lim: "limits m' = l"
    using l by (auto simp: register_def new_manager_def Let_def limits_ok_def get_connection_def new_context_def)
  have put: "enqueue_outbound ?c j = (?c\<lparr>outbound := (outbound ?c)\<lparr>aq_items := [j], aq_unfinished := 1\<rparr>\<rparr>, True)" for j
    using l by (simp add: enqueue_outbound_def aq_put_nowait_def aq_full_def new_context_def limits_ok_def aq_new_def)
  have "ws_connect (sys_server (initial c db l)) origin host 0 (utc 0) anon x = (\<lparr>srv_manager = m', srv_log = []\<rparr>, Inr x)"
    using reg lim o by (simp add: ws_connect_def initial_def new_manager_def)
  then have st: "sys_step A E (LConnect origin host 0 (utc 0) anon x) (initial c db l) = Some ((initial c db l)
      \<lparr>sys_server := \<lparr>srv_manager = m', srv_log = []\<rparr>, sys_handlers := [(x, \<lparr>h_phase = Accepting, h_writer = NoWriter\<rparr>)]\<rparr>)"
    (is "_ = Some ?s") by (simp add: initial_def new_manager_def get_connection_def)
  let ?j = "connection_ready (te_pydantic E) l x"
  have g': "get_connection (srv_manager (ws_accepted E (sys_server ?s) x)) x = Some (fst (enqueue_outbound ?c ?j))"
    using g lim put [of ?j] by (simp add: ws_accepted_def enqueue_own_def get_connection_def with_context_get)
  have st': "sys_step A E (LAccepted x) ?s = Some (?s\<lparr>sys_server := ws_accepted E (sys_server ?s) x,
      sys_handlers := [(x, \<lparr>h_phase = Receiving, h_writer = WriterRunning\<rparr>)]\<rparr>)" (is "_ = Some ?s'")
    by (simp add: accepting_def)
  have "holding ?s' x [?j]" using put [of ?j] g' by (simp add: holding_def new_context_def)
  with st st' show ?thesis by blast
qed


section \<open>The properties\<close>

lemma timeout_step:
  assumes ok: "manager_ok (srv_manager (sys_server s))" and "receiving s x = Some h"
    and "get_connection (srv_manager (sys_server s)) x = Some k"
  shows "\<exists>s'. sys_step A E (LTimeout x) s = Some s' \<and> (\<exists>h'. dict_get (sys_handlers s') x = Some h' \<and>
    h_phase h' = Closing (if authenticated k then CLOSE_IDLE_TIMEOUT else CLOSE_AUTH_REQUIRED))"
  using assms by (cases "authenticated k") (auto simp: recv_timeout_def after_turn_def)

text \<open>
  C31: the timeouts are those of the limits, counted from the last activity. At any moment of a
  timed run a connection that waits for a frame has sent one (or was accepted, or had the answer to
  its token) within its allowance, the idle timeout once it is authenticated and the shorter one
  before; if it is timed out, it has been silent for the whole allowance, and the handler closes
  with 4408 or 4401; and when its deadline is the next, that timeout is possible.
\<close>

theorem silence_bounded:
  assumes "limits_ok l" and "db_ok db" and r: "timed_reaches A E (timed_initial c db l) es T"
    and h: "receiving (untimed T) x = Some h" and k: "get_connection (srv_manager (sys_server (untimed T))) x = Some k"
    and d: "(if authenticated k then idle_timeout_seconds l else unauthenticated_timeout_seconds l) = Fin d"
  shows "(\<exists>t \<in> wait_events es x. clock T \<le> t + d) \<and>
    (\<forall>t T'. timed_step A E (t, LTimeout x) T = Some T' \<longrightarrow> (\<forall>u \<in> wait_events es x. u + d \<le> t) \<and>
      (\<exists>h'. dict_get (sys_handlers (untimed T')) x = Some h' \<and>
        h_phase h' = Closing (if authenticated k then CLOSE_IDLE_TIMEOUT else CLOSE_AUTH_REQUIRED))) \<and>
    ((\<forall>y e. deadline_of (untimed T) (since T) y = Some e \<longrightarrow> since T x + d \<le> e) \<longrightarrow>
      (\<exists>T'. timed_step A E (since T x + d, LTimeout x) T = Some T'))"
proof -
  note inv = timed_reaches_timely [OF assms(1,2) r]
  have dl: "deadline_of (untimed T) (since T) x = Some (since T x + d)"
    using h k d inv(3) by (cases "authenticated k") (simp_all add: deadline_of_def recv_deadline_def)
  have t: "since T x \<in> wait_events es x" "clock T \<le> since T x + d" "\<forall>u \<in> wait_events es x. u \<le> since T x"
    using inv(1) h dl unfolding timely_def by auto
  from timeout_step [OF sys_okD(1) [OF inv(2)] h k, of A E] obtain s' h' where
    st: "sys_step A E (LTimeout x) (untimed T) = Some s'" "dict_get (sys_handlers s') x = Some h'"
      "h_phase h' = Closing (if authenticated k then CLOSE_IDLE_TIMEOUT else CLOSE_AUTH_REQUIRED)" by blast
  have fires: "u = since T x + d \<and> untimed T' = s'" if "timed_step A E (u, LTimeout x) T = Some T'" for u T'
    using that dl st(1) by (auto elim!: timed_stepE simp: expires_def)
  have pass: "passes T (since T x + d)"
    if "\<forall>y e. deadline_of (untimed T) (since T) y = Some e \<longrightarrow> since T x + d \<le> e"
    using that t(2) by (auto simp: passes_def list_all_iff split: option.split)
  have possible: "\<exists>T'. timed_step A E (since T x + d, LTimeout x) T = Some T'"
    if "\<forall>y e. deadline_of (untimed T) (since T) y = Some e \<longrightarrow> since T x + d \<le> e"
    using pass [OF that] dl st(1) by (simp add: timed_step_def expires_def del: sys_step.simps)
  show ?thesis
  proof (intro conjI allI impI)
    show "\<exists>t \<in> wait_events es x. clock T \<le> t + d" using t(1,2) by blast
    fix u T' assume f: "timed_step A E (u, LTimeout x) T = Some T'"
    show "\<forall>v \<in> wait_events es x. v + d \<le> u" using fires [OF f] t(3) by simp
    show "\<exists>h'. dict_get (sys_handlers (untimed T')) x = Some h' \<and>
        h_phase h' = Closing (if authenticated k then CLOSE_IDLE_TIMEOUT else CLOSE_AUTH_REQUIRED)"
      using fires [OF f] st(2,3) by blast
  qed (rule possible)
qed

lemma evade_step:
  assumes r: "timed_reaches A E (timed_initial c db l) es T" and l: "limits_ok l" and db: "db_ok db"
    and h: "holding (untimed T) x []" and w: "since T x = clock T" and tau: "unauthenticated_timeout_seconds l = Fin tau"
    and d: "0 \<le> d" "d \<le> tau"
  shows "\<exists>T'. timed_reaches A E (timed_initial c db l)
      ((clock T + d, LWrite x Sent) # (clock T + d, LFrame x [] (clock T + d) (utc 0)) # es) T' \<and>
    holding (untimed T') x [] \<and> since T' x = clock T' \<and> clock T' = clock T + d"
proof -
  let ?t = "clock T + d"
  note inv = timed_reaches_timely [OF l db r]
  have "passes T ?t"
  proof -
    have "sys_handlers (untimed T) = [(x, \<lparr>h_phase = Receiving, h_writer = WriterRunning\<rparr>)]" using h by (simp add: holding_def)
    moreover have "?t \<le> e" if "deadline_of (untimed T) (since T) x = Some e" for e
      using that h tau inv(3) w d by (auto simp: holding_def deadline_of_def recv_deadline_def split: option.splits)
    ultimately show ?thesis using d(1) by (simp add: passes_def split: option.split)
  qed
  moreover from holding_frame [OF sys_okD(1) [OF inv(2)] _ h] inv(3) l obtain s1 j where
    s1: "sys_step A E (LFrame x [] ?t (utc 0)) (untimed T) = Some s1" "holding s1 x [j]" by metis
  ultimately have "timed_step A E (?t, LFrame x [] ?t (utc 0)) T = Some \<lparr>clock = ?t, untimed = s1, since = (since T)(x := ?t)\<rparr>"
    by (simp add: timed_step_def expires_def)
  note r1 = timed_reaches.goes_on [OF r this]
  note inv1 = timed_reaches_timely [OF l db r1]
  have "sys_handlers s1 = [(x, \<lparr>h_phase = Receiving, h_writer = WriterRunning\<rparr>)]" using s1(2) by (simp add: holding_def)
  moreover have "?t \<le> e" if "deadline_of s1 ((since T)(x := ?t)) x = Some e" for e
    using inv1(1) that unfolding timely_def by (metis timed.select_convs(1,2,3))
  ultimately have "passes \<lparr>clock = ?t, untimed = s1, since = (since T)(x := ?t)\<rparr> ?t"
    by (simp add: passes_def split: option.split)
  moreover from holding_write [OF sys_okD(1) [OF inv1(2)], of x j A E] s1(2) obtain s2 where
    s2: "sys_step A E (LWrite x Sent) s1 = Some s2" "holding s2 x []" by auto
  ultimately have "timed_step A E (?t, LWrite x Sent) \<lparr>clock = ?t, untimed = s1, since = (since T)(x := ?t)\<rparr> =
      Some \<lparr>clock = ?t, untimed = s2, since = (since T)(x := ?t)\<rparr>"
    by (simp add: timed_step_def expires_def)
  from timed_reaches.goes_on [OF r1 this] s2(2) show ?thesis by fastforce
qed

lemma evade_starts:
  assumes l: "limits_ok l" and db: "db_ok db" and o: "is_origin_allowed l origin"
  shows "\<exists>T. timed_reaches A E (timed_initial c db l) (evade [] origin host anon x) T \<and> clock T = 0 \<and>
    holding (untimed T) x [] \<and> since T x = clock T"
proof -
  from holding_connect [OF l o] obtain s1 s2 j where s1: "sys_step A E (LConnect origin host 0 (utc 0) anon x)
      (initial c db l) = Some s1" and s2: "sys_step A E (LAccepted x) s1 = Some s2" "holding s2 x [j]" by metis
  let ?T1 = "\<lparr>clock = 0, untimed = s1, since = (\<lambda>_. 0)\<rparr>" and ?T2 = "\<lparr>clock = 0, untimed = s2, since = (\<lambda>_. 0)(x := 0)\<rparr>"
  have "timed_step A E (0, LConnect origin host 0 (utc 0) anon x) (timed_initial c db l) = Some ?T1"
    using s1 by (simp add: timed_step_def expires_def passes_def timed_initial_def initial_def)
  note r1 = timed_reaches.goes_on [OF timed_reaches.begins this]
  from passes_now [OF timed_reaches_timely(1) [OF l db r1]] s2(1)
  have "timed_step A E (0, LAccepted x) ?T1 = Some ?T2" by (simp add: timed_step_def expires_def del: sys_step.simps)
  note r2 = timed_reaches.goes_on [OF r1 this]
  note inv = timed_reaches_timely(1,2) [OF l db r2]
  from holding_write [OF sys_okD(1) [OF inv(2)], of x j A E] s2(2) obtain s3 where
    s3: "sys_step A E (LWrite x Sent) s2 = Some s3" "holding s3 x []" by auto
  with passes_now [OF inv(1)] have "timed_step A E (0, LWrite x Sent) ?T2 =
      Some \<lparr>clock = 0, untimed = s3, since = (\<lambda>_. 0)(x := 0)\<rparr>"
    by (simp add: timed_step_def expires_def del: sys_step.simps)
  from timed_reaches.goes_on [OF r2 this] s3(2) show ?thesis by fastforce
qed

text \<open>
  C32: the deadline for authentication is none. There is no bound on the time that a connection
  may stay open without authenticating: whatever pauses of at most \<open>tau\<close> seconds one chooses,
  however many, there is a run in which a client with an allowed origin is accepted, sends an
  empty frame after each pause, reads the answers, and at the end is still connected, still
  unauthenticated and still listened to. The deadline is that of one wait for a frame, and every
  frame, an invalid one too, begins a new wait.
\<close>

theorem auth_deadline_restarts:
  assumes "limits_ok l" and "db_ok db" and "is_origin_allowed l origin" and "unauthenticated_timeout_seconds l = Fin tau"
    and "\<forall>d \<in> set ds. 0 \<le> d \<and> d \<le> tau"
  shows "\<exists>T. timed_reaches A E (timed_initial c db l) (evade ds origin host anon x) T \<and> clock T = sum_list ds \<and>
    receiving (untimed T) x \<noteq> None \<and>
    (\<exists>k. get_connection (srv_manager (sys_server (untimed T))) x = Some k \<and> \<not> authenticated k)"
proof -
  have "\<exists>T. timed_reaches A E (timed_initial c db l) (evade ds origin host anon x) T \<and> clock T = sum_list ds \<and>
      holding (untimed T) x [] \<and> since T x = clock T"
    using assms(5)
  proof (induction ds)
    case Nil
    show ?case using evade_starts [OF assms(1-3)] by simp
  next
    case (Cons d ds)
    then obtain T where T: "timed_reaches A E (timed_initial c db l) (evade ds origin host anon x) T" "clock T = sum_list ds"
      "holding (untimed T) x []" "since T x = clock T" by auto
    have "clock T + d = sum_list (d # ds)" using T(2) by simp
    with evade_step [OF T(1) assms(1,2) T(3,4) assms(4), of d] Cons.prems show ?case by simp blast
  qed
  then show ?thesis unfolding holding_def receiving_def by fastforce
qed

theorem auth_deadline_restarts_witness:
  "\<exists>T. timed_reaches pocket_env sample_transport (timed_initial (e_config pocket_env) pocket_db transport_limits_defaults)
      (evade (replicate 360 10) None None (lit ''c1'') (lit ''c1'')) T \<and> clock T = 3600 \<and>
    (\<exists>k. get_connection (srv_manager (sys_server (untimed T))) (lit ''c1'') = Some k \<and> \<not> authenticated k)"
proof -
  have l: "is_origin_allowed transport_limits_defaults None" "unauthenticated_timeout_seconds transport_limits_defaults = Fin 15"
    by (simp_all add: transport_limits_defaults_def is_origin_allowed_def)
  from auth_deadline_restarts [OF demo_start_ok l, of "replicate 360 10" pocket_env sample_transport "e_config pocket_env"
      None "lit ''c1''" "lit ''c1''"]
  show ?thesis by (auto simp: sum_list_replicate)
qed

theorem silence_bounded_witness:
  "\<exists>T k. timed_reaches pocket_env sample_transport (timed_initial (e_config pocket_env) pocket_db transport_limits_defaults)
      (evade [10] None None (lit ''c1'') (lit ''c1'')) T \<and>
    get_connection (srv_manager (sys_server (untimed T))) (lit ''c1'') = Some k \<and>
    (\<exists>t \<in> wait_events (evade [10] None None (lit ''c1'') (lit ''c1'')) (lit ''c1''). clock T \<le> t + 15) \<and>
    (\<forall>t T'. timed_step pocket_env sample_transport (t, LTimeout (lit ''c1'')) T = Some T' \<longrightarrow> 10 + 15 \<le> t)"
proof -
  have l: "is_origin_allowed transport_limits_defaults None" "unauthenticated_timeout_seconds transport_limits_defaults = Fin 15"
    by (simp_all add: transport_limits_defaults_def is_origin_allowed_def)
  let ?es = "evade [10] None None (lit ''c1'') (lit ''c1'')" and ?x = "lit ''c1''"
  from auth_deadline_restarts [OF demo_start_ok l, of "[10]" pocket_env sample_transport "e_config pocket_env"
      None "lit ''c1''" ?x]
  obtain T h k where r: "timed_reaches pocket_env sample_transport
      (timed_initial (e_config pocket_env) pocket_db transport_limits_defaults) ?es T"
    and h: "receiving (untimed T) ?x = Some h"
    and k: "get_connection (srv_manager (sys_server (untimed T))) ?x = Some k" "\<not> authenticated k" by auto
  have "(if authenticated k then idle_timeout_seconds transport_limits_defaults
      else unauthenticated_timeout_seconds transport_limits_defaults) = Fin 15" using k(2) l(2) by simp
  note s = silence_bounded [OF demo_start_ok r h k(1) this]
  have ten: "10 \<in> wait_events ?es ?x" by simp
  have "10 + 15 \<le> t" if "timed_step pocket_env sample_transport (t, LTimeout ?x) T = Some T'" for t T'
    using conjunct1 [OF conjunct2 [OF s], rule_format, OF that] ten by blast
  with r k(1) conjunct1 [OF s] show ?thesis by blast
qed

end
