(* ===== verification/LoginHistory.thy ===== *)
theory LoginHistory
  imports FailedLogins
begin

text \<open>
  The failed-login tracker against a reference. The tracker prunes the window of an identifier
  when it is asked about it, and only then; the reference keeps every failure since the last
  success of its identifier and counts the ones younger than the window. In any use with a
  clock that does not run backwards both give the same answers.
\<close>

section \<open>Uses and their answers\<close>

datatype tracker_op = AskBlocked ustr rat | AskCount ustr rat | Fail ustr rat | Succeed ustr | Forget

datatype tracker_answer = Blocked bool | Failures int | Done

fun tracker_step :: "tracker \<Rightarrow> tracker_op \<Rightarrow> tracker \<times> tracker_answer" where
  "tracker_step t (AskBlocked i now) = apsnd Blocked (is_blocked t i now)"
| "tracker_step t (AskCount i now) = apsnd Failures (failure_count t i now)"
| "tracker_step t (Fail i now) = apsnd Failures (record_failure t i now)"
| "tracker_step t (Succeed i) = (reset_failures t i, Done)"
| "tracker_step t Forget = (clear_tracker t, Done)"

text \<open>The reference.\<close>

definition recent :: "rat \<Rightarrow> (ustr \<times> rat) list \<Rightarrow> ustr \<Rightarrow> rat \<Rightarrow> int" where
  "recent w L i now = int (length (filter (\<lambda>(j, x). j = i \<and> now - w < x) L))"

fun history_step :: "int \<Rightarrow> rat \<Rightarrow> (ustr \<times> rat) list \<Rightarrow> tracker_op \<Rightarrow> (ustr \<times> rat) list \<times> tracker_answer" where
  "history_step n w L (AskBlocked i now) = (L, Blocked (n \<le> recent w L i now))"
| "history_step n w L (AskCount i now) = (L, Failures (recent w L i now))"
| "history_step n w L (Fail i now) = (L @ [(i, now)], Failures (recent w L i now + 1))"
| "history_step n w L (Succeed i) = (filter (\<lambda>(j, x). j \<noteq> i) L, Done)"
| "history_step n w L Forget = ([], Done)"

fun answers :: "('s \<Rightarrow> tracker_op \<Rightarrow> 's \<times> tracker_answer) \<Rightarrow> 's \<Rightarrow> tracker_op list \<Rightarrow> 's \<times> tracker_answer list" where
  "answers f s [] = (s, [])"
| "answers f s (x # xs) = (case f s x of (s1, a) \<Rightarrow> apsnd (Cons a) (answers f s1 xs))"

text \<open>The clock does not run backwards.\<close>

definition op_time :: "rat \<Rightarrow> tracker_op \<Rightarrow> rat" where
  "op_time now x = (case x of AskBlocked i t \<Rightarrow> t | AskCount i t \<Rightarrow> t | Fail i t \<Rightarrow> t | _ \<Rightarrow> now)"

fun clocked :: "rat \<Rightarrow> tracker_op list \<Rightarrow> bool" where
  "clocked now [] \<longleftrightarrow> True"
| "clocked now (x # xs) \<longleftrightarrow> now \<le> op_time now x \<and> clocked (op_time now x) xs"

section \<open>The tracker mirrors the history\<close>

definition failure_times :: "(ustr \<times> rat) list \<Rightarrow> ustr \<Rightarrow> rat list" where
  "failure_times L i = map snd (filter (\<lambda>(j, x). j = i) L)"

lemma failure_times_simps [simp]:
  "failure_times [] i = []" "failure_times (L @ [(j, x)]) i = (if j = i then failure_times L i @ [x] else failure_times L i)"
  "failure_times (filter (\<lambda>(j, x). j \<noteq> k) L) i = (if i = k then [] else failure_times L i)"
  by (auto simp: failure_times_def intro: filter_False arg_cong [of _ _ "map snd"] filter_cong)

lemma recent_times: "recent w L i now = int (length (filter (\<lambda>x. now - w < x) (failure_times L i)))"
  by (simp add: recent_def failure_times_def filter_map o_def) (metis (mono_tags, lifting) case_prod_conv split_beta)

definition mirrors :: "tracker \<Rightarrow> (ustr \<times> rat) list \<Rightarrow> rat \<Rightarrow> bool" where
  "mirrors t L now \<longleftrightarrow> tracker_ok t \<and> (\<forall>i. tracks t i now (failure_times L i))"

lemma tracks_Nil [simp]: "tracks t i now [] \<longleftrightarrow> window_of t i = []"
  by (simp add: tracks_def)

lemma live_recent:
  assumes "mirrors t L now" and "now \<le> now'"
  shows "int (length (live_window t i now')) = recent (window_seconds t) L i now'"
proof -
  have "tracks t i now (failure_times L i)" using assms(1) by (simp add: mirrors_def)
  from live_window_tracks [OF this assms(2)] show ?thesis by (simp add: recent_times)
qed

lemma mirrors_prune: "mirrors t L now \<Longrightarrow> now \<le> now' \<Longrightarrow> mirrors (fst (prune t i now')) L now'"
  unfolding mirrors_def using prune_ok tracks_prune by blast

lemma mirrors_record:
  assumes "mirrors t L now" and "now \<le> now'" and "0 < window_seconds t"
  shows "mirrors (fst (record_failure t i now')) (L @ [(i, now')]) now'"
proof -
  have "tracks (fst (record_failure t i now')) j now' (failure_times L j)" if "j \<noteq> i" for j
    using that assms(1) tracks_later [OF _ assms(2), of t j "failure_times L j"] record_failure_window [of t i now' j]
    by (simp add: mirrors_def tracks_other [of "fst (record_failure t i now')" j t])
  moreover have "tracks (fst (record_failure t i now')) i now' (failure_times L i @ [now'])"
    using assms(1) tracks_record [OF _ assms(2,3)] unfolding mirrors_def by blast
  ultimately show ?thesis using assms(1) by (simp add: mirrors_def record_failure_ok)
qed

lemma mirrors_reset: "mirrors t L now \<Longrightarrow> mirrors (reset_failures t i) (filter (\<lambda>(j, x). j \<noteq> i) L) now"
  by (simp add: mirrors_def reset_failures_ok reset_failures_window)
     (simp add: tracks_def reset_failures_window, simp add: reset_failures_def)

lemma step_mirrors:
  assumes m: "mirrors t L now" and "now \<le> op_time now x" and w: "0 < window_seconds t"
  shows "mirrors (fst (tracker_step t x)) (fst (history_step (max_failures t) (window_seconds t) L x)) (op_time now x)"
    and "snd (tracker_step t x) = snd (history_step (max_failures t) (window_seconds t) L x)"
    and "max_failures (fst (tracker_step t x)) = max_failures t"
    and "window_seconds (fst (tracker_step t x)) = window_seconds t"
proof -
  have "tracker_ok (clear_tracker t)" "window_of (clear_tracker t) i = []" for i
    by (simp_all add: clear_tracker_def tracker_ok_def window_of_def)
  then show "mirrors (fst (tracker_step t x)) (fst (history_step (max_failures t) (window_seconds t) L x)) (op_time now x)"
    using assms mirrors_prune [OF m] mirrors_record [OF m _ w] mirrors_reset [OF m]
    by (cases x) (simp_all add: op_time_def is_blocked_fst failure_count_def split_beta mirrors_def)
  show "snd (tracker_step t x) = snd (history_step (max_failures t) (window_seconds t) L x)"
    using assms(2) live_recent [OF m]
    by (cases x) (simp_all add: op_time_def is_blocked_snd failure_count_def record_failure_def split_beta)
  show "max_failures (fst (tracker_step t x)) = max_failures t" "window_seconds (fst (tracker_step t x)) = window_seconds t"
    by (cases x; simp add: is_blocked_fst failure_count_def split_beta reset_failures_def clear_tracker_def)+
qed

lemma answers_mirror:
  assumes "mirrors t L now" and "clocked now xs" and "0 < window_seconds t"
  shows "snd (answers tracker_step t xs) = snd (answers (history_step (max_failures t) (window_seconds t)) L xs) \<and>
    (\<exists>now'. mirrors (fst (answers tracker_step t xs))
       (fst (answers (history_step (max_failures t) (window_seconds t)) L xs)) now')"
  using assms
proof (induction xs arbitrary: t L now)
  case (Cons x xs)
  then have o: "now \<le> op_time now x" "clocked (op_time now x) xs" by simp_all
  note st = step_mirrors [OF Cons.prems(1) o(1) Cons.prems(3)]
  from Cons.IH [OF st(1) o(2)] Cons.prems(3) st(2-4) show ?case by (simp add: split_beta)
qed auto

text \<open>A tracked identifier has a failure in the history.\<close>

lemma mirrors_tracked:
  assumes "mirrors t L now"
  shows "tracked_identifiers t \<le> int (card (fst ` set L))"
proof -
  have ok: "dict_ok (failures t)" "\<And>i w. dict_get (failures t) i = Some w \<Longrightarrow> w \<noteq> []"
    using assms by (auto simp: mirrors_def tracker_ok_def)
  have "i \<in> fst ` set L" if "dict_get (failures t) i = Some w" for i w
  proof -
    have "window_of t i = w" using that by (simp add: window_of_def)
    moreover have "tracks t i now (failure_times L i)" using assms by (simp add: mirrors_def)
    ultimately have "failure_times L i \<noteq> []" using ok(2) [OF that] by force
    then show ?thesis by (force simp: failure_times_def filter_empty_conv)
  qed
  then have "dom (dict_get (failures t)) \<subseteq> fst ` set L" by blast
  moreover have "card (dom (dict_get (failures t))) = length (failures t)"
    using ok(1) distinct_card [of "map fst (failures t)"] by (simp add: dict_ok_def dom_map_of_conv_image_fst)
  ultimately show ?thesis unfolding tracked_identifiers_def
    by (metis List.finite_set card_mono finite_imageI of_nat_le_iff)
qed

text \<open>
  C35: lazy pruning is invisible. Whatever sequence of questions, failures and successes a
  tracker gets, it answers as if every failure since the last success of its identifier were
  kept and those of the last \<open>w\<close> seconds counted each time, and it never tracks more
  identifiers than have such a failure.
\<close>

theorem tracker_counts_recent:
  assumes "0 < w" and "clocked now xs"
  shows "snd (answers tracker_step (new_tracker n w) xs) = snd (answers (history_step n w) [] xs) \<and>
    tracked_identifiers (fst (answers tracker_step (new_tracker n w) xs)) \<le>
      int (card (fst ` set (fst (answers (history_step n w) [] xs))))"
proof -
  have "mirrors (new_tracker n w) [] now" by (simp add: mirrors_def tracker_ok_def new_tracker_def window_of_def)
  from answers_mirror [OF this assms(2)] assms(1) mirrors_tracked show ?thesis by (auto simp: new_tracker_def)
qed

text \<open>Two failures block until the first is ten seconds old; a success forgets both.\<close>

theorem tracker_counts_recent_witness:
  "snd (answers tracker_step (new_tracker 2 10)
     [Fail (lit ''a'') 0, Fail (lit ''a'') 4, AskBlocked (lit ''a'') 9, AskBlocked (lit ''a'') 10,
      AskCount (lit ''b'') 11, Succeed (lit ''a''), AskCount (lit ''a'') 12]) =
   [Failures 1, Failures 2, Blocked True, Blocked False, Failures 0, Done, Failures 0]"
  using tracker_counts_recent [of 10 0 "[Fail (lit ''a'') 0, Fail (lit ''a'') 4, AskBlocked (lit ''a'') 9,
      AskBlocked (lit ''a'') 10, AskCount (lit ''b'') 11, Succeed (lit ''a''), AskCount (lit ''a'') 12]" 2]
  by (simp add: op_time_def recent_def lit_def)

end
