(* ===== verification/Custody.thy ===== *)
theory Custody
  imports ChatRefinement Quiescence
begin

text \<open>
  A message between its sender and a recipient who is away: proved on \<open>ChatSpec\<close> and carried
  over to the server by the refinement.
\<close>

section \<open>Mailboxes of the specification\<close>

text \<open>Nobody but a collector of the name takes from a mailbox, and what is put in goes behind.\<close>

definition box_of :: "chat \<Rightarrow> ustr \<Rightarrow> json list" where
  "box_of c r = (case mail c r of None \<Rightarrow> [] | Some js \<Rightarrow> js)"

lemma box_of_chat: "box_of (chat_of m) r = held_for m r"
  by (simp add: box_of_def held_for_def waiting_def)

lemma fold_tell_mail [simp]:
  "mail (fold (tell l x) js c) = mail c" "name_of (fold (tell l x) js c) = name_of c"
  "leaving (fold (tell l x) js c) = leaving c"
  by (induction js arbitrary: c) (simp_all add: tell_def)

lemma chat_do_mail:
  assumes "\<And>x. op \<noteq> Collect x r"
  shows "\<exists>new. box_of (chat_do l op c) r = box_of c r @ new"
proof (cases op)
  case (Collect x k)
  with assms have "k \<noteq> r" by auto
  with Collect show ?thesis by (simp add: collect_def box_of_def)
next
  case (Post k j)
  then show ?thesis by (cases "k = r") (auto simp: post_def box_of_def split: option.splits)
qed (simp_all add: box_of_def)

lemma chat_run_mail:
  "(\<And>x. Collect x r \<notin> set ops) \<Longrightarrow> \<exists>new. box_of (chat_run l ops c) r = box_of c r @ new"
proof (induction ops arbitrary: c)
  case (Cons op ops)
  obtain a where "box_of (chat_do l op c) r = box_of c r @ a"
    using chat_do_mail [of op r l c] Cons.prems by auto
  moreover obtain b where "box_of (chat_run l ops (chat_do l op c)) r = box_of (chat_do l op c) r @ b"
    using Cons.IH Cons.prems by (metis list.set_intros(2))
  ultimately show ?case by simp
qed (simp add: box_of_def)

text \<open>A member takes from a list as much as its box has room for.\<close>

lemma fold_tell_box:
  assumes "name_of c x \<noteq> None" and "x \<notin> leaving c" and "int (length (box c x)) \<le> max_pending_outbound l"
  shows "box (fold (tell l x) js c) x = box c x @ take (nat (max_pending_outbound l) - length (box c x)) js"
  using assms
proof (induction js arbitrary: c)
  case (Cons j js)
  show ?case
  proof (cases "takes l c x")
    case True
    then have "length (box c x) < nat (max_pending_outbound l)" by (auto simp: takes_def)
    then have n: "nat (max_pending_outbound l) - length (box c x) = Suc (nat (max_pending_outbound l) - Suc (length (box c x)))"
      by (simp add: Suc_diff_Suc)
    have "box (fold (tell l x) js (tell l x j c)) x =
        box (tell l x j c) x @ take (nat (max_pending_outbound l) - length (box (tell l x j c) x)) js"
      by (rule Cons.IH) (use True Cons.prems in \<open>simp_all add: tell_def takes_def\<close>)
    moreover have "tell l x j c = c\<lparr>box := (box c)(x := box c x @ [j])\<rparr>" using True by (simp add: tell_def)
    ultimately show ?thesis using n by simp
  next
    case False
    then have "nat (max_pending_outbound l) - length (box c x) = 0" using Cons.prems by (simp add: takes_def)
    with False show ?thesis by (simp add: tell_refused fold_tell_refused)
  qed
qed simp

lemma collect_box:
  assumes "name_of c x \<noteq> None" and "x \<notin> leaving c" and "int (length (box c x)) \<le> max_pending_outbound l"
  shows "box (chat_run l [Name x r, Tell x j, Collect x r] c) x =
      box c x @ take (nat (max_pending_outbound l) - length (box c x)) (j # box_of c r)"
    and "box_of (chat_run l [Name x r, Tell x j, Collect x r] c) r = []"
proof -
  let ?c = "chat_do l (Name x r) c"
  obtain y where name: "name_of c x = Some y" using assms(1) by blast
  have m: "mail (chat_run l [Name x r, Tell x j] c) = mail c" using assms(1) by simp
  have "box (fold (tell l x) (j # box_of c r) ?c) x =
      box ?c x @ take (nat (max_pending_outbound l) - length (box ?c x)) (j # box_of c r)"
    by (rule fold_tell_box) (use assms in simp_all)
  then show "box (chat_run l [Name x r, Tell x j, Collect x r] c) x =
      box c x @ take (nat (max_pending_outbound l) - length (box c x)) (j # box_of c r)"
    using m name by (simp add: collect_def box_of_def fold_tell_mail_update)
  show "box_of (chat_run l [Name x r, Tell x j, Collect x r] c) r = []"
    by (simp add: collect_def box_of_def)
qed

section \<open>Mailboxes of the server\<close>

text \<open>The identities that a run binds to connections: a token has resolved, and the answer is used.\<close>

definition bound_at :: "label \<Rightarrow> system \<Rightarrow> (ustr \<times> authenticated_identity) set" where
  "bound_at l s = {(cid, i). l = LBind cid \<and> (cid, i) \<in> pending (sys_handlers s)}"

fun bindings :: "auth_env \<Rightarrow> transport_env \<Rightarrow> system \<Rightarrow> label list \<Rightarrow> (ustr \<times> authenticated_identity) set" where
  "bindings A E s0 [] = {}"
| "bindings A E s0 (l # ls) = bindings A E s0 ls \<union>
     (case sys_run A E ls s0 of None \<Rightarrow> {} | Some s \<Rightarrow> bound_at l s)"

lemma permitted_collects:
  assumes "permitted (pending (sys_handlers s)) P l s ops" and "Collect x r \<in> set ops"
  shows "\<exists>i. (x, i) \<in> bound_at l s \<and> ai_username i = r"
  using assms by (cases l) (fastforce simp: permitted_def may_depart_def speaks_def bound_at_def)+

lemma step_mail:
  assumes "sys_step A E l s = Some s'" and "manager_ok (srv_manager (sys_server s))" and "handlers_ok s"
    and "limits_ok (limits (srv_manager (sys_server s)))" and away: "\<And>x i. (x, i) \<in> bound_at l s \<Longrightarrow> ai_username i \<noteq> r"
  shows "\<exists>new. held_for (srv_manager (sys_server s')) r = held_for (srv_manager (sys_server s)) r @ new"
proof -
  from step_refines [OF assms(1-3) HOL.refl assms(4) subset_refl]
  obtain ops where "permitted (pending (sys_handlers s)) (te_pydantic E) l s ops"
    and c: "chat_of (srv_manager (sys_server s')) =
      chat_run (limits (srv_manager (sys_server s))) ops (chat_of (srv_manager (sys_server s)))" by blast
  with permitted_collects away have "Collect x r \<notin> set ops" for x by metis
  from chat_run_mail [OF this] c show ?thesis by (metis box_of_chat)
qed

lemma bind_mail:
  assumes st: "sys_step A E (LBind cid) s = Some s'" and i: "(cid, i) \<in> bound_at (LBind cid) s"
    and ok: "manager_ok (srv_manager (sys_server s))" and h: "handlers_ok s"
    and lim: "limits (srv_manager (sys_server s)) = l" "limits_ok l"
  shows "held_for (srv_manager (sys_server s')) (ai_username i) = [] \<and>
    (\<exists>ready. is_reply (te_pydantic E) ready \<and> inbox_of (srv_manager (sys_server s')) cid =
       inbox_of (srv_manager (sys_server s)) cid @
       take (nat (max_pending_outbound l) - length (inbox_of (srv_manager (sys_server s)) cid))
         (ready # held_for (srv_manager (sys_server s)) (ai_username i)))"
proof -
  let ?m = "srv_manager (sys_server s)" and ?r = "ai_username i"
  from i obtain hn e where hn: "dict_get (sys_handlers s) cid = Some hn" "h_phase hn = Resolved e (Inr i)"
    by (auto simp: bound_at_def pending_def)
  obtain sv u where r: "auth_finish E (sys_server s) cid e (Inr i) = (sv, u)" by fastforce
  have s': "s' = after_turn s cid hn (sv, u)" using st hn r by simp
  obtain c where c: "get_connection ?m cid = Some c" "\<not> closing c"
    by (rule handlers_okD [OF h hn(1)]) (use hn(2) in auto)
  have pre: "name_of (chat_of ?m) cid \<noteq> None" "cid \<notin> leaving (chat_of ?m)"
    using c by (simp_all add: owner_of_def leaving_of_def get_connection_def)
  have "length (inbox_of ?m cid) \<le> nat (max_pending_outbound l)"
    by (rule inbox_bound [OF ok]) (use lim in \<open>auto simp: limits_ok_def\<close>)
  then have room: "int (length (box (chat_of ?m) cid)) \<le> max_pending_outbound l" using lim(2) unfolding limits_ok_def chat_of_sel by linarith
  from chat_auth_finish [OF ok lim, where result = "Inr i" and E = E and cid = cid and e = e] r obtain ready where
    ready: "is_reply (te_pydantic E) ready"
    and ch: "chat_of (srv_manager sv) = chat_run l [Name cid ?r, Tell cid ready, Collect cid ?r] (chat_of ?m)"
    by (auto simp del: chat_run_simps)
  have ok': "manager_ok (srv_manager sv)" using auth_finish_effect(1) [OF ok, of E cid e "Inr i"] r by simp
  have "box_of (chat_of (srv_manager (sys_server s'))) ?r = box_of (chat_of (srv_manager sv)) ?r"
    and "inbox_of (srv_manager (sys_server s')) = inbox_of (srv_manager sv)"
    using chat_after_turn [OF ok', of s cid hn u l] after_turn_inbox [OF ok', of s cid hn u]
    by (simp_all add: s' box_of_def)
  moreover have "inbox_of (srv_manager sv) cid = box (chat_of (srv_manager sv)) cid" by simp
  ultimately show ?thesis
    using collect_box [OF pre room, of ?r ready] ready unfolding ch box_of_chat by (metis box_of_chat chat_of_sel(3))
qed

text \<open>
  C4: what was queued for a user who is away waits for him. As long as no connection is bound to
  an identity of his name, whatever else happens, his mailbox loses nothing and keeps its order,
  and later messages go behind; the first connection that is bound to the name gets all of it,
  behind the confirmation, as far as its queue has room, and nothing is left for another.
\<close>

theorem mail_waits_for_its_owner:
  assumes "limits_ok l" and "db_ok db" and r: "reaches A E (initial c db l) ls s" and later: "reaches A E s ls' s'"
    and away: "\<forall>p \<in> bindings A E s ls'. ai_username (snd p) \<noteq> r"
  shows "\<exists>new. held_for (srv_manager (sys_server s')) r = held_for (srv_manager (sys_server s)) r @ new \<and>
    (\<forall>cid i s''. sys_step A E (LBind cid) s' = Some s'' \<and>
         (cid, i) \<in> bound_at (LBind cid) s' \<and> ai_username i = r \<longrightarrow>
       held_for (srv_manager (sys_server s'')) r = [] \<and>
       (\<exists>ready. is_reply (te_pydantic E) ready \<and> inbox_of (srv_manager (sys_server s'')) cid =
          inbox_of (srv_manager (sys_server s')) cid @
          take (nat (max_pending_outbound l) - length (inbox_of (srv_manager (sys_server s')) cid))
            (ready # held_for (srv_manager (sys_server s)) r @ new)))"
proof -
  note init = initial_ok [OF assms(1,2)]
  have sys: "sys_ok A E (initial c db l) ls0 s0" "limits (srv_manager (sys_server s0)) = l"
    if "reaches A E (initial c db l) ls0 s0" for ls0 s0
    using reaches_ok [OF that init] reaches_limits [OF that init] by (simp_all add: initial_def new_manager_def)
  have "\<exists>new. held_for (srv_manager (sys_server s')) r = held_for (srv_manager (sys_server s)) r @ new"
    using later away
  proof (induction rule: reaches.induct)
    case (step ls1 s1 x s2)
    have run: "sys_run A E ls1 s = Some s1" using step.hyps(1) by (simp add: reaches_run)
    note sys1 = sys [OF reaches_trans [OF step.hyps(1) r]]
    from step.IH step.prems obtain a where "held_for (srv_manager (sys_server s1)) r = held_for (srv_manager (sys_server s)) r @ a"
      by auto
    moreover have "\<And>y i. (y, i) \<in> bound_at x s1 \<Longrightarrow> ai_username i \<noteq> r" using step.prems run by force
    with step_mail [OF step.hyps(2) sys_okD(1,3) [OF sys1(1)], of r] sys1(2) assms(1) obtain b where
      "held_for (srv_manager (sys_server s2)) r = held_for (srv_manager (sys_server s1)) r @ b" by metis
    ultimately show ?case by simp
  qed simp
  then obtain new where new: "held_for (srv_manager (sys_server s')) r = held_for (srv_manager (sys_server s)) r @ new" by blast
  note sys' = sys [OF reaches_trans [OF later r]]
  show ?thesis
  proof (intro exI [of _ new] conjI allI impI)
    show "held_for (srv_manager (sys_server s')) r = held_for (srv_manager (sys_server s)) r @ new" by (rule new)
    fix cid i s''
    assume a: "sys_step A E (LBind cid) s' = Some s'' \<and>
         (cid, i) \<in> bound_at (LBind cid) s' \<and> ai_username i = r"
    note m = bind_mail [OF conjunct1 [OF a] conjunct1 [OF conjunct2 [OF a]] sys_okD(1,3) [OF sys'(1)] sys'(2) assms(1)]
    show "held_for (srv_manager (sys_server s'')) r = []" using m a by simp
    show "\<exists>ready. is_reply (te_pydantic E) ready \<and> inbox_of (srv_manager (sys_server s'')) cid =
          inbox_of (srv_manager (sys_server s')) cid @
          take (nat (max_pending_outbound l) - length (inbox_of (srv_manager (sys_server s')) cid))
            (ready # held_for (srv_manager (sys_server s)) r @ new)" using m a new by simp
  qed
qed

theorem mail_waits_for_its_owner_witness:
  "\<exists>s s' new. reaches pocket_env sample_transport demo_start demo_labels s \<and>
     reaches pocket_env sample_transport s (replicate 3 (LWrite (lit ''c1'') Sent)) s' \<and>
     held_for (srv_manager (sys_server s)) (lit ''bob'') = [receipt_message] \<and>
     held_for (srv_manager (sys_server s')) (lit ''bob'') = receipt_message # new"
proof -
  obtain g where r: "reaches pocket_env sample_transport demo_start demo_labels (demo_end g)"
    and w: "writing (demo_end g) (lit ''c1'')"
    and b: "inbox_of (srv_manager (sys_server (demo_end g))) (lit ''c1'') =
      [ready_message, auth_ready_message, ack_message]" by (rule demo_writing)
  have "3 \<le> length (inbox_of (srv_manager (sys_server (demo_end g))) (lit ''c1''))" by (simp add: b)
  from flush_prefix [OF w this, of pocket_env sample_transport] obtain s' where
    later: "reaches pocket_env sample_transport (demo_end g) (replicate 3 (LWrite (lit ''c1'') Sent)) s'" by blast
  have none: "bound_at (LWrite x y) s = {}" for x y s by (simp add: bound_at_def)
  have "bindings pocket_env sample_transport (demo_end g) (replicate n (LWrite (lit ''c1'') Sent)) = {}" for n
    by (induction n) (simp_all add: none split: option.split)
  then have "\<forall>p \<in> bindings pocket_env sample_transport (demo_end g) (replicate 3 (LWrite (lit ''c1'') Sent)).
      ai_username (snd p) \<noteq> lit ''bob''" by blast
  from mail_waits_for_its_owner [OF demo_start_ok r [unfolded demo_start_def] later this]
  have "\<exists>new. held_for (srv_manager (sys_server s')) (lit ''bob'') =
      held_for (srv_manager (sys_server (demo_end g))) (lit ''bob'') @ new" by blast
  moreover have "held_for (srv_manager (sys_server (demo_end g))) (lit ''bob'') = [receipt_message]"
    by (simp add: solo_at_def held_for_def waiting_def bob_box_def)
  ultimately show ?thesis using r later by fastforce
qed

end
