(* ===== verification/Lingering.thy ===== *)
theory Lingering
  imports Custody TransportProps AuthProps
begin

text \<open>
  The two halves of the server together: what the deletion of an account means for a connection
  that was authenticated before.
\<close>

section \<open>Operations of the service in a run\<close>

lemma service_run:
  "reaches A E s (map LAuth (rev ops)) (s\<lparr>sys_auth := auth_run A ops (sys_auth s)\<rparr>)"
proof (induction ops rule: rev_induct)
  case (snoc op ops)
  from reaches.step [OF snoc, of "LAuth op"] show ?case by (simp add: auth_run_def)
qed (simp add: auth_run_def reaches.start)

lemma deleted_for_good:
  assumes ok: "db_ok (a_db st)" and u: "user_at (a_db st) (ai_user_id who) = Some u"
    and pw: "verify_password (e_argon2 A) (e_unicode A) (u_password_hash u) pw"
    and new: "\<And>op. op \<in> set ops \<Longrightarrow> \<not> registers op (ai_user_id who)"
    and r: "resolve_access_token A (a_db (auth_run A (OpDelete who pw now # ops) st)) t t' tok = Inr i"
  shows "ai_user_id i \<noteq> ai_user_id who"
proof -
  let ?s0 = "auth_step A (OpDelete who pw now) st"
  have id: "u_id u = ai_user_id who" using u by (auto dest: row_at_Some_in)
  have "snd (service_delete_account A st who pw now) = Inr ()"
    using ok u pw by (auto simp: service_delete_account_def verify_with_def split: prod.split)
  then have "a_db ?s0 = user_delete (fst (revoke_all_for_user (a_db st) (u_id u) now)) (u_id u)"
    using ok u pw by (simp add: transaction_db delete_db)
  then have dead: "\<not> account_exists ?s0 (ai_user_id who)"
    using ok by (simp add: account_exists_def id user_at_delete revoke_all_ok)
  have ok0: "db_ok (a_db ?s0)" using auth_step_db_ok [OF ok] .
  from acct.dead_stays_dead [OF ok0 dead new] acct.run_ok [OF ok0, of A ops] resolve_live(2) [OF _ r]
  show ?thesis by (auto simp: auth_run_def)
qed

section \<open>A message for somebody who is away\<close>

lemma send_to_mailbox:
  assumes "msg_type e = MESSAGE_SEND" and "sender e = routing_identity c" and "recipient e = Some rcp"
    and "\<not> is_connected (srv_manager sv) rcp"
    and "dict_get (queues (offline_queue (srv_manager sv))) rcp = None"
    and "int (length (queues (offline_queue (srv_manager sv)))) < max_recipients (offline_queue (srv_manager sv))"
    and "0 < max_per_recipient (offline_queue (srv_manager sv))"
  shows "held_for (srv_manager (fst (dispatch E sv cid c e wnow))) rcp = [receipt_for (te_pydantic E) c e rcp]"
proof -
  let ?j = "receipt_for (te_pydantic E) c e rcp"
  obtain q where q: "enqueue (offline_queue (srv_manager sv)) rcp ?j = (q, True)" "dict_get (queues q) rcp = Some [?j]"
    using assms(5-7) by (simp add: enqueue_def Let_def)
  obtain sv1 rs where h: "handle_message_send E sv c e = (sv1, rs)" by fastforce
  have "held_for (srv_manager (fst (handle_message_send E sv c e))) rcp = [?j]"
    using assms(2-4) q by (simp add: handle_message_send_def route_message_def Let_def held_for_def waiting_def)
  then show ?thesis using assms(1) h
    by (simp add: dispatch_def PRIVILEGED_TYPES_def handle_privileged_def finish_frame_manager enqueue_responses_held
        del: enqueue_responses.simps)
qed

text \<open>
  C23: an account's open connections outlive it. Once the account is deleted no token resolves to
  it, whatever operations follow and even if somebody else registers its name; a connection that
  was authenticated before goes on under that name all the same: a message it sends to a user
  who is away is queued for him, with the name as its sender.
\<close>

theorem socket_outlives_account:
  assumes "limits_ok l" and "db_ok db" and r: "reaches A E (initial c db l) ls s"
    and k: "get_connection (srv_manager (sys_server s)) cid = Some k" "authenticated k" "receiving s cid = Some h"
    and own: "user_id k = Some (ai_user_id who)"
    and u: "user_at (a_db (sys_auth s)) (ai_user_id who) = Some u"
    and pw: "verify_password (e_argon2 A) (e_unicode A) (u_password_hash u) pw"
    and new: "\<And>op. op \<in> set ops \<Longrightarrow> \<not> registers op (ai_user_id who)"
    and bytes: "utf8_encode raw = Some bytes" "int (length bytes) \<le> max_message_bytes l"
    and rate: "snd (allow (limiter k) tick)"
    and frame: "json_loads (te_depth E) raw = Inr (JObj d)" "validate_envelope (te_pydantic E) d = Some e"
    and send: "msg_type e = MESSAGE_SEND" "sender e = routing_identity k" "recipient e = Some rcp"
    and away: "\<not> is_connected (srv_manager (sys_server s)) rcp"
    and room: "dict_get (queues (offline_queue (srv_manager (sys_server s)))) rcp = None"
      "recipient_count (offline_queue (srv_manager (sys_server s))) < max_queued_recipients l"
  shows "\<exists>s1 s2. reaches A E s (map LAuth (rev (OpDelete who pw now # ops))) s1 \<and>
     (\<forall>t t' tok i. resolve_access_token A (a_db (sys_auth s1)) t t' tok = Inr i \<longrightarrow> ai_user_id i \<noteq> ai_user_id who) \<and>
     sys_step A E (LFrame cid raw tick wnow) s1 = Some s2 \<and>
     held_for (srv_manager (sys_server s2)) rcp = [receipt_for (te_pydantic E) k e rcp]"
proof -
  let ?m = "srv_manager (sys_server s)"
  let ?s1 = "s\<lparr>sys_auth := auth_run A (OpDelete who pw now # ops) (sys_auth s)\<rparr>"
  note init = initial_ok [OF assms(1,2)]
  note ok = sys_okD [OF reaches_ok [OF r init]]
  have lim: "limits ?m = l" using reaches_limits [OF r init] by (simp add: initial_def new_manager_def)
  have sendable: "msg_type e \<in> CLIENT_SENDABLE_TYPES" by (simp add: send(1) CLIENT_SENDABLE_TYPES_def)
  obtain sv2 c2 where f: "recv_frame E (sys_server s) cid raw tick wnow = dispatch E sv2 cid c2 e wnow"
    "same_standing k c2" "own_only ?m (srv_manager sv2) cid"
    by (rule accepted_frame [OF k(1) bytes(1) _ rate frame sendable, of wnow]) (use bytes(2) lim k(2) in auto)
  have q: "max_recipients (offline_queue ?m) = max_queued_recipients l" "max_per_recipient (offline_queue ?m) = max_queued_per_recipient l"
    using ok(1) lim by (auto simp: manager_ok_def bounds_ok_def)
  have "held_for (srv_manager (fst (dispatch E sv2 cid c2 e wnow))) rcp = [receipt_for (te_pydantic E) c2 e rcp]"
    by (rule send_to_mailbox)
       (use f(3) send same_standing_identity [OF f(2)] away room q assms(1)
        in \<open>simp_all add: own_only_def is_connected_def recipient_count_def limits_ok_def\<close>)
  then have held: "held_for (srv_manager (fst (recv_frame E (sys_server s) cid raw tick wnow))) rcp =
      [receipt_for (te_pydantic E) k e rcp]"
    using f(1) receipt_for_cong [OF same_standing_identity [OF f(2)]] by simp
  obtain sv t where rf: "recv_frame E (sys_server s) cid raw tick wnow = (sv, t)" by fastforce
  have "held_for (srv_manager (sys_server (after_turn ?s1 cid h (sv, t)))) = held_for (srv_manager sv)"
    by (cases t) (simp_all add: after_turn_def close_begin_def)
  moreover have "sys_step A E (LFrame cid raw tick wnow) ?s1 = Some (after_turn ?s1 cid h (sv, t))"
    using k(3) rf by (simp add: receiving_def)
  moreover have "ai_user_id i \<noteq> ai_user_id who"
    if "resolve_access_token A (a_db (sys_auth ?s1)) t t' tok = Inr i" for t t' tok i
    using that by (intro deleted_for_good [OF ok(2) u pw new]) simp_all
  ultimately show ?thesis using service_run [of A E s "OpDelete who pw now # ops"] held rf
    by (intro exI [of _ ?s1] exI [of _ "after_turn ?s1 cid h (sv, t)"]) simp
qed

theorem socket_outlives_account_witness:
  "\<exists>s s1 s2. reaches pocket_env sample_transport demo_start (tl demo_labels) s \<and>
     reaches pocket_env sample_transport s [LAuth (OpDelete alice_identity (lit ''correct horse battery'') (utc 8))] s1 \<and>
     (\<forall>t t' tok i. resolve_access_token pocket_env (a_db (sys_auth s1)) t t' tok = Inr i \<longrightarrow> ai_user_id i \<noteq> lit ''u1'') \<and>
     sys_step pocket_env sample_transport (LFrame (lit ''c1'') send_frame 4 (utc 0)) s1 = Some s2 \<and>
     held_for (srv_manager (sys_server s2)) (lit ''bob'') = [receipt_message]"
proof -
  let ?k = "alice_online_as [ready_message, auth_ready_message] 2 2"
  obtain g where r: "reaches pocket_env sample_transport demo_start (tl demo_labels)
      (solo_at ?k (lit ''alice'') (new_queue 50 500) Receiving g)" (is "reaches _ _ _ _ ?s") using demo_authenticated by blast
  have k: "get_connection (srv_manager (sys_server ?s)) (lit ''c1'') = Some ?k" "authenticated ?k"
    "receiving ?s (lit ''c1'') = Some \<lparr>h_phase = Receiving, h_writer = WriterRunning\<rparr>"
    "user_id ?k = Some (ai_user_id alice_identity)"
    by (simp_all add: solo_at_def solo_get online_sel receiving_def alice_online_as_def authenticate_def alice_identity_def)
  have u: "user_at (a_db (sys_auth ?s)) (ai_user_id alice_identity) = Some (alice_row\<lparr>u_username := lit ''alice''\<rparr>)"
    by (simp add: solo_at_def new_service_def pocket_db_def alice_identity_def row_at_def)
  have pw: "verify_password (e_argon2 pocket_env) (e_unicode pocket_env) (u_password_hash (alice_row\<lparr>u_username := lit ''alice''\<rparr>))
      (lit ''correct horse battery'')" by (simp add: pocket_env_def)
  have rate: "snd (allow (limiter ?k) 4)" using online_heard(4) [of 2 4 "[ready_message, auth_ready_message]" 2] by simp
  have rc: "receipt_for sample_pydantic ?k send_envelope (lit ''bob'') = receipt_message"
    by (simp add: receipt_for_def online_sel receipt_message_def)
  have "\<not> is_connected (srv_manager (sys_server ?s)) (lit ''bob'')" by (simp add: solo_at_def solo_def is_connected_def)
  from socket_outlives_account [OF demo_start_ok r [unfolded demo_start_def] k u pw _ _ _ rate _ _ _ _ _ this,
      of "[]" send_frame send_frame send_fields send_envelope "utc 8" "utc 0"]
  show ?thesis
    using r rc frames_encode(2) frames_length(2) frames_parse(2) frames_validate(2)
    by (auto simp: solo_at_def online_sel new_queue_def recipient_count_def transport_limits_defaults_def alice_identity_def
        sample_transport_def)
qed

end
