(* ===== verification/ApiTypes.thy ===== *)
theory ApiTypes
  imports RouteRules Addressed
begin

text \<open>
  The interface of the server as types: a small language of JSON shapes, the shape of every
  answer of the HTTP routes by route and status, and the shape of every message of the
  WebSocket by its type.
\<close>

section \<open>JSON shapes\<close>

datatype shape = SText | SWord "ustr list" | SFlag bool | SInt | SNumber | SObject | SNullable shape
  | SRecord "(ustr \<times> shape) list"

text \<open>A record has exactly the fields listed, in that order.\<close>

fun has_shape :: "shape \<Rightarrow> json \<Rightarrow> bool" and has_fields :: "(ustr \<times> shape) list \<Rightarrow> (ustr, json) dict \<Rightarrow> bool" where
  "has_shape SText j = (case j of JStr _ \<Rightarrow> True | _ \<Rightarrow> False)"
| "has_shape (SWord ws) j = (case j of JStr s \<Rightarrow> s \<in> set ws | _ \<Rightarrow> False)"
| "has_shape (SFlag b) j = (j = JBool b)"
| "has_shape SInt j = (case j of JInt _ \<Rightarrow> True | _ \<Rightarrow> False)"
| "has_shape SNumber j = (case j of JInt _ \<Rightarrow> True | JFloat _ \<Rightarrow> True | _ \<Rightarrow> False)"
| "has_shape SObject j = (case j of JObj _ \<Rightarrow> True | _ \<Rightarrow> False)"
| "has_shape (SNullable t) j = (j = JNull \<or> has_shape t j)"
| "has_shape (SRecord fs) j = (case j of JObj d \<Rightarrow> has_fields fs d | _ \<Rightarrow> False)"
| "has_fields [] d = (d = [])"
| "has_fields ((k, t) # fs) d = (case d of [] \<Rightarrow> False | (k', j) # d' \<Rightarrow> k' = k \<and> has_shape t j \<and> has_fields fs d')"

section \<open>The HTTP routes\<close>

definition auth_error_codes :: "auth_error_code list" where
  "auth_error_codes = [AUTH_INVALID_CREDENTIALS, AUTH_REQUIRED, AUTH_TOKEN_INVALID, AUTH_TOKEN_EXPIRED,
     AUTH_SESSION_REVOKED, AUTH_RATE_LIMITED, AUTH_ACCOUNT_UNAVAILABLE, AUTH_REGISTRATION_REJECTED, AUTH_VALIDATION_FAILED]"

lemma every_code [simp]: "c \<in> set auth_error_codes"
  by (cases c) (simp_all add: auth_error_codes_def)

definition error_shape :: shape where
  "error_shape = SRecord [(lit ''code'', SWord (map auth_error_value auth_error_codes)),
     (lit ''detail'', SWord (map describe_auth auth_error_codes))]"

definition user_shape :: shape where
  "user_shape = SRecord [(lit ''user_id'', SText), (lit ''username'', SText), (lit ''created_at'', SText)]"

definition credentials_shape_of :: shape where
  "credentials_shape_of = SRecord [(lit ''access_token'', SText), (lit ''token_type'', SWord [lit ''Bearer'']),
     (lit ''expires_in'', SInt), (lit ''user'', user_shape)]"

text \<open>The shapes of the answers: the status of success with its body, and the statuses of errors.\<close>

fun success :: "http_route \<Rightarrow> int \<times> shape option" where
  "success Health = (200, Some (SRecord [(lit ''status'', SWord [lit ''ok'']), (lit ''phase'', SWord [lit ''3'']),
     (lit ''authentication'', SWord [lit ''implemented'']), (lit ''encrypted_messaging'', SWord [lit ''not_implemented''])]))"
| "success Policy = (200, Some (SRecord [(lit ''min_password_length'', SInt), (lit ''max_password_length'', SInt),
     (lit ''min_username_length'', SInt), (lit ''max_username_length'', SInt)]))"
| "success Register = (201, Some user_shape)"
| "success Login = (200, Some credentials_shape_of)"
| "success Refresh = (200, Some credentials_shape_of)"
| "success Logout = (204, None)"
| "success CurrentSession = (200, Some (SRecord [(lit ''authenticated'', SFlag True), (lit ''user'', user_shape),
     (lit ''session_id'', SText), (lit ''encryption_status'', SWord [lit ''not_implemented'']),
     (lit ''identity_verification_status'', SWord [lit ''not_implemented''])]))"
| "success DeleteAccount = (204, None)"

fun refusals :: "http_route \<Rightarrow> int list" where
  "refusals Health = []"
| "refusals Policy = []"
| "refusals Register = [400, 409, 429]"
| "refusals Login = [401, 429]"
| "refusals Refresh = [401]"
| "refusals Logout = [401, 403]"
| "refusals CurrentSession = [401, 403]"
| "refusals DeleteAccount = [401, 403]"

definition well_shaped :: "http_route \<Rightarrow> http_response \<Rightarrow> bool" where
  "well_shaped route r \<longleftrightarrow>
     (rs_status r = fst (success route) \<and>
        (case snd (success route) of None \<Rightarrow> rs_body r = None | Some t \<Rightarrow> (\<exists>j. rs_body r = Some j \<and> has_shape t j)) \<or>
      rs_status r \<in> set (refusals route) \<and> (\<exists>j. rs_body r = Some j \<and> has_shape error_shape j))"

lemma error_shaped: "has_shape error_shape (error_json (auth_error_value c) (describe_auth c))"
  by (simp add: error_shape_def error_json_def)

lemma user_shaped: "has_shape user_shape (public_user_json P u)"
  by (simp add: user_shape_def public_user_json_def)

text \<open>What a handler returns has the shape of its route.\<close>

lemma returned_shaped:
  assumes fw: "framework_ok R" and h: "snd (handle_route R st route rq d) = Inr (cs, x)"
  shows "well_shaped route (re_finish R cs x)"
  using h user_shaped [of "re_pydantic R"]
  by (cases route)
     (auto simp: well_shaped_def framework_finish [OF fw] health_json_def password_policy_route_def
       password_policy_info_json_def register_route_def login_route_def refresh_route_def credentials_answer_def
       authentication_response_json_def credentials_shape_of_def logout_route_def delete_account_route_def
       current_session_route_def session_status_json_def with_identity_def no_content_def map_sum_eq_iff
       split: option.splits sum.splits if_splits)

lemma register_error_status:
  "snd (service_register E st username pw uid salt now) = Inl (AuthError e) \<Longrightarrow> err_status e \<in> {400, 409}"
  by (auto simp: service_register_def user_create_def auth_raise_status_def Let_def
      split: sum.splits option.splits password_policy_error.splits prod.splits exn.splits if_splits)

lemma route_error_status:
  assumes ok: "db_ok (a_db st)" and h: "snd (handle_route R st route rq d) = Inl (ServiceExn (AuthError e))"
  shows "err_status e \<in> set (refusals route)"
proof (cases route)
  case Register
  with h register_error_status show ?thesis
    by (fastforce simp: register_route_def map_sum_eq_iff split: option.splits if_splits)
next
  case Login
  with h service_login_status [OF ok] show ?thesis
    by (fastforce simp: login_route_def map_sum_eq_iff split: option.splits if_splits)
next
  case Refresh
  with h service_error_status(1) [OF _ ok] show ?thesis
    by (fastforce simp: refresh_route_def map_sum_eq_iff auth_raise_def split: option.splits if_splits)
next
  case Logout
  have "snd (service_logout E st sid now) \<noteq> Inl (AuthError x)" for E sid now x
    using ok by (auto simp: service_logout_def Let_def split: sum.splits option.splits)
  with h Logout identity_error_status [OF ok] show ?thesis
    by (fastforce simp: logout_route_def with_identity_def map_sum_eq_iff split: sum.splits)
next
  case CurrentSession
  with h identity_error_status [OF ok] ok show ?thesis
    by (auto simp: current_session_route_def with_identity_def auth_raise_def split: sum.splits option.splits)
next
  case DeleteAccount
  with h identity_error_status [OF ok] service_error_status(2) [OF _ ok] show ?thesis
    by (fastforce simp: delete_account_route_def with_identity_def map_sum_eq_iff split: sum.splits option.splits)
qed (use h in \<open>simp_all add: password_policy_route_def\<close>)

lemma route_limited:
  "snd (handle_route R st route rq d) = Inl RateLimitExceeded \<Longrightarrow> route \<in> {Register, Login}"
  by (cases route) (auto simp: password_policy_route_def refresh_route_def logout_route_def current_session_route_def
      delete_account_route_def with_identity_def map_sum_eq_iff split: option.splits sum.splits if_splits)

text \<open>
  C15: every answer has the type its route declares. Whatever a request carries, an answer of the
  application has the route's status of success and a body of exactly the declared fields (none
  for 204), or one of the route's error statuses and a body with a known error code and a known
  description.
\<close>

theorem answers_typed:
  assumes ok: "db_ok (a_db st)" and fw: "framework_ok R" and h: "http R st route rq d = (st', Answer r)"
  shows "well_shaped route r"
proof -
  have a: "answer R (snd (handle_route R st route rq d)) = Answer r" using h by (metis http_parts(2) snd_conv)
  from a [unfolded answer_Answer] consider (model) cs x where "snd (handle_route R st route rq d) = Inr (cs, x)" "r = re_finish R cs x"
    | (limited) "snd (handle_route R st route rq d) = Inl RateLimitExceeded" "r = rate_limit_handler"
    | (error) e where "snd (handle_route R st route rq d) = Inl (ServiceExn (AuthError e))"
        "r = \<lparr>rs_status = err_status e, rs_body = Some (error_json (auth_error_value (err_code e)) (describe_auth (err_code e))),
          rs_cookies = []\<rparr>" by blast
  then show ?thesis
  proof cases
    case model
    with returned_shaped [OF fw] show ?thesis by simp
  next
    case limited
    with route_limited [OF limited(1)] error_shaped [of AUTH_RATE_LIMITED] show ?thesis
      by (auto simp: well_shaped_def rate_limit_handler_def simp del: has_shape.simps)
  next
    case error
    with route_error_status [OF ok error(1)] error_shaped show ?thesis by (auto simp: well_shaped_def simp del: has_shape.simps)
  qed
qed

section \<open>The WebSocket\<close>

definition delivery_words :: "ustr list" where
  "delivery_words = map delivery_status_value [DELIVERED, QUEUED, RECIPIENT_UNAVAILABLE, REJECTED]"

fun message_fields :: "message_type \<Rightarrow> (ustr \<times> shape) list" where
  "message_fields CONNECTION_READY = [(lit ''connection_id'', SText), (lit ''authenticated'', SFlag False),
     (lit ''identity_status'', SWord [lit ''UNAUTHENTICATED'']), (lit ''protocol_version'', SWord [PROTOCOL_VERSION]),
     (lit ''authentication_required'', SFlag True), (lit ''authentication_deadline_seconds'', SNumber),
     (lit ''heartbeat_interval_seconds'', SNumber), (lit ''idle_timeout_seconds'', SNumber), (lit ''max_message_bytes'', SInt)]"
| "message_fields AUTH_READY = [(lit ''message_id'', SText), (lit ''authenticated'', SFlag True), (lit ''user_id'', SText),
     (lit ''username'', SText), (lit ''session_id'', SText),
     (lit ''identity_verification_status'', SWord [lit ''not_implemented'']),
     (lit ''encryption_status'', SWord [lit ''not_implemented''])]"
| "message_fields MESSAGE_RECEIPT = [(lit ''message_id'', SText), (lit ''sender'', SText), (lit ''recipient'', SText),
     (lit ''timestamp'', SText), (lit ''payload'', SObject)]"
| "message_fields MESSAGE_DELIVERY_ACK = [(lit ''message_id'', SText), (lit ''status'', SWord delivery_words)]"
| "message_fields HEARTBEAT_PONG = [(lit ''message_id'', SText), (lit ''server_time'', SText)]"
| "message_fields QUEUE_STATUS = [(lit ''message_id'', SText), (lit ''queued_message_count'', SInt)]"
| "message_fields PROTOCOL_ERROR = [(lit ''code'', SText), (lit ''detail'', SText), (lit ''message_id'', SNullable SText)]"
| "message_fields _ = []"

definition server_types :: "message_type list" where
  "server_types = [CONNECTION_READY, AUTH_READY, MESSAGE_RECEIPT, MESSAGE_DELIVERY_ACK, HEARTBEAT_PONG, QUEUE_STATUS, PROTOCOL_ERROR]"

definition message_shape :: "message_type \<Rightarrow> shape" where
  "message_shape t = SRecord ((lit ''version'', SWord [PROTOCOL_VERSION]) #
     (lit ''type'', SWord [message_type_value t]) # message_fields t)"

lemma dump_shaped: "outbound_type x \<in> set server_types \<and> has_shape (message_shape (outbound_type x)) (dump P x)"
proof (cases x)
  case (DeliveryAck mid s)
  then show ?thesis by (cases s) (simp_all add: dump_def message_shape_def server_types_def delivery_words_def)
qed (auto simp: dump_def message_shape_def server_types_def opt_uuid_json_def split: option.split)

text \<open>
  C17: every message that waits in a reachable state, for a live connection or offline, has
  exactly the fields of one of the seven types that the server sends, of their types, under the
  protocol version; offline there are only messages of the type for another user.
\<close>

theorem messages_typed:
  assumes "limits_ok l" and "db_ok db" and r: "reaches A E (initial c db l) ls s"
  shows "(\<forall>x j. j \<in> set (inbox_of (srv_manager (sys_server s)) x) \<longrightarrow> (\<exists>t \<in> set server_types. has_shape (message_shape t) j)) \<and>
    (\<forall>x j. j \<in> set (held_for (srv_manager (sys_server s)) x) \<longrightarrow> has_shape (message_shape MESSAGE_RECEIPT) j)"
proof -
  have "unbound (initial c db l)" "placed (te_pydantic E) (srv_manager (sys_server (initial c db l)))"
    by (simp_all add: unbound_def placed_def initial_def get_connection_def held_for_def new_manager_def
        waiting_def new_queue_def)
  from reaches_placed [OF r initial_ok [OF assms(1,2)] this] have p: "placed (te_pydantic E) (srv_manager (sys_server s))"
    by blast
  have "\<exists>v. j = dump (te_pydantic E) v" if "j \<in> set (inbox_of (srv_manager (sys_server s)) x)" for x j
  proof (cases "get_connection (srv_manager (sys_server s)) x")
    case (Some c)
    with that have "j \<in> set (aq_items (outbound c))" by (simp add: inbox_of_def get_connection_def)
    from placedD(1) [OF p Some this] show ?thesis by (simp add: fits_def)
  qed (use that in \<open>simp add: inbox_of_def get_connection_def\<close>)
  moreover have "\<exists>v. j = dump (te_pydantic E) v \<and> outbound_type v = MESSAGE_RECEIPT"
    if "j \<in> set (held_for (srv_manager (sys_server s)) x)" for x j
    using placedD(2) [OF p that] by (auto simp: fits_mailbox_def)
  ultimately show ?thesis using dump_shaped by metis
qed

theorem answers_typed_witness:
  "\<exists>st r. http sample_routes alice_state Login (credentials_request ''alice'' ''correct horse battery'') (sample_draw 6 ''t1'') =
      (st, Answer r) \<and> rs_status r = 200 \<and> has_shape credentials_shape_of login_answer_body \<and> well_shaped Login r"
proof -
  note w = answers_typed [OF sample_db_ok(2) sample_routes_ok alice_http_login]
  then have "has_shape credentials_shape_of login_answer_body" by (simp add: well_shaped_def del: has_shape.simps)
  with w alice_http_login show ?thesis by auto
qed

theorem messages_typed_witness:
  "\<exists>s. reaches pocket_env sample_transport demo_start demo_labels s \<and>
     receipt_message \<in> set (held_for (srv_manager (sys_server s)) (lit ''bob'')) \<and>
     has_shape (message_shape MESSAGE_RECEIPT) receipt_message"
proof -
  obtain g where r: "reaches pocket_env sample_transport demo_start demo_labels (demo_end g)" by (rule demo_writing)
  have held: "receipt_message \<in> set (held_for (srv_manager (sys_server (demo_end g))) (lit ''bob''))"
    by (simp add: solo_at_def held_for_def waiting_def bob_box_def)
  with messages_typed [OF demo_start_ok r [unfolded demo_start_def]] r show ?thesis by blast
qed

end
