(* ===== verification/LogPrivacy.thy ===== *)
theory LogPrivacy
  imports Custody
begin

text \<open>
  What the transport writes to its log (\<open>_log\<close> of \<open>endpoint.py\<close>: correlation identifiers and
  status fields, never a payload or a token), as an invariant of the reachable states: every
  field of every record is one of a fixed vocabulary, or an identifier that the server gave out.
\<close>

section \<open>The vocabulary\<close>

definition event_words :: "string list" where
  "event_words = [''message_routed'', ''message_rejected'', ''message_queued'', ''protocol_validation_failed'',
     ''websocket_auth_required'', ''websocket_auth_failure'', ''websocket_auth_success'',
     ''websocket_auth_deadline_expired'', ''websocket_idle_timeout'', ''oversized_message_rejected'',
     ''rate_limit_triggered'', ''websocket_backpressure_close'', ''websocket_rejected'', ''origin_rejected'',
     ''websocket_connected'', ''websocket_disconnected'']"

text \<open>The identifiers given out so far, by the name of the field that may hold them.\<close>

type_synonym given = "string \<Rightarrow> ustr set"

text \<open>The reasons of the transport itself, and those of the token check.\<close>

definition reason_words :: "string list" where
  "reason_words = [''outbound_queue_full'', ''offline_queue_full'', ''sender_mismatch'', ''invalid_json'', ''not_an_object'',
     ''unsupported_version'', ''unknown_type'', ''server_only_type'', ''schema_validation_failed'', ''missing_or_oversized_token'',
     ''access token expired'', ''wrong token type presented'', ''token claims malformed'', ''session no longer exists'',
     ''session revoked'', ''session expired'', ''account no longer exists'', ''account disabled'', ''session/user mismatch'']"

text \<open>The names of the exceptions of the token library.\<close>

definition jwt_names :: "jwt_lib \<Rightarrow> ustr set" where
  "jwt_names J = {n. \<exists>tok secret alg iss aud req now. jwt_decode J tok secret alg iss aud req now = InvalidTokenError n}"

definition reasons :: "jwt_lib \<Rightarrow> ustr set" where
  "reasons J = lit ` set reason_words \<union> range protocol_error_value \<union> range auth_error_value \<union> ((@) (lit ''invalid token: '')) ` jwt_names J"

definition allowed :: "jwt_lib \<Rightarrow> given \<Rightarrow> ustr \<Rightarrow> logval set" where
  "allowed J ids k =
     (if k = lit ''event'' then LStr ` lit ` set event_words
      else if k = lit ''connection_id'' then LStr ` ids ''connection_id''
      else if k = lit ''authenticated'' then range LBool
      else if k = lit ''user_id'' then LStr ` ids ''user_id''
      else if k = lit ''session_id'' then LStr ` ids ''session_id''
      else if k = lit ''message_id'' then range (\<lambda>m. LStr (uuid_str m))
      else if k = lit ''status'' then range (\<lambda>s. LStr (delivery_status_value s))
      else if k = lit ''attempted_type'' then range (\<lambda>t. LStr (message_type_value t))
      else if k \<in> {lit ''size_bytes'', lit ''active_connections''} then range LInt
      else if k = lit ''reason'' then LStr ` reasons J
      else {})"

definition field_ok :: "jwt_lib \<Rightarrow> given \<Rightarrow> ustr \<Rightarrow> logval \<Rightarrow> bool" where
  "field_ok J ids k v \<longleftrightarrow> v \<in> allowed J ids k"

definition record_ok :: "jwt_lib \<Rightarrow> given \<Rightarrow> log_record \<Rightarrow> bool" where
  "record_ok J ids r \<longleftrightarrow> (\<forall>(k, v) \<in> set r. field_ok J ids k v)"

lemma field_ok_mono: "field_ok J ids k v \<Longrightarrow> ids \<le> ids' \<Longrightarrow> field_ok J ids' k v"
  unfolding field_ok_def allowed_def le_fun_def by (auto split: if_splits)

lemma record_ok_mono: "record_ok J ids r \<Longrightarrow> ids \<le> ids' \<Longrightarrow> record_ok J ids' r"
  unfolding record_ok_def using field_ok_mono by blast

lemma log_update_ok:
  assumes "record_ok J ids r" and "\<And>k v. (k, v) \<in> set fs \<Longrightarrow> field_ok J ids (lit k) v"
  shows "record_ok J ids (log_update r fs)"
  using assms
proof (induction fs arbitrary: r)
  case (Cons f fs)
  obtain k v where f: "f = (k, v)" by fastforce
  have "set (dict_set r (lit k) v) \<subseteq> insert (lit k, v) (set r)"
    by (induction r) auto
  then have "record_ok J ids (dict_set r (lit k) v)"
    using Cons.prems f unfolding record_ok_def by fastforce
  then show ?case using Cons.IH Cons.prems(2) by (simp add: f log_update_def)
qed (simp add: log_update_def)

section \<open>Contexts and logs\<close>

definition context_known :: "given \<Rightarrow> connection_context \<Rightarrow> bool" where
  "context_known ids c \<longleftrightarrow> connection_id c \<in> ids ''connection_id'' \<and>
     (\<forall>u. user_id c = Some u \<longrightarrow> u \<in> ids ''user_id'') \<and> (\<forall>u. session_id c = Some u \<longrightarrow> u \<in> ids ''session_id'')"

definition known :: "given \<Rightarrow> manager \<Rightarrow> bool" where
  "known ids m \<longleftrightarrow> (\<forall>x c. get_connection m x = Some c \<longrightarrow> context_known ids c)"

lemma knownD: "known ids m \<Longrightarrow> get_connection m x = Some c \<Longrightarrow> context_known ids c"
  unfolding known_def by blast

lemma known_standing: "context_known ids c \<Longrightarrow> same_standing c c' \<Longrightarrow> context_known ids c'"
  by (simp add: context_known_def same_standing_def)

lemma known_quiet: "known ids m \<Longrightarrow> quiet m m' \<Longrightarrow> known ids m'"
  unfolding known_def
proof (intro allI impI)
  fix x c' assume k: "\<forall>x c. get_connection m x = Some c \<longrightarrow> context_known ids c" and q: "quiet m m'" and c': "get_connection m' x = Some c'"
  from q show "context_known ids c'" by (cases rule: quiet_get [of m m' x]) (use k c' in \<open>auto dest: known_standing\<close>)
qed

definition logs :: "jwt_lib \<Rightarrow> given \<Rightarrow> server \<Rightarrow> server \<Rightarrow> bool" where
  "logs J ids sv sv' \<longleftrightarrow> (\<exists>rs. srv_log sv' = srv_log sv @ rs \<and> (\<forall>r \<in> set rs. record_ok J ids r))"

lemma logs_same: "srv_log sv' = srv_log sv \<Longrightarrow> logs J ids sv sv'"
  by (simp add: logs_def)

lemma logs_trans: "logs J ids a b \<Longrightarrow> logs J ids b c \<Longrightarrow> logs J ids a c"
  unfolding logs_def by (metis Un_iff append_assoc set_append)

lemma ws_record_ok:
  assumes "event \<in> set event_words" and "\<And>c. context = Some c \<Longrightarrow> context_known ids c"
    and "\<And>k v. (k, v) \<in> set fs \<Longrightarrow> field_ok J ids (lit k) v"
  shows "record_ok J ids (ws_record event context fs)"
  unfolding ws_record_def
proof (rule log_update_ok)
  have "field_ok J ids (lit ''event'') (LStr (lit event))" using assms(1) by (simp add: field_ok_def allowed_def)
  moreover have "field_ok J ids (lit ''authenticated'') (LBool b)" for b
    by (simp add: field_ok_def allowed_def)
  moreover have "field_ok J ids (lit ''connection_id'') (LStr (connection_id c))" if "context = Some c" for c
    using assms(2) [OF that] by (simp add: context_known_def field_ok_def allowed_def)
  moreover have "field_ok J ids (lit ''user_id'') (LStr u)" if "context = Some c" "user_id c = Some u" for c u
    using assms(2) [OF that(1)] that(2) by (simp add: context_known_def field_ok_def allowed_def)
  moreover have "field_ok J ids (lit ''session_id'') (LStr u)" if "context = Some c" "session_id c = Some u" for c u
    using assms(2) [OF that(1)] that(2) by (simp add: context_known_def field_ok_def allowed_def)
  ultimately show "record_ok J ids ((lit ''event'', LStr (lit event)) # (case context of None \<Rightarrow> []
       | Some c \<Rightarrow> [(lit ''connection_id'', LStr (connection_id c)), (lit ''authenticated'', LBool (authenticated c))]
           @ (case user_id c of None \<Rightarrow> [] | Some u \<Rightarrow> [(lit ''user_id'', LStr u)])
           @ (case session_id c of None \<Rightarrow> [] | Some s \<Rightarrow> [(lit ''session_id'', LStr s)])))"
    by (auto simp: record_ok_def split: option.split)
qed (rule assms(3))

lemma emit_logs:
  assumes "event \<in> set event_words" and "\<And>c. context = Some c \<Longrightarrow> context_known ids c"
    and "\<And>k v. (k, v) \<in> set fs \<Longrightarrow> field_ok J ids (lit k) v"
  shows "logs J ids sv (emit sv event context fs)"
  using ws_record_ok [OF assms] by (simp add: logs_def emit_def)

text \<open>The fields that occur.\<close>

lemma field_oks [simp]:
  "w \<in> set reason_words \<Longrightarrow> field_ok J ids (lit ''reason'') (LStr (lit w))"
  "field_ok J ids (lit ''reason'') (LStr (protocol_error_value p))"
  "field_ok J ids (lit ''message_id'') (LStr (uuid_str m))"
  "field_ok J ids (lit ''status'') (LStr (delivery_status_value s))"
  "field_ok J ids (lit ''attempted_type'') (LStr (message_type_value t))"
  "field_ok J ids (lit ''size_bytes'') (LInt n)"
  "field_ok J ids (lit ''active_connections'') (LInt n)"
  by (auto simp: field_ok_def allowed_def reasons_def)


section \<open>The turns of a handler\<close>

lemma enqueue_own_log [simp]: "srv_log (fst (enqueue_own sv cid msg)) = srv_log sv"
  by (simp add: enqueue_own_def split: option.split prod.split)

lemma enqueue_responses_log [simp]: "srv_log (fst (enqueue_responses sv cid rs)) = srv_log sv"
proof (induction rs arbitrary: sv)
  case (Cons r rs)
  obtain sv' b where e: "enqueue_own sv cid r = (sv', b)" by fastforce
  then have "srv_log sv' = srv_log sv" using enqueue_own_log [of sv cid r] by simp
  with Cons e show ?case by (cases b) simp_all
qed simp

lemma enqueue_responses_quiet: "quiet (srv_manager sv) (srv_manager (fst (enqueue_responses sv cid rs)))"
proof (induction rs arbitrary: sv)
  case (Cons r rs)
  obtain sv' b where e: "enqueue_own sv cid r = (sv', b)" by fastforce
  then have "quiet (srv_manager sv) (srv_manager sv')" using enqueue_own_quiet [of sv cid r] by simp
  with Cons [of sv'] e quiet_trans show ?case by (cases b) auto
qed simp

lemma logs_emit_own:
  "logs J ids sv sv' \<Longrightarrow> logs J ids sv (fst (enqueue_own sv' cid msg))"
  by (simp add: logs_def)

lemma finish_logs:
  assumes "known ids (srv_manager sv)"
  shows "logs J ids sv (fst (finish_frame sv cid rs))"
proof -
  obtain sv' b where e: "enqueue_responses sv cid rs = (sv', b)" by fastforce
  from e known_quiet [OF assms enqueue_responses_quiet [of sv cid rs]] have k: "known ids (srv_manager sv')" by simp
  have "logs J ids sv sv'" using e enqueue_responses_log [of sv cid rs] by (simp add: logs_same)
  moreover have "logs J ids sv' (emit sv' ''websocket_backpressure_close'' (get_connection (srv_manager sv') cid) [])"
    by (rule emit_logs) (use knownD [OF k] in \<open>auto simp: event_words_def\<close>)
  ultimately show ?thesis using e logs_trans by (cases b) (auto simp: finish_frame_def)
qed

lemma logs_emit_with:
  assumes "logs J ids a b" and "event \<in> set event_words" and "context_known ids c"
    and "\<And>k v. (k, v) \<in> set fs \<Longrightarrow> field_ok J ids (lit k) v"
  shows "logs J ids a (emit b event (Some c) fs)"
  by (rule logs_trans [OF assms(1) emit_logs]) (use assms(2,3,4) in auto)

lemma logs_record:
  assumes "context_known ids c" and "srv_log b = srv_log a" and "event \<in> set event_words"
    and "\<And>k v. (k, v) \<in> set fs \<Longrightarrow> field_ok J ids (lit k) v"
  shows "logs J ids a (emit b event (Some c) fs)"
  by (rule logs_emit_with [OF logs_same [OF assms(2)] assms(3,1,4)])

lemma route_logs:
  assumes "context_known ids c"
  shows "logs J ids sv (fst (route_message E sv c e rcp))"
proof -
  have st: "logs J ids sv (emit sv' w (Some c) [message_field e, (''status'', LStr (delivery_status_value d))])"
    if "srv_log sv' = srv_log sv" "w \<in> set event_words" for sv' w d
    by (rule logs_record [OF assms that]) (use field_oks(4) [of J ids d] in \<open>auto simp: message_field_def\<close>)
  have re: "logs J ids sv (emit sv' ''message_rejected'' (Some c) [message_field e, (''reason'', LStr (lit w))])"
    if "srv_log sv' = srv_log sv" "w \<in> set reason_words" for sv' w
    by (rule logs_record [OF assms that(1)]) (use that(2) in \<open>auto simp: message_field_def event_words_def\<close>)
  show ?thesis
    using st [of "sv\<lparr>srv_manager := m\<rparr>" "''message_routed''" DELIVERED for m]
      st [of "sv\<lparr>srv_manager := m\<rparr>" "''message_queued''" QUEUED for m]
      re [of "sv\<lparr>srv_manager := m\<rparr>" "''outbound_queue_full''" for m]
      re [of "sv\<lparr>srv_manager := m\<rparr>" "''offline_queue_full''" for m]
    by (simp add: route_message_def Let_def event_words_def reason_words_def split: prod.split bool.split)
qed

lemma privileged_logs:
  assumes "context_known ids c"
  shows "logs J ids sv (fst (handle_privileged E sv c e))"
proof -
  obtain sv' st where r: "route_message E sv c e (the (recipient e)) = (sv', st)" by fastforce
  have "logs J ids sv sv'" using route_logs [OF assms, of J sv E e "the (recipient e)"] r by simp
  moreover have "logs J ids sv (emit sv ''message_rejected'' (Some c)
      [message_field e, (''reason'', LStr (lit ''sender_mismatch''))])"
    by (rule logs_emit_with [OF logs_same _ assms]) (auto simp: event_words_def message_field_def reason_words_def)
  ultimately show ?thesis
    using r by (auto simp: handle_privileged_def handle_message_send_def logs_same split: option.split)
qed

lemma validate_logs:
  assumes "context_known ids c"
  shows "logs J ids sv (fst (validate_inbound E sv c raw))"
proof -
  have f: "logs J ids sv (validation_failed sv c w)" if "w \<in> set reason_words" for w
    unfolding validation_failed_def
    by (rule logs_record [OF assms refl]) (use that in \<open>auto simp: event_words_def\<close>)
  have g: "logs J ids sv (emit sv ''websocket_auth_required'' (Some c) [(''attempted_type'', LStr (message_type_value t))])" for t
    by (rule logs_record [OF assms refl]) (use field_oks(5) [of J ids t] in \<open>auto simp: event_words_def\<close>)
  have s: "logs J ids sv sv" by (simp add: logs_same)
  show ?thesis
    using f [of "''invalid_json''"] f [of "''not_an_object''"] f [of "''unsupported_version''"] f [of "''unknown_type''"]
      f [of "''server_only_type''"] f [of "''schema_validation_failed''"] g s
    by (simp add: validate_inbound_def Let_def reason_words_def split: sum.split json_error.split option.split)
qed

lemma auth_begin_logs:
  assumes "context_known ids c"
  shows "logs J ids sv (fst (auth_begin E sv c e))"
proof -
  have "logs J ids sv (emit sv ''websocket_auth_failure'' (Some c)
      [(''reason'', LStr (lit ''missing_or_oversized_token''))])"
    by (rule logs_record [OF assms refl]) (auto simp: event_words_def reason_words_def)
  moreover have "logs J ids sv sv" by (simp add: logs_same)
  ultimately show ?thesis by (simp add: auth_begin_def split: option.split)
qed

lemma dispatch_logs:
  assumes "context_known ids c" and k: "known ids (srv_manager sv)" and ok: "manager_ok (srv_manager sv)"
    and c: "get_connection (srv_manager sv) cid = Some c"
  shows "logs J ids sv (fst (dispatch E sv cid c e wall_now))"
proof -
  obtain sv1 r where a: "auth_begin E sv c e = (sv1, r)" by fastforce
  have l1: "logs J ids sv sv1" using auth_begin_logs [OF assms(1), of J sv E e] a by simp
  have k1: "known ids (srv_manager sv1)" using auth_begin_manager [of E sv c e] a k by simp
  obtain sv2 rs where h: "handle_privileged E sv c e = (sv2, rs)" by fastforce
  have l2: "logs J ids sv sv2" using privileged_logs [OF assms(1), of J sv E e] h by simp
  have k2: "known ids (srv_manager sv2)"
    using known_quiet [OF k turn_okD(2) [OF handle_privileged_turn(1) [OF ok h]]] .
  show ?thesis
    using a h logs_trans [OF l1 finish_logs [OF k1]] logs_trans [OF l2 finish_logs [OF k2]] finish_logs [OF k] l1
    by (simp add: dispatch_def split: sum.split)
qed

text \<open>What the token check can give as a reason.\<close>

lemma no_auth_error [simp]:
  "claim_int U j \<noteq> Inl (AuthError x)" "claim_time U v \<noteq> Inl (AuthError x)"
  "session_get load db sid \<noteq> Inl (AuthError x)" "get_by_id load db uid \<noteq> Inl (AuthError x)"
  "is_usable s now \<noteq> Inl (AuthError x)"
proof -
  show c: "claim_int U j \<noteq> Inl (AuthError x)" for j
    by (auto simp: claim_int_def split: json.split pyfloat.split option.split)
  show "claim_time U v \<noteq> Inl (AuthError x)"
    using c by (auto simp: claim_time_def split: option.split sum.split)
  have "scalar_one_or_none xs \<noteq> Inl (AuthError x)" for xs :: "'a list"
    by (simp add: scalar_one_or_none_def split: list.split)
  then show "session_get load db sid \<noteq> Inl (AuthError x)" "get_by_id load db uid \<noteq> Inl (AuthError x)"
    by (auto simp: session_get_def get_by_id_def)
  show "is_usable s now \<noteq> Inl (AuthError x)"
    by (simp add: is_usable_def split: option.split)
qed

lemma reason_raised:
  assumes "auth_raise code (lit w) = AuthError x \<or> auth_raise_status code st (lit w) = AuthError x"
    and "w \<in> set reason_words"
  shows "failure_reason x \<in> reasons J"
proof -
  have "err_reason x = Some (lit w)" using assms(1) by (auto simp: auth_raise_def auth_raise_status_def)
  then show ?thesis using assms(2) by (cases w) (auto simp: failure_reason_def reasons_def)
qed

lemma decode_reasons:
  assumes "decode_access_token J U c t tok = Inl (AuthError x)"
  shows "failure_reason x \<in> reasons J"
proof (cases "jwt_decode J tok (signing_secret c) (algorithm c) (issuer c) (audience c) required_claims t")
  case (InvalidTokenError n)
  then have "n \<in> jwt_names J" unfolding jwt_names_def by blast
  then show ?thesis
    using assms InvalidTokenError by (auto simp: decode_access_token_def auth_raise_def failure_reason_def reasons_def)
next
  case ExpiredSignatureError
  with assms show ?thesis
    by (intro reason_raised [of AUTH_TOKEN_EXPIRED "''access token expired''" _ 0])
       (auto simp: decode_access_token_def reason_words_def)
next
  case (JwtClaims pl)
  then have "auth_raise AUTH_TOKEN_INVALID (lit ''wrong token type presented'') = AuthError x \<or>
      auth_raise AUTH_TOKEN_INVALID (lit ''token claims malformed'') = AuthError x"
    using assms by (auto simp: decode_access_token_def split: if_splits option.splits sum.splits)
  then show ?thesis
    using reason_raised [of AUTH_TOKEN_INVALID "''wrong token type presented''" x 0 J]
      reason_raised [of AUTH_TOKEN_INVALID "''token claims malformed''" x 0 J] by (auto simp: reason_words_def)
qed (use assms in \<open>simp add: decode_access_token_def\<close>)

lemma resolve_reasons:
  assumes "resolve_access_token A db t now tok = Inl (AuthError x)"
  shows "failure_reason x \<in> reasons (e_jwt A)"
proof -
  have "decode_access_token (e_jwt A) (e_unicode A) (e_config A) t tok = Inl (AuthError x) \<or>
    (\<exists>w \<in> set reason_words. \<exists>code st. auth_raise code (lit w) = AuthError x \<or> auth_raise_status code st (lit w) = AuthError x)"
    using assms
    by (auto simp: resolve_access_token_def revoked_reason_def reason_words_def
        split: if_splits option.splits sum.splits bool.splits)
  then show ?thesis using decode_reasons reason_raised by blast
qed

lemma recv_frame_logs:
  assumes ok: "manager_ok (srv_manager sv)" and k: "known ids (srv_manager sv)"
  shows "logs J ids sv (fst (recv_frame E sv cid raw now wall_now))"
proof (cases "get_connection (srv_manager sv) cid")
  case None
  then show ?thesis by (simp add: recv_frame_def logs_same)
next
  case (Some c)
  let ?m = "srv_manager sv" and ?c = "touch c now"
  obtain l b where a: "allow (limiter c) now = (l, b)" by fastforce
  let ?m1 = "with_context ?m cid (\<lambda>_. ?c)" and ?c2 = "?c\<lparr>limiter := l\<rparr>"
  let ?m2 = "with_context ?m1 cid (\<lambda>_. ?c2)"
  note tl = touch_limiter [OF connection_ok(2) [OF ok Some] a]
  have c1: "get_connection ?m1 cid = Some ?c" using Some by (simp add: get_connection_def with_context_get)
  have t1: "turn_ok ?m ?m1 {}" by (rule with_context_turn [OF ok Some tl(3)]) (use tl in simp_all)
  have t2: "turn_ok ?m1 ?m2 {}"
    by (rule with_context_turn [OF turn_okD(1) [OF t1] c1 tl(4)]) (use tl in simp_all)
  have k2: "known ids ?m2" using known_quiet [OF known_quiet [OF k turn_okD(2) [OF t1]] turn_okD(2) [OF t2]] .
  have c2: "get_connection ?m2 cid = Some ?c2" using c1 by (simp add: get_connection_def with_context_get)
  have kc: "context_known ids ?c" using known_standing [OF knownD [OF k Some] tl(3)] .
  have kc2: "context_known ids ?c2" using known_standing [OF kc tl(4)] .
  let ?sv2 = "sv\<lparr>srv_manager := ?m2\<rparr>"
  obtain sv3 v where v: "validate_inbound E ?sv2 ?c2 raw = (sv3, v)" by fastforce
  have m3: "srv_manager sv3 = ?m2" using validate_inbound_manager [of E ?sv2 ?c2 raw] v by simp
  have l3: "logs J ids sv sv3"
    using logs_trans [OF logs_same validate_logs [OF kc2, of J ?sv2 E raw], of sv] v by simp
  have "logs J ids sv (fst (finish_frame sv3 cid rs))" for rs
    using logs_trans [OF l3 finish_logs] k2 m3 by simp
  moreover have "logs J ids sv (fst (dispatch E sv3 cid ?c2 e wall_now))" for e
    using logs_trans [OF l3 dispatch_logs [OF kc2]] k2 m3 turn_okD(1) [OF t2] c2 by simp
  moreover have "logs J ids sv (fst (enqueue_own (emit sv' w (Some c') fs) cid msg))"
    if "srv_log sv' = srv_log sv" "context_known ids c'" "w \<in> set event_words"
      "\<And>k v. (k, v) \<in> set fs \<Longrightarrow> field_ok J ids (lit k) v" for sv' w c' fs msg
    by (rule logs_emit_own [OF logs_record [OF that(2,1,3,4)]])
  moreover from this [of "sv\<lparr>srv_manager := ?m1\<rparr>" ?c "''oversized_message_rejected''"
      "[(''size_bytes'', LInt (int (length raw)))]"] kc
  have "logs J ids sv (fst (enqueue_own (emit (sv\<lparr>srv_manager := ?m1\<rparr>) ''oversized_message_rejected'' (Some ?c)
      [(''size_bytes'', LInt (int (length raw)))]) cid msg))" for msg
    by (simp add: event_words_def)
  moreover from calculation(3) [of ?sv2 ?c2 "''rate_limit_triggered''" "[]"] kc2
  have "logs J ids sv (fst (enqueue_own (emit ?sv2 ''rate_limit_triggered'' (Some ?c2) []) cid msg))" for msg
    by (simp add: event_words_def)
  ultimately show ?thesis
    using Some v a tl(6) l3
    by (simp add: recv_frame_def Let_def logs_same split: option.split verdict.split)
qed

lemma recv_timeout_logs:
  assumes k: "known ids (srv_manager sv)"
  shows "logs J ids sv (fst (recv_timeout E sv cid))"
proof (cases "get_connection (srv_manager sv) cid")
  case None
  then show ?thesis by (simp add: recv_timeout_def logs_same)
next
  case (Some c)
  have "logs J ids sv (fst (enqueue_own (emit sv w (Some c) []) cid msg))" if "w \<in> set event_words" for w msg
    by (rule logs_emit_own [OF logs_record [OF knownD [OF k Some] refl that]]) simp
  then show ?thesis using Some by (simp add: recv_timeout_def event_words_def)
qed

lemma known_bound:
  assumes k: "known ids m" and i: "\<And>i. res = Inr i \<Longrightarrow> ai_user_id i \<in> ids ''user_id'' \<and> ai_session_id i \<in> ids ''session_id''"
  shows "known ids (bound m cid res)"
proof (cases res)
  case (Inl x)
  with k show ?thesis by (simp add: bound_def)
next
  case (Inr y)
  show ?thesis
    unfolding known_def
  proof (intro allI impI)
    fix x c' assume c': "get_connection (bound m cid res) x = Some c'"
    show "context_known ids c'"
    proof (cases "x = cid")
      case True
      then obtain c where c: "get_connection m cid = Some c"
        and e: "c' = authenticate c (ai_user_id y) (ai_username y) (ai_session_id y)"
        using c' by (auto simp: Inr bound_def get_connection_def bind_identity_get)
      show ?thesis using knownD [OF k c] i [OF Inr] by (simp add: e context_known_def authenticate_def)
    next
      case False
      then show ?thesis using c' knownD [OF k] by (simp add: bound_other)
    qed
  qed
qed

lemma auth_finish_logs:
  assumes ok: "manager_ok (srv_manager sv)" and k: "known ids (srv_manager sv)"
    and i: "\<And>i. res = Inr i \<Longrightarrow> ai_user_id i \<in> ids ''user_id'' \<and> ai_session_id i \<in> ids ''session_id''"
    and x: "\<And>x. res = Inl (AuthError x) \<Longrightarrow> failure_reason x \<in> reasons J"
  shows "logs J ids sv (fst (auth_finish E sv cid e res))"
proof (cases res)
  case (Inl y)
  show ?thesis
  proof (cases "\<exists>a. y = AuthError a")
    case True
    then obtain a where a: "y = AuthError a" by blast
    let ?sv = "emit sv ''websocket_auth_failure'' (get_connection (srv_manager sv) cid)
        [(''reason'', LStr (failure_reason a))]"
    have "field_ok J ids (lit ''reason'') (LStr (failure_reason a))"
      using x [of a] Inl a by (simp add: field_ok_def allowed_def)
    then have "logs J ids sv ?sv"
      by (intro emit_logs) (use knownD [OF k] in \<open>auto simp: event_words_def\<close>)
    from logs_trans [OF this finish_logs] k show ?thesis by (simp add: auth_finish_def Inl a)
  next
    case False
    then have "auth_finish E sv cid e res = (sv, Raised (AuthException y))"
      by (cases y) (simp_all add: auth_finish_def Inl)
    then show ?thesis by (simp add: logs_same)
  qed
next
  case (Inr y)
  let ?m1 = "bind_identity (srv_manager sv) cid (ai_user_id y) (ai_username y) (ai_session_id y)"
  have k1: "known ids ?m1" using known_bound [OF k, of res cid] i by (simp add: Inr bound_def)
  let ?sv1 = "emit (sv\<lparr>srv_manager := ?m1\<rparr>) ''websocket_auth_success'' (get_connection ?m1 cid) []"
  have "logs J ids (sv\<lparr>srv_manager := ?m1\<rparr>) ?sv1"
    by (rule emit_logs) (use knownD [OF k1] in \<open>auto simp: event_words_def\<close>)
  then have "logs J ids sv (?sv1\<lparr>srv_manager := ?m1\<lparr>offline_queue := q\<rparr>\<rparr>)" for q by (simp add: logs_def)
  moreover have "known ids (?m1\<lparr>offline_queue := q\<rparr>)" for q using known_quiet [OF k1 quiet_queue] .
  ultimately have "logs J ids sv (fst (finish_frame (?sv1\<lparr>srv_manager := ?m1\<lparr>offline_queue := q\<rparr>\<rparr>) cid rs))" for q rs
    by (intro logs_trans [OF _ finish_logs]) simp_all
  then show ?thesis by (simp add: auth_finish_def Inr Let_def split: prod.split)
qed

section \<open>The upgrade and the end of a connection\<close>

lemma ws_connect_logs: "logs J ids sv (fst (ws_connect sv origin host now wnow anon cid))"
proof -
  have rej: "logs J ids sv (fst (reject_upgrade sv' code x))" if "logs J ids sv sv'" for sv' code x
    unfolding reject_upgrade_def fst_conv
    by (rule logs_trans [OF that emit_logs]) (auto simp: event_words_def)
  have org: "logs J ids sv (emit sv ''origin_rejected'' None [])"
    by (rule emit_logs) (auto simp: event_words_def)
  obtain m r where "register (srv_manager sv) (lit ''anon-'' @ anon) host now wnow cid = (m, r)" by fastforce
  with rej [OF org] rej [OF logs_same, of "sv\<lparr>srv_manager := m\<rparr>"] show ?thesis
    by (cases r) (simp_all add: ws_connect_def logs_same case_prod_beta)
qed

lemma ws_accepted_logs:
  assumes "known ids (srv_manager sv)"
  shows "logs J ids sv (ws_accepted E sv cid)"
  unfolding ws_accepted_def
  by (intro logs_emit_own emit_logs) (use knownD [OF assms] in \<open>auto simp: event_words_def\<close>)

lemma close_end_logs:
  assumes "known ids (srv_manager sv)"
  shows "logs J ids sv (close_end sv cid w)"
proof -
  obtain m c where u: "unregister (srv_manager sv) cid = (m, c)" by fastforce
  then have "c = map_option mark_closing (get_connection (srv_manager sv) cid)"
    by (auto simp: unregister_def get_connection_def Let_def split: option.splits)
  then have "context_known ids k" if "c = Some k" for k
    using that knownD [OF assms] by (fastforce simp: context_known_def mark_closing_def)
  then have "logs J ids (sv\<lparr>srv_manager := m\<rparr>) (emit (sv\<lparr>srv_manager := m\<rparr>) ''websocket_disconnected'' c
      [(''active_connections'', LInt (connection_count m))])"
    by (intro emit_logs) (auto simp: event_words_def)
  then show ?thesis using u by (simp add: close_end_def logs_def)
qed

section \<open>Every reachable state\<close>

text \<open>The identifiers given out in a run.\<close>

definition joined :: "label list \<Rightarrow> ustr set" where
  "joined ls = {cid. \<exists>origin host now wnow anon. LConnect origin host now wnow anon cid \<in> set ls}"

definition given_out :: "auth_env \<Rightarrow> transport_env \<Rightarrow> system \<Rightarrow> label list \<Rightarrow> given" where
  "given_out A E s0 ls f = (if f = ''connection_id'' then joined ls
     else if f = ''user_id'' then (\<lambda>(cid, i). ai_user_id i) ` identities A E s0 ls
     else if f = ''session_id'' then (\<lambda>(cid, i). ai_session_id i) ` identities A E s0 ls else {})"

lemma joined_Cons: "joined (l # ls) = joined [l] \<union> joined ls"
proof
  show "joined (l # ls) \<subseteq> joined [l] \<union> joined ls" by (auto simp: joined_def)
  show "joined [l] \<union> joined ls \<subseteq> joined (l # ls)" unfolding joined_def list.set by blast
qed

lemma given_out_mono: "given_out A E s0 ls \<le> given_out A E s0 (l # ls)"
  by (auto simp: given_out_def le_fun_def joined_def)

lemma known_accounted:
  assumes "accounted m (identities A E s0 ls)" and "manager_ok m"
    and "\<And>x. get_connection m x \<noteq> None \<Longrightarrow> x \<in> joined ls"
  shows "known (given_out A E s0 ls) m"
  unfolding known_def
proof (intro allI impI)
  fix x c assume c: "get_connection m x = Some c"
  note ok = connection_ok [OF assms(2) c]
  show "context_known (given_out A E s0 ls) c"
  proof (cases "authenticated c")
    case True
    with accountedD(1) [OF assms(1) c] assms(3) [of x] c ok(1) show ?thesis
      by (force simp: context_known_def holds_def given_out_def)
  next
    case False
    with ok assms(3) [of x] c show ?thesis by (simp add: context_known_def context_ok_def given_out_def)
  qed
qed

lemma new_handler_joined:
  assumes "sys_step A E l s = Some s'" and "dict_get (sys_handlers s) x = None"
    and "dict_get (sys_handlers s') x \<noteq> None"
  shows "x \<in> joined [l]"
  using assms
  by (cases l) (auto dest: after_turn_handlers(2) [rotated] acceptingD simp: joined_def receiving_def
      split: option.splits if_splits prod.splits sum.splits phase.splits)

lemma step_joined:
  assumes st: "sys_step A E l s = Some s'" and "manager_ok (srv_manager (sys_server s))" and "handlers_ok s"
    and "get_connection (srv_manager (sys_server s')) x \<noteq> None"
  shows "get_connection (srv_manager (sys_server s)) x \<noteq> None \<or> x \<in> joined [l]"
  using assms(1-3)
proof (cases rule: step_shape)
  case (joined cid)
  have "cid \<in> LogPrivacy.joined [l]" by (rule new_handler_joined [OF st joined(2)]) (simp add: joined(5))
  with joined(4) [of x] assms(4) show ?thesis by (cases "x = cid") auto
next
  case (turn cid hn sv t r)
  then show ?thesis
    using assms(4) after_turn_get(1) [OF turn(3), of s cid hn t x] quiet_present [OF turn(4), of x] by auto
next
  case (writer cid hn w)
  show ?thesis using assms(4) quiet_present [OF writer(3), of x] by simp
next
  case (accepted cid hn)
  show ?thesis using assms(4) quiet_present [OF accepted(3), of x] by simp
qed (use assms(4) in \<open>auto split: if_splits\<close>)

lemma reaches_known:
  assumes "reaches A E s0 ls s" and "sys_ok A E s0 [] s0"
    and "\<And>x. get_connection (srv_manager (sys_server s0)) x = None"
  shows "known (given_out A E s0 ls) (srv_manager (sys_server s))"
proof (rule known_accounted)
  from reaches_ok [OF assms(1,2)] show "accounted (srv_manager (sys_server s)) (identities A E s0 ls)"
    "manager_ok (srv_manager (sys_server s))" by (simp_all add: sys_ok_def)
  show "x \<in> joined ls" if "get_connection (srv_manager (sys_server s)) x \<noteq> None" for x
    using assms(1) that
  proof (induction rule: reaches.induct)
    case start
    with assms(3) show ?case by simp
  next
    case (step ls s l s')
    note ok = sys_okD [OF reaches_ok [OF step.hyps(1) assms(2)]]
    from step_joined [OF step.hyps(2) ok(1,3) step.prems] step.IH joined_Cons [of l ls] show ?case by blast
  qed
qed

lemma after_turn_log [simp]: "srv_log (sys_server (after_turn s cid h (sv, t))) = srv_log sv"
  by (cases t) (simp_all add: after_turn_def close_begin_def)

text \<open>What a handler holds after the token check is a result of the token check.\<close>

definition explained :: "jwt_lib \<Rightarrow> (ustr, handler) dict \<Rightarrow> bool" where
  "explained J hs \<longleftrightarrow> (\<forall>x h e y. dict_get hs x = Some h \<longrightarrow> h_phase h = Resolved e (Inl (AuthError y)) \<longrightarrow>
     failure_reason y \<in> reasons J)"

lemma explained_set:
  assumes "explained J hs" and "\<And>e y. h_phase h = Resolved e (Inl (AuthError y)) \<Longrightarrow> failure_reason y \<in> reasons J"
  shows "explained J (dict_set hs x h)"
  using assms unfolding explained_def by auto

lemma explained_del: "explained J hs \<Longrightarrow> explained J (dict_del hs x)"
  unfolding explained_def by (auto split: if_splits)

lemma explained_turn: "explained J (sys_handlers s) \<Longrightarrow> explained J (sys_handlers (after_turn s cid h r))"
  by (cases r; cases "snd r") (auto simp: after_turn_def intro: explained_set)

lemma step_explained:
  assumes st: "sys_step A E l s = Some s'" and e: "explained (e_jwt A) (sys_handlers s)"
  shows "explained (e_jwt A) (sys_handlers s')"
proof (cases l)
  case (LResolve cid t now)
  with st obtain h en tok where "h_phase h = Resolving en tok" and s': "s' = s\<lparr>sys_handlers := dict_set (sys_handlers s) cid
      (h\<lparr>h_phase := Resolved en (resolve_access_token A (a_db (sys_auth s)) t now tok)\<rparr>)\<rparr>"
    by (auto split: option.splits phase.splits)
  show ?thesis unfolding s' by (auto intro!: explained_set [OF e] dest: resolve_reasons)
next
  case (LBind cid)
  with st e show ?thesis by (auto intro: explained_turn split: option.splits phase.splits)
next
  case (LWrite cid r)
  with st e show ?thesis by (auto simp: explained_def split: option.splits if_splits)
qed (use st e in \<open>auto intro!: explained_turn explained_set explained_del split: option.splits if_splits prod.splits sum.splits phase.splits\<close>)

lemma reaches_explained:
  assumes "reaches A E s0 ls s" and "sys_handlers s0 = []"
  shows "explained (e_jwt A) (sys_handlers s)"
  using assms by (induction rule: reaches.induct) (auto simp: explained_def [of _ "[]"] dest: step_explained)

lemma step_logs:
  assumes st: "sys_step A E l s = Some s'" and ok: "manager_ok (srv_manager (sys_server s))"
    and k: "known ids (srv_manager (sys_server s))"
    and i: "\<And>cid i. (cid, i) \<in> pending (sys_handlers s) \<Longrightarrow> ai_user_id i \<in> ids ''user_id'' \<and> ai_session_id i \<in> ids ''session_id''"
    and x: "explained (e_jwt A) (sys_handlers s)"
  shows "logs (e_jwt A) ids (sys_server s) (sys_server s')"
proof -
  let ?sv = "sys_server s"
  have turn: "logs (e_jwt A) ids ?sv (sys_server (after_turn s cid h r))" if "logs (e_jwt A) ids ?sv (fst r)" for cid h r
    using that by (cases r) (simp add: logs_def)
  show ?thesis
  proof (cases l)
    case (LAuth op)
    with st show ?thesis by (auto simp: logs_same)
  next
    case (LConnect origin host now wnow anon cid)
    with st ws_connect_logs [where ids = ids and J = "e_jwt A" and sv = ?sv and origin = origin
        and host = host and now = now and wnow = wnow and anon = anon and cid = cid]
    show ?thesis by (auto split: if_splits prod.splits sum.splits)
  next
    case (LAccepted cid)
    with st ws_accepted_logs [OF k] show ?thesis by (auto split: if_splits)
  next
    case (LAcceptFailed cid)
    with st show ?thesis by (auto simp: logs_same split: if_splits)
  next
    case (LFrame cid raw now wnow)
    with st turn [OF recv_frame_logs [OF ok k]] show ?thesis by auto
  next
    case (LResolve cid t now)
    with st show ?thesis by (auto simp: logs_same split: option.splits phase.splits)
  next
    case (LBind cid)
    with st obtain h e res where h: "dict_get (sys_handlers s) cid = Some h" "h_phase h = Resolved e res"
      and s': "s' = after_turn s cid h (auth_finish E ?sv cid e res)"
      by (auto split: option.splits phase.splits)
    then have "(cid, y) \<in> pending (sys_handlers s)" if "res = Inr y" for y
      using that by (auto simp: pending_def)
    with i have "ai_user_id y \<in> ids ''user_id'' \<and> ai_session_id y \<in> ids ''session_id''" if "res = Inr y" for y
      using that by blast
    moreover have "failure_reason y \<in> reasons (e_jwt A)" if "res = Inl (AuthError y)" for y
      using x h that unfolding explained_def by blast
    ultimately show ?thesis unfolding s' by (intro turn auth_finish_logs [OF ok k]) blast+
  next
    case (LTimeout cid)
    with st turn [OF recv_timeout_logs [OF k]] show ?thesis by auto
  next
    case (LDisconnect cid)
    with st turn [OF logs_same] show ?thesis by (auto simp: recv_disconnect_def)
  next
    case (LWrite cid r)
    then obtain sv msg w where w: "writer_turn ?sv cid r = Some (sv, msg, w)" and "sys_server s' = sv"
      using st by (auto split: option.splits if_splits)
    moreover from w have "srv_log sv = srv_log ?sv"
      by (auto simp: writer_turn_def Let_def split: option.splits send_result.splits)
    ultimately show ?thesis by (simp add: logs_same)
  next
    case (LClose cid)
    with st close_end_logs [OF k] show ?thesis by (auto split: option.splits phase.splits)
  qed
qed

lemma reaches_logs:
  assumes "reaches A E s0 ls s" and init: "sys_ok A E s0 [] s0" and hs: "sys_handlers s0 = []"
    and none: "\<And>x. get_connection (srv_manager (sys_server s0)) x = None" and "srv_log (sys_server s0) = []"
    and "r \<in> set (srv_log (sys_server s))"
  shows "record_ok (e_jwt A) (given_out A E s0 ls) r"
  using assms(1,6)
proof (induction rule: reaches.induct)
  case start
  with assms(5) show ?case by simp
next
  case (step ls s l s')
  let ?g = "given_out A E s0 (l # ls)"
  note ok = reaches_ok [OF step.hyps(1) init]
  have "known ?g (srv_manager (sys_server s))"
    using reaches_known [OF step.hyps(1) init none] given_out_mono unfolding known_def context_known_def le_fun_def by blast
  moreover have "ai_user_id i \<in> ?g ''user_id'' \<and> ai_session_id i \<in> ?g ''session_id''"
    if "(cid, i) \<in> pending (sys_handlers s)" for cid i
    using that ok by (force simp: sys_ok_def given_out_def)
  ultimately have "logs (e_jwt A) ?g (sys_server s) (sys_server s')"
    using step_logs [OF step.hyps(2) sys_okD(1) [OF ok] _ _ reaches_explained [OF step.hyps(1) hs]] by blast
  with step.prems step.IH record_ok_mono [OF _ given_out_mono] show ?case unfolding logs_def by auto
qed

text \<open>
  C21: the transport's log never shows what was said. In every reachable state each field of each
  record holds a word of a fixed vocabulary, a flag, a number, the id of a message, or an
  identifier that the server itself gave out in this run: a connection id it registered, a
  user or session id that a token resolved to. No payload, no token, no name occurs, whatever
  the clients send; a reason is one of the listed ones or the name of an exception of the token
  library.
\<close>

theorem log_vocabulary:
  assumes "limits_ok l" and "db_ok db" and "reaches A E (initial c db l) ls s"
    and "r \<in> set (srv_log (sys_server s))" and "(k, v) \<in> set r"
  shows "v \<in> allowed (e_jwt A) (given_out A E (initial c db l) ls) k"
proof -
  have "get_connection (srv_manager (sys_server (initial c db l))) x = None" for x
    by (simp add: initial_def new_manager_def get_connection_def)
  from reaches_logs [OF assms(3) initial_ok [OF assms(1,2)] _ this] assms(4,5)
  show ?thesis by (auto simp: initial_def record_ok_def field_ok_def)
qed

theorem log_vocabulary_witness:
  "\<exists>s r. reaches pocket_env sample_transport demo_start
       [LConnect (Some (lit ''evil'')) None 0 (utc 0) (lit ''c1'') (lit ''c1'')] s \<and>
     r \<in> set (srv_log (sys_server s)) \<and> (lit ''reason'', LStr (lit ''WS_1010_ORIGIN_REJECTED'')) \<in> set r \<and>
     LStr (lit ''WS_1010_ORIGIN_REJECTED'') \<in> allowed (e_jwt pocket_env) (given_out pocket_env sample_transport demo_start
       [LConnect (Some (lit ''evil'')) None 0 (utc 0) (lit ''c1'') (lit ''c1'')]) (lit ''reason'')"
proof -
  let ?l = "LConnect (Some (lit ''evil'')) None 0 (utc 0) (lit ''c1'') (lit ''c1'')"
  let ?r = "ws_record ''websocket_rejected'' None [(''reason'', LStr (lit ''WS_1010_ORIGIN_REJECTED''))]"
  let ?s = "demo_start\<lparr>sys_server := emit (emit (sys_server demo_start) ''origin_rejected'' None [])
      ''websocket_rejected'' None [(''reason'', LStr (lit ''WS_1010_ORIGIN_REJECTED''))]\<rparr>"
  have "sys_step pocket_env sample_transport ?l demo_start = Some ?s"
    by (simp add: demo_start_def initial_def new_manager_def get_connection_def ws_connect_def is_origin_allowed_def
        transport_limits_defaults_def default_origins_def reject_upgrade_def)
  from reaches.step [OF reaches.start this] have run: "reaches pocket_env sample_transport demo_start [?l] ?s" .
  moreover have r: "?r \<in> set (srv_log (sys_server ?s))" by (simp add: emit_def)
  moreover have f: "(lit ''reason'', LStr (lit ''WS_1010_ORIGIN_REJECTED'')) \<in> set ?r"
    by (simp add: ws_record_def log_update_def)
  ultimately show ?thesis
    using log_vocabulary [OF demo_start_ok run [unfolded demo_start_def] r [unfolded demo_start_def] f]
    unfolding demo_start_def by blast
qed

end
