(* ===== verification/RefreshTokens.thy ===== *)
theory RefreshTokens
  imports AuthProps
begin

text \<open>
  Refresh tokens: how \<open>TokenService.generate_refresh_token\<close> makes them out of random bytes, and
  \<open>AuthService.refresh\<close> cut in two at its database calls, so that refreshes and logouts can
  overlap.
\<close>

section \<open>Random bytes as text\<close>

text \<open>
  \<open>secrets.token_urlsafe\<close>: the URL-safe base 64 of so many random bytes without the padding.
  Three bytes are four digits; one or two bytes left over are two or three.
\<close>

definition REFRESH_TOKEN_BYTES :: nat where
  "REFRESH_TOKEN_BYTES = 32"

fun b64_digits :: "nat list \<Rightarrow> nat list" where
  "b64_digits [] = []"
| "b64_digits [a] = [a div 4, a mod 4 * 16]"
| "b64_digits [a, b] = [a div 4, a mod 4 * 16 + b div 16, b mod 16 * 4]"
| "b64_digits (a # b # c # bs) =
     a div 4 # (a mod 4 * 16 + b div 16) # (b mod 16 * 4 + c div 64) # c mod 64 # b64_digits bs"

definition url_char :: "nat \<Rightarrow> nat" where
  "url_char d = (if d < 26 then 65 + d else if d < 52 then 71 + d else if d < 62 then d - 4
     else if d = 62 then 45 else 95)"

definition token_urlsafe :: "(nat \<Rightarrow> nat list) \<Rightarrow> nat \<Rightarrow> ustr" where
  "token_urlsafe random n = map url_char (b64_digits (random n))"

definition generate_refresh_token :: "(nat \<Rightarrow> nat list) \<Rightarrow> ustr" where
  "generate_refresh_token random = token_urlsafe random REFRESH_TOKEN_BYTES"

text \<open>The source of randomness gives as many bytes as it is asked for.\<close>

definition bytes_source :: "(nat \<Rightarrow> nat list) \<Rightarrow> bool" where
  "bytes_source random \<longleftrightarrow> (\<forall>n. length (random n) = n \<and> (\<forall>b \<in> set (random n). b < 256))"

text \<open>Reading the digits back.\<close>

fun b64_bytes :: "nat list \<Rightarrow> nat list" where
  "b64_bytes (p # q # r # s # ds) =
     (p * 4 + q div 16) # (q mod 16 * 16 + r div 4) # (r mod 4 * 64 + s) # b64_bytes ds"
| "b64_bytes [p, q, r] = [p * 4 + q div 16, q mod 16 * 16 + r div 4]"
| "b64_bytes [p, q] = [p * 4 + q div 16]"
| "b64_bytes ds = []"

definition url_digit :: "nat \<Rightarrow> nat" where
  "url_digit c = (if c = 45 then 62 else if c = 95 then 63 else if c < 58 then c + 4
     else if c < 91 then c - 65 else c - 71)"

definition url_safe :: "nat \<Rightarrow> bool" where
  "url_safe c \<longleftrightarrow> 65 \<le> c \<and> c \<le> 90 \<or> 97 \<le> c \<and> c \<le> 122 \<or> 48 \<le> c \<and> c \<le> 57 \<or> c = 45 \<or> c = 95"

lemma url_digit_char: "d < 64 \<Longrightarrow> url_digit (url_char d) = d"
  by (auto simp: url_digit_def url_char_def)

lemma url_safe_char: "d < 64 \<Longrightarrow> url_safe (url_char d)"
  by (auto simp: url_safe_def url_char_def)

lemma b64_digits_bound: "\<forall>b \<in> set bs. b < 256 \<Longrightarrow> d \<in> set (b64_digits bs) \<Longrightarrow> d < 64"
proof (induction bs rule: b64_digits.induct)
  case (4 a b c bs)
  have "a mod 4 < 4" "b mod 16 < 16" "c mod 64 < 64" by simp_all
  moreover have "a div 4 < 64" "b div 16 < 16" "c div 64 < 4" using "4.prems"(1) by auto
  ultimately show ?case using 4 by auto
qed auto

lemma b64_round_trip: "\<forall>b \<in> set bs. b < 256 \<Longrightarrow> b64_bytes (b64_digits bs) = bs"
proof (induction bs rule: b64_digits.induct)
  case (4 a b c bs)
  have "b div 16 < 16" "c div 64 < 4" using "4.prems" by auto
  with 4 show ?case by simp
qed auto

lemma b64_length: "length (b64_digits bs) = (4 * length bs + 2) div 3"
  by (induction bs rule: b64_digits.induct) auto

text \<open>
  A refresh token is a faithful and portable rendering of its random bytes. From a source
  that gives as many bytes as it is asked for, the token has 43 characters, all of them letters,
  digits, hyphens and underscores, which go into a cookie as they are; reading them back gives
  the 32 random bytes, so tokens of different bytes differ; and its hash is always the digest
  of the token itself, never an encoding error.
\<close>

lemma refresh_token_round_trip:
  assumes "bytes_source random"
  shows "length (generate_refresh_token random) = 43 \<and>
    list_all url_safe (generate_refresh_token random) \<and>
    b64_bytes (map url_digit (generate_refresh_token random)) = random 32 \<and>
    hash_refresh_token sha256 (generate_refresh_token random) = Inr (sha256 (generate_refresh_token random))"
proof -
  let ?ds = "b64_digits (random 32)"
  have g: "generate_refresh_token random = map url_char ?ds"
    by (simp add: generate_refresh_token_def token_urlsafe_def REFRESH_TOKEN_BYTES_def)
  have r: "length (random 32) = 32" "\<forall>b \<in> set (random 32). b < 256"
    using assms by (auto simp: bytes_source_def)
  have d: "d < 64" if "d \<in> set ?ds" for d using b64_digits_bound [OF r(2) that] .
  have "map url_digit (map url_char ?ds) = ?ds" using d by (simp add: url_digit_char map_idI)
  moreover have safe: "list_all url_safe (map url_char ?ds)" using d by (simp add: list_all_iff url_safe_char)
  moreover have "ascii (map url_char ?ds)" using safe by (auto simp: list_all_iff ascii_def url_safe_def)
  ultimately show ?thesis
    using r by (simp add: g b64_length b64_round_trip hash_refresh_token_def utf8_encode_ascii del: map_map)
qed

lemma refresh_token_round_trip_witness:
  "length (generate_refresh_token (\<lambda>n. replicate n 255)) = 43 \<and>
   b64_bytes (map url_digit (generate_refresh_token (\<lambda>n. replicate n 255))) = replicate 32 255"
  using refresh_token_round_trip [of "\<lambda>n. replicate n 255" "\<lambda>b. b"] by (simp add: bytes_source_def)

section \<open>Refreshes that overlap\<close>

text \<open>
  \<open>refresh\<close> up to its last read of the database, and from there on: between the two other
  requests run. The row is written by its primary key.
\<close>

definition refresh_lookup ::
  "auth_env \<Rightarrow> database \<Rightarrow> ustr \<Rightarrow> datetime \<Rightarrow> exn + session_row \<times> user_row" where
  "refresh_lookup E db refresh_token now =
     (case hash_refresh_token (e_sha256 E) refresh_token of
        Inl e \<Rightarrow> Inl e
      | Inr h \<Rightarrow>
     (case get_by_refresh_hash (e_load E) db h of
        Inl e \<Rightarrow> Inl e
      | Inr None \<Rightarrow> Inl (auth_raise AUTH_SESSION_REVOKED (lit ''refresh token not recognized''))
      | Inr (Some s) \<Rightarrow>
     (case is_usable s now of
        Inl e \<Rightarrow> Inl e
      | Inr False \<Rightarrow> Inl (auth_raise AUTH_SESSION_REVOKED (revoked_reason s))
      | Inr True \<Rightarrow>
     (case get_by_id (e_load E) db (s_user_id s) of
        Inl e \<Rightarrow> Inl e
      | Inr None \<Rightarrow> Inl (auth_raise AUTH_SESSION_REVOKED (lit ''account unavailable''))
      | Inr (Some u) \<Rightarrow>
          if \<not> is_active u then Inl (auth_raise AUTH_SESSION_REVOKED (lit ''account unavailable''))
          else Inr (s, u)))))"

definition refresh_write ::
  "auth_env \<Rightarrow> auth_state \<Rightarrow> session_row \<times> user_row \<Rightarrow> fresh \<Rightarrow> auth_state \<times> (exn + issued_credentials)" where
  "refresh_write E st found f =
     (case found of (s, u) \<Rightarrow>
        (case hash_refresh_token (e_sha256 E) (f_refresh_token f) of
           Inl e \<Rightarrow> (st, Inl e)
         | Inr h' \<Rightarrow>
             (log_auth (st\<lparr>a_db := rotate_refresh_token (a_db st) s h'
                          (refresh_expiry (e_config E) (f_now f))\<rparr>) ''session_refreshed''
                [(''user_id'', LStr (u_id u)), (''session_id'', LStr (s_id s))],
              Inr (credentials_for E u (s_id s) f))))"

lemma refresh_in_two:
  "service_refresh E st token f = (case refresh_lookup E (a_db st) token (f_now f) of
     Inl e \<Rightarrow> (st, Inl e) | Inr found \<Rightarrow> refresh_write E st found f)"
  by (auto simp: service_refresh_def refresh_lookup_def refresh_write_def
      split: sum.splits option.splits bool.splits if_splits)

lemma refresh_write_db:
  assumes "refresh_write E st (s, u) f = (st', Inr c)"
    and "hash_refresh_token (e_sha256 E) (f_refresh_token f) = Inr h"
  shows "a_db st' = rotate_refresh_token (a_db st) s h (refresh_expiry (e_config E) (f_now f))"
    and "c = credentials_for E u (s_id s) f"
  using assms by (auto simp: refresh_write_def)

lemma hash_unknown:
  assumes "\<And>s. s \<in> set (session_table db) \<Longrightarrow> s_refresh_hash s \<noteq> h"
  shows "get_by_refresh_hash load db h = Inr None"
proof -
  have "filter (\<lambda>s. s_refresh_hash s = h) (session_table db) = []" using assms by (auto simp: filter_empty_conv)
  then show ?thesis by (simp add: get_by_refresh_hash_def scalar_one_or_none_def)
qed

text \<open>
  Two refreshes with one token that both looked it up before either wrote: both are answered
  with credentials of the same session, and the refresh token in the first answer is dead on
  arrival.
\<close>

lemma overlapping_refreshes:
  assumes l1: "refresh_lookup E (a_db st) token (f_now f1) = Inr (s, u)"
    and l2: "refresh_lookup E (a_db st) token (f_now f2) = Inr found"
    and h1: "hash_refresh_token (e_sha256 E) (f_refresh_token f1) = Inr h1"
    and h2: "hash_refresh_token (e_sha256 E) (f_refresh_token f2) = Inr h2"
    and new: "h1 \<noteq> h2" "\<forall>x \<in> set (session_table (a_db st)). s_refresh_hash x \<noteq> h1"
  shows "\<exists>st1 st2. refresh_write E st (s, u) f1 = (st1, Inr (credentials_for E u (s_id s) f1)) \<and>
    refresh_write E st1 found f2 = (st2, Inr (credentials_for E u (s_id s) f2)) \<and>
    refresh_lookup E (a_db st2) (f_refresh_token f1) now =
      Inl (auth_raise AUTH_SESSION_REVOKED (lit ''refresh token not recognized''))"
proof -
  obtain st1 where w1: "refresh_write E st (s, u) f1 = (st1, Inr (credentials_for E u (s_id s) f1))"
    using h1 by (simp add: refresh_write_def)
  have found: "found = (s, u)"
    using l1 l2 by (auto simp: refresh_lookup_def split: sum.splits option.splits bool.splits if_splits)
  obtain st2 where w2: "refresh_write E st1 (s, u) f2 = (st2, Inr (credentials_for E u (s_id s) f2))"
    using h2 by (simp add: refresh_write_def)
  have "get_by_refresh_hash (e_load E) (a_db st2) h1 = Inr None"
  proof (rule hash_unknown)
    fix x assume "x \<in> set (session_table (a_db st2))"
    then obtain y where y: "y \<in> set (session_table (a_db st))"
      "x = (if s_id y = s_id s then y\<lparr>s_refresh_hash := h2, s_expires_at := refresh_expiry (e_config E) (f_now f2)\<rparr> else y)"
      unfolding refresh_write_db(1) [OF w2 h2] refresh_write_db(1) [OF w1 h1]
      by (auto simp: rotate_refresh_token_def session_update_def split: if_splits)
    then show "s_refresh_hash x \<noteq> h1" using new by auto
  qed
  then have "refresh_lookup E (a_db st2) (f_refresh_token f1) now =
      Inl (auth_raise AUTH_SESSION_REVOKED (lit ''refresh token not recognized''))"
    by (simp add: refresh_lookup_def h1)
  with w1 w2 found show ?thesis by blast
qed

lemma alice_refreshes:
  assumes "0 \<le> n" and "n < 100"
  shows "refresh_lookup sample_env (a_db alice_online) (lit ''t1'') (utc n) = Inr (alice_session, alice_row)"
  using assms by (simp add: refresh_lookup_def get_by_refresh_hash_def alice_logs_in scalar_one_or_none_def
      is_usable_def refresh_expiry_def days_us_def get_by_id_def)

lemma overlapping_refreshes_witness:
  "\<exists>st1 st2. refresh_write sample_env alice_online (alice_session, alice_row) (sample_fresh ''s2'' ''t2'' 9) =
       (st1, Inr (credentials_for sample_env alice_row (lit ''s1'') (sample_fresh ''s2'' ''t2'' 9))) \<and>
     refresh_write sample_env st1 (alice_session, alice_row) (sample_fresh ''s3'' ''t3'' 10) =
       (st2, Inr (credentials_for sample_env alice_row (lit ''s1'') (sample_fresh ''s3'' ''t3'' 10))) \<and>
     refresh_lookup sample_env (a_db st2) (lit ''t2'') (utc 11) =
       Inl (auth_raise AUTH_SESSION_REVOKED (lit ''refresh token not recognized''))"
proof -
  have hash: "hash_refresh_token (e_sha256 sample_env) (f_refresh_token (sample_fresh ''s2'' ''t2'' 9)) = Inr [116, 50]"
    "hash_refresh_token (e_sha256 sample_env) (f_refresh_token (sample_fresh ''s3'' ''t3'' 10)) = Inr [116, 51]"
    by (simp_all add: hash_refresh_token_def lit_def utf8_char_def)
  have fresh: "\<forall>x \<in> set (session_table (a_db alice_online)). s_refresh_hash x \<noteq> [116, 50]"
    by (simp add: alice_logs_in)
  have t: "f_now (sample_fresh ''s2'' ''t2'' 9) = utc 9" "f_now (sample_fresh ''s3'' ''t3'' 10) = utc 10"
    "f_refresh_token (sample_fresh ''s2'' ''t2'' 9) = lit ''t2''" by simp_all
  show ?thesis
    using overlapping_refreshes [OF _ _ hash _ fresh, of "lit ''t1''" alice_session alice_row
        "(alice_session, alice_row)" "utc 11", unfolded t, OF alice_refreshes alice_refreshes] by simp
qed

text \<open>
  A logout wins. However a refresh overlaps with the logout of its session, before, after or
  with its reads before the logout and its write behind it, the session stays revoked: neither
  the access token that the refresh answers with nor the new refresh token is good for anything.
\<close>

lemma logout_wins:
  assumes ok: "db_ok (a_db st)" and l: "refresh_lookup E (a_db st) token t0 = Inr (s, u)"
    and out: "service_logout E st (s_id s) now = (st1, Inr ())"
    and w: "refresh_write E st1 (s, u) f = (st2, Inr c)"
  shows "(\<exists>r. session_at (a_db st2) (s_id s) = Some r \<and> s_revoked_at r = Some now) \<and>
    (\<forall>t now' tok i. resolve_access_token E (a_db st2) t now' tok = Inr i \<longrightarrow> ai_session_id i \<noteq> s_id s) \<and>
    (\<forall>rtoken f' x. snd (service_refresh E st2 rtoken f') = Inr x \<longrightarrow> ic_session_id x \<noteq> s_id s)"
proof -
  from l obtain h where "get_by_refresh_hash (e_load E) (a_db st) h = Inr (Some s)" and "s_revoked_at s = None"
    by (auto simp: refresh_lookup_def is_usable_True split: sum.splits option.splits bool.splits if_splits)
  from hash_lookup_live [OF ok this] obtain r where r: "session_at (a_db st) (s_id s) = Some r" "s_revoked_at r = None"
    by (auto simp: session_live_row row_live_def split: option.splits)
  have st1: "a_db st1 = revoke (a_db st) (load_session (e_load E) r) now"
    using logout_db [OF ok, of E "s_id s" now] r(1) out by simp
  have "s_id r = s_id s" using r(1) by (auto dest: row_at_Some_in)
  then have db1: "session_at (a_db st1) (s_id s) = Some (r\<lparr>s_revoked_at := Some now\<rparr>)"
    using r by (simp add: st1 revoke_def session_at_update load_session_def)
  have ok1: "db_ok (a_db st1)" using ok by (simp add: st1 revoke_def session_update_ok)
  from w obtain h' where "hash_refresh_token (e_sha256 E) (f_refresh_token f) = Inr h'"
    by (auto simp: refresh_write_def split: sum.splits)
  from refresh_write_db(1) [OF w this]
  have db2: "a_db st2 = rotate_refresh_token (a_db st1) s h' (refresh_expiry (e_config E) (f_now f))" .
  have at2: "session_at (a_db st2) (s_id s) = Some (r\<lparr>s_revoked_at := Some now, s_refresh_hash := h',
      s_expires_at := refresh_expiry (e_config E) (f_now f)\<rparr>)"
    by (simp add: db2 rotate_refresh_token_def session_at_update db1)
  have ok2: "db_ok (a_db st2)" using ok1 by (simp add: db2 rotate_ok)
  have "\<not> session_live st2 (s_id s)" by (simp add: session_live_row row_live_def at2)
  with resolve_live(1) [OF ok2] refresh_live [OF ok2] at2 show ?thesis by fastforce
qed

lemma logout_wins_witness:
  "\<exists>st1 st2 c. service_logout sample_env alice_online (lit ''s1'') (utc 8) = (st1, Inr ()) \<and>
     refresh_write sample_env st1 (alice_session, alice_row) (sample_fresh ''s2'' ''t2'' 9) = (st2, Inr c) \<and>
     (\<forall>rtoken f' x. snd (service_refresh sample_env st2 rtoken f') = Inr x \<longrightarrow> ic_session_id x \<noteq> lit ''s1'')"
proof -
  obtain st1 where out: "service_logout sample_env alice_online (s_id alice_session) (utc 8) = (st1, Inr ())"
    by (auto simp: service_logout_def session_get_def alice_logs_in scalar_one_or_none_def Let_def)
  obtain st2 c where w: "refresh_write sample_env st1 (alice_session, alice_row) (sample_fresh ''s2'' ''t2'' 9) = (st2, Inr c)"
    by (auto simp: refresh_write_def alice_logs_in)
  show ?thesis
    using logout_wins [OF alice_online_sel(1) alice_refreshes [of 7] out w] out w by auto
qed

end
