(* ===== verification/Overlap.thy ===== *)
theory Overlap
  imports RefreshTokens
begin

text \<open>
  Requests that overlap. The coroutines of \<open>service.py\<close> run without interruption only from one
  database call to the next; here every request is cut there. What has arrived and waits for
  its database call is a \<open>job\<close>; resuming a job makes the call and runs on to the next one or to
  the reply. A read sees what was last committed. The writes of a request are the last thing it
  does and are made with its commit in one step: the database has one writer at a time, and
  nobody sees what is not committed.
\<close>

section \<open>Requests, jobs and replies\<close>

datatype request =
    ReqRegister ustr ustr ustr nat datetime
  | ReqLogin ustr ustr rat
  | ReqRefresh ustr
  | ReqLogout ustr
  | ReqDelete authenticated_identity ustr

text \<open>What a request waits for, with what it has in hand.\<close>

datatype job =
    RegisterWrite ustr ustr ustr ustr datetime
  | LoginLookup ustr ustr
  | LoginWrite user_row "(ustr \<times> datetime) option" ustr fresh
  | RefreshLookup ustr
  | RefreshAccount session_row datetime
  | RefreshWrite session_row user_row ustr fresh
  | LogoutLookup ustr
  | LogoutWrite session_row datetime
  | DeleteLookup authenticated_identity ustr
  | DeleteWrite user_row "ustr list" datetime

text \<open>\<open>StaleWrite\<close>: the row to be written is not there any more, which the ORM raises an error for.\<close>

datatype reply = Failed exn | StaleWrite | Registered user_row | Issued issued_credentials | Finished

text \<open>The clock readings and fresh values that a stretch of code draws.\<close>

record draws =
  d_time :: rat
  d_wall :: datetime
  d_salt :: nat
  d_rehash :: datetime
  d_fresh :: fresh

section \<open>Arrival\<close>

text \<open>The code up to the first database call.\<close>

definition arrive :: "auth_env \<Rightarrow> auth_state \<Rightarrow> request \<Rightarrow> auth_state \<times> (reply + job)" where
  "arrive E st rq = (case rq of
     ReqRegister username password new_id salt now \<Rightarrow>
       (case validate_username (e_unicode E) username of
          Inl reason \<Rightarrow> (st, Inl (Failed (auth_raise_status AUTH_VALIDATION_FAILED 400 (lit ''invalid username: '' @ reason))))
        | Inr normalized \<Rightarrow>
           (case validate_policy (e_config E) password of
              Some PasswordNotEncodable \<Rightarrow> (st, Inl (Failed UnicodeEncodeError))
            | Some err \<Rightarrow> (st, Inl (Failed (auth_raise_status AUTH_VALIDATION_FAILED 400
                                 (lit ''invalid password: '' @ policy_reason err))))
            | None \<Rightarrow> (st, Inr (RegisterWrite new_id (py_strip (is_space (e_unicode E)) username) normalized
                 (hash_password (e_argon2 E) (e_unicode E) (e_config E) salt password) now))))
   | ReqLogin username password t \<Rightarrow>
       (case login_begin E st username t of
          (st1, Inl e) \<Rightarrow> (st1, Inl (Failed e))
        | (st1, Inr normalized) \<Rightarrow> (st1, Inr (LoginLookup normalized password)))
   | ReqRefresh token \<Rightarrow>
       (case hash_refresh_token (e_sha256 E) token of
          Inl e \<Rightarrow> (st, Inl (Failed e)) | Inr h \<Rightarrow> (st, Inr (RefreshLookup h)))
   | ReqLogout sid \<Rightarrow> (st, Inr (LogoutLookup sid))
   | ReqDelete i password \<Rightarrow> (st, Inr (DeleteLookup i password)))"

section \<open>The reads\<close>

text \<open>The code between the lookup of a login's account and its write.\<close>

definition login_found ::
  "auth_env \<Rightarrow> auth_state \<Rightarrow> ustr \<Rightarrow> ustr \<Rightarrow> draws \<Rightarrow> auth_state \<times> (reply + job)" where
  "login_found E st normalized password d =
     (case get_by_normalized_username (e_load E) (a_db st) normalized of
        Inl e \<Rightarrow> (st, Inl (Failed e))
      | Inr None \<Rightarrow>
          (log_auth (note_failure (dummy_verify E st) normalized (d_time d)) ''authentication_failure''
             [(''reason'', LStr (lit ''unknown_account''))],
           Inl (Failed (auth_raise AUTH_INVALID_CREDENTIALS (lit ''unknown account''))))
      | Inr (Some u) \<Rightarrow>
         (case verify_with E st (u_password_hash u) password of
            (st1, False) \<Rightarrow>
              (log_auth (note_failure st1 normalized (d_time d)) ''authentication_failure''
                 [(''reason'', LStr (lit ''password_mismatch'')), (''user_id'', LStr (u_id u))],
               Inl (Failed (auth_raise AUTH_INVALID_CREDENTIALS (lit ''password mismatch''))))
          | (st1, True) \<Rightarrow>
              if \<not> is_active u
              then (log_auth (note_failure st1 normalized (d_time d)) ''authentication_failure''
                      [(''reason'', LStr (lit ''account_disabled'')), (''user_id'', LStr (u_id u))],
                    Inl (Failed (auth_raise AUTH_INVALID_CREDENTIALS (lit ''account disabled''))))
              else (let rehash = needs_rehash (e_argon2 E) (e_config E) (u_password_hash u);
                        st2 = (if rehash then log_auth st1 ''password_rehashed'' [(''user_id'', LStr (u_id u))] else st1);
                        st3 = st2\<lparr>a_failed_logins := reset_failures (a_failed_logins st2) normalized\<rparr>
                    in case hash_refresh_token (e_sha256 E) (f_refresh_token (d_fresh d)) of
                         Inl e \<Rightarrow> (st3, Inl (Failed e))
                       | Inr h \<Rightarrow> (st3, Inr (LoginWrite u
                           (if rehash then Some (hash_password (e_argon2 E) (e_unicode E) (e_config E) (d_salt d) password,
                              d_rehash d) else None) h (d_fresh d))))))"

text \<open>The two reads of a refresh.\<close>

definition refresh_found :: "auth_env \<Rightarrow> database \<Rightarrow> ustr \<Rightarrow> draws \<Rightarrow> reply + job" where
  "refresh_found E db h d =
     (case get_by_refresh_hash (e_load E) db h of
        Inl e \<Rightarrow> Inl (Failed e)
      | Inr None \<Rightarrow> Inl (Failed (auth_raise AUTH_SESSION_REVOKED (lit ''refresh token not recognized'')))
      | Inr (Some s) \<Rightarrow>
     (case is_usable s (d_wall d) of
        Inl e \<Rightarrow> Inl (Failed e)
      | Inr False \<Rightarrow> Inl (Failed (auth_raise AUTH_SESSION_REVOKED (revoked_reason s)))
      | Inr True \<Rightarrow> Inr (RefreshAccount s (d_wall d))))"

definition refresh_account :: "auth_env \<Rightarrow> database \<Rightarrow> session_row \<Rightarrow> datetime \<Rightarrow> draws \<Rightarrow> reply + job" where
  "refresh_account E db s now d =
     (case get_by_id (e_load E) db (s_user_id s) of
        Inl e \<Rightarrow> Inl (Failed e)
      | Inr None \<Rightarrow> Inl (Failed (auth_raise AUTH_SESSION_REVOKED (lit ''account unavailable'')))
      | Inr (Some u) \<Rightarrow>
          if \<not> is_active u then Inl (Failed (auth_raise AUTH_SESSION_REVOKED (lit ''account unavailable'')))
          else (case hash_refresh_token (e_sha256 E) (f_refresh_token (d_fresh d)) of
                  Inl e \<Rightarrow> Inl (Failed e)
                | Inr h' \<Rightarrow> Inr (RefreshWrite s u h' ((d_fresh d)\<lparr>f_now := now\<rparr>))))"

text \<open>The records of a logout; a session that was already revoked when it was read is not written.\<close>

definition log_logout :: "auth_state \<Rightarrow> session_row \<Rightarrow> auth_state" where
  "log_logout st s =
     (let fs = [(''session_id'', LStr (s_id s)), (''user_id'', LStr (s_user_id s))]
      in log_auth (log_auth st ''session_revoked'' fs) ''logout'' fs)"

definition logout_found :: "auth_env \<Rightarrow> auth_state \<Rightarrow> ustr \<Rightarrow> draws \<Rightarrow> auth_state \<times> (reply + job)" where
  "logout_found E st sid d =
     (case session_get (e_load E) (a_db st) sid of
        Inl e \<Rightarrow> (st, Inl (Failed e))
      | Inr None \<Rightarrow> (st, Inl Finished)
      | Inr (Some s) \<Rightarrow> if s_revoked_at s \<noteq> None then (log_logout st s, Inl Finished)
          else (st, Inr (LogoutWrite s (d_wall d))))"

text \<open>With the account its sessions are loaded: they are what the cascade will delete.\<close>

definition delete_found ::
  "auth_env \<Rightarrow> auth_state \<Rightarrow> authenticated_identity \<Rightarrow> ustr \<Rightarrow> draws \<Rightarrow> auth_state \<times> (reply + job)" where
  "delete_found E st i password d =
     (case get_by_id (e_load E) (a_db st) (ai_user_id i) of
        Inl e \<Rightarrow> (st, Inl (Failed e))
      | Inr None \<Rightarrow> (st, Inl (Failed (auth_raise AUTH_SESSION_REVOKED (lit ''account no longer exists''))))
      | Inr (Some u) \<Rightarrow>
         (case verify_with E st (u_password_hash u) password of
            (st1, False) \<Rightarrow>
              (log_auth st1 ''account_deletion_rejected''
                 [(''reason'', LStr (lit ''reauthentication_failed'')), (''user_id'', LStr (u_id u))],
               Inl (Failed (auth_raise AUTH_INVALID_CREDENTIALS (lit ''re-authentication failed''))))
          | (st1, True) \<Rightarrow> (st1, Inr (DeleteWrite u
               (map s_id (filter (\<lambda>s. s_user_id s = u_id u) (session_table (a_db st)))) (d_wall d)))))"

section \<open>The writes\<close>

text \<open>
  Rows are written by their primary key. \<open>fk\<close> says whether the database enforces foreign keys;
  SQLite does so only when it is told to.
\<close>

definition login_write ::
  "auth_env \<Rightarrow> bool \<Rightarrow> auth_state \<Rightarrow> user_row \<Rightarrow> (ustr \<times> datetime) option \<Rightarrow> ustr \<Rightarrow> fresh \<Rightarrow> auth_state \<times> reply" where
  "login_write E fk st u rehash h f =
     (if rehash \<noteq> None \<and> user_at (a_db st) (u_id u) = None then (st, StaleWrite)
      else if fk \<and> user_at (a_db st) (u_id u) = None then (st, Failed IntegrityError)
      else (let db1 = (case rehash of None \<Rightarrow> a_db st
                | Some (ph, now) \<Rightarrow> user_update (a_db st) (u_id u) (\<lambda>r. r\<lparr>u_password_hash := ph, u_updated_at := now\<rparr>))
            in case session_create db1 (f_session_id f) (u_id u) h (f_now f) (refresh_expiry (e_config E) (f_now f)) of
                 (_, Inl e) \<Rightarrow> (st, Failed e)
               | (db2, Inr s) \<Rightarrow>
                   (log_auth (log_auth (st\<lparr>a_db := db2\<rparr>) ''session_created''
                        [(''user_id'', LStr (u_id u)), (''session_id'', LStr (f_session_id f))])
                      ''authentication_success''
                        [(''user_id'', LStr (u_id u)), (''session_id'', LStr (f_session_id f))],
                    Issued (credentials_for E u (f_session_id f) f))))"

definition rotation_write ::
  "auth_env \<Rightarrow> auth_state \<Rightarrow> session_row \<Rightarrow> user_row \<Rightarrow> ustr \<Rightarrow> fresh \<Rightarrow> auth_state \<times> reply" where
  "rotation_write E st s u h f =
     (if session_at (a_db st) (s_id s) = None then (st, StaleWrite)
      else (log_auth (st\<lparr>a_db := rotate_refresh_token (a_db st) s h (refresh_expiry (e_config E) (f_now f))\<rparr>)
              ''session_refreshed'' [(''user_id'', LStr (u_id u)), (''session_id'', LStr (s_id s))],
            Issued (credentials_for E u (s_id s) f)))"

definition logout_write :: "auth_state \<Rightarrow> session_row \<Rightarrow> datetime \<Rightarrow> auth_state \<times> reply" where
  "logout_write st s now =
     (if session_at (a_db st) (s_id s) = None then (st, StaleWrite)
      else (log_logout (st\<lparr>a_db := session_update (a_db st) (s_id s) (\<lambda>r. r\<lparr>s_revoked_at := Some now\<rparr>)\<rparr>) s, Finished))"

text \<open>The cascade deletes the sessions that were loaded, and with foreign keys all there are.\<close>

definition delete_loaded :: "bool \<Rightarrow> database \<Rightarrow> ustr \<Rightarrow> ustr list \<Rightarrow> database" where
  "delete_loaded fk db uid loaded = \<lparr>user_table = filter (\<lambda>u. u_id u \<noteq> uid) (user_table db),
     session_table = filter (\<lambda>s. s_id s \<notin> set loaded \<and> \<not> (fk \<and> s_user_id s = uid)) (session_table db)\<rparr>"

definition delete_write :: "bool \<Rightarrow> auth_state \<Rightarrow> user_row \<Rightarrow> ustr list \<Rightarrow> datetime \<Rightarrow> auth_state \<times> reply" where
  "delete_write fk st u loaded now =
     (case revoke_all_for_user (a_db st) (u_id u) now of
        (db1, revoked) \<Rightarrow>
          (log_auth (st\<lparr>a_db := delete_loaded fk db1 (u_id u) loaded\<rparr>) ''account_deleted''
             [(''user_id'', LStr (u_id u)), (''sessions_revoked'', LInt revoked)], Finished))"

definition register_write ::
  "auth_state \<Rightarrow> ustr \<Rightarrow> ustr \<Rightarrow> ustr \<Rightarrow> ustr \<Rightarrow> datetime \<Rightarrow> auth_state \<times> reply" where
  "register_write st new_id username normalized password_hash now =
     (case user_create (a_db st) new_id username normalized password_hash now of
        (_, Inl UsernameTakenError) \<Rightarrow>
          (log_auth st ''registration_rejected'' [(''reason'', LStr (lit ''identifier_taken''))],
           Failed (auth_raise_status AUTH_REGISTRATION_REJECTED 409 (lit ''identifier already registered'')))
      | (_, Inl e) \<Rightarrow> (st, Failed e)
      | (db', Inr u) \<Rightarrow>
          (log_auth (st\<lparr>a_db := db'\<rparr>) ''registration_success'' [(''user_id'', LStr (u_id u))], Registered u))"

section \<open>One turn of a request\<close>

definition resume :: "auth_env \<Rightarrow> bool \<Rightarrow> auth_state \<Rightarrow> job \<Rightarrow> draws \<Rightarrow> auth_state \<times> (reply + job)" where
  "resume E fk st j d = (case j of
     RegisterWrite new_id username normalized ph now \<Rightarrow> apsnd Inl (register_write st new_id username normalized ph now)
   | LoginLookup normalized password \<Rightarrow> login_found E st normalized password d
   | LoginWrite u rehash h f \<Rightarrow> apsnd Inl (login_write E fk st u rehash h f)
   | RefreshLookup h \<Rightarrow> (st, refresh_found E (a_db st) h d)
   | RefreshAccount s now \<Rightarrow> (st, refresh_account E (a_db st) s now d)
   | RefreshWrite s u h f \<Rightarrow> apsnd Inl (rotation_write E st s u h f)
   | LogoutLookup sid \<Rightarrow> logout_found E st sid d
   | LogoutWrite s now \<Rightarrow> apsnd Inl (logout_write st s now)
   | DeleteLookup i password \<Rightarrow> delete_found E st i password d
   | DeleteWrite u loaded now \<Rightarrow> apsnd Inl (delete_write fk st u loaded now))"

text \<open>
  A request that nothing comes between: it arrives and is resumed until it replies, which at
  most three resumptions bring about.
\<close>

fun carry_on :: "auth_env \<Rightarrow> bool \<Rightarrow> nat \<Rightarrow> draws \<Rightarrow> auth_state \<times> (reply + job) \<Rightarrow> (auth_state \<times> reply) option" where
  "carry_on E fk n d (st, Inl r) = Some (st, r)"
| "carry_on E fk 0 d (st, Inr j) = None"
| "carry_on E fk (Suc n) d (st, Inr j) = carry_on E fk n d (resume E fk st j d)"

definition alone :: "auth_env \<Rightarrow> bool \<Rightarrow> auth_state \<Rightarrow> request \<Rightarrow> draws \<Rightarrow> (auth_state \<times> reply) option" where
  "alone E fk st rq d = carry_on E fk 3 d (arrive E st rq)"

text \<open>The operation of the service that the request is, in its transaction.\<close>

definition reply_of :: "('a \<Rightarrow> reply) \<Rightarrow> auth_state \<times> (exn + 'a) \<Rightarrow> auth_state \<times> reply" where
  "reply_of g r = (case r of (st, Inl e) \<Rightarrow> (st, Failed e) | (st, Inr x) \<Rightarrow> (st, g x))"

definition at_once :: "auth_env \<Rightarrow> auth_state \<Rightarrow> request \<Rightarrow> draws \<Rightarrow> auth_state \<times> reply" where
  "at_once E st rq d = (case rq of
     ReqRegister username password new_id salt now \<Rightarrow>
       reply_of Registered (transaction st (service_register E st username password new_id salt now))
   | ReqLogin username password t \<Rightarrow>
       reply_of Issued (transaction st (service_login E st username password t (d_time d) (d_salt d) (d_rehash d) (d_fresh d)))
   | ReqRefresh token \<Rightarrow>
       reply_of Issued (transaction st (service_refresh E st token ((d_fresh d)\<lparr>f_now := d_wall d\<rparr>)))
   | ReqLogout sid \<Rightarrow> reply_of (\<lambda>_. Finished) (transaction st (service_logout E st sid (d_wall d)))
   | ReqDelete i password \<Rightarrow> reply_of (\<lambda>_. Finished) (transaction st (service_delete_account E st i password (d_wall d))))"

end
