(* ===== verification/OverlapAlone.thy ===== *)
theory OverlapAlone
  imports Overlap
begin

text \<open>
  A request that is not interrupted does what the operation of the service does: the pieces of
  \<open>Overlap\<close> put together are the definitions of \<open>AuthService\<close>.
\<close>

lemma carry_on_Inl [simp]: "carry_on E fk n d (apsnd Inl p) = Some p"
  by (cases p; cases n) simp_all

lemma carry_on_reply [simp]: "carry_on E fk n d (st, Inl r) = Some (st, r)"
  by (cases n) simp_all

lemma carry_on_job: "carry_on E fk (Suc n) d (st, Inr j) = carry_on E fk n d (resume E fk st j d)"
  by simp

lemma numeral_fuel: "(3::nat) = Suc (Suc (Suc 0))"
  by simp

lemma alone_register:
  "alone E fk st (ReqRegister username password new_id salt now) d =
   Some (at_once E st (ReqRegister username password new_id salt now) d)"
  by (auto simp: alone_def arrive_def at_once_def numeral_fuel resume_def register_write_def service_register_def
      reply_of_def transaction_def Let_def user_create_def list_ex_iff
      split: sum.split option.split password_policy_error.split)

lemma alone_logout:
  assumes ok: "db_ok (a_db st)"
  shows "alone E fk st (ReqLogout sid) d = Some (at_once E st (ReqLogout sid) d)"
proof (cases "session_at (a_db st) sid")
  case None
  then show ?thesis using ok
    by (simp add: alone_def arrive_def at_once_def numeral_fuel resume_def logout_found_def service_logout_def
        reply_of_def transaction_def)
next
  case (Some s)
  moreover have "s_id s = sid" using Some by (auto dest: row_at_Some_in)
  ultimately show ?thesis using ok
    by (cases "s_revoked_at s") (simp_all add: alone_def arrive_def at_once_def numeral_fuel resume_def logout_found_def
        logout_write_def log_logout_def service_logout_def revoke_def reply_of_def transaction_def Let_def)
qed

lemma delete_all_loaded:
  assumes "db_ok db"
  shows "delete_loaded fk (fst (revoke_all_for_user db uid now)) uid
      (map s_id (filter (\<lambda>s. s_user_id s = uid) (session_table db))) = user_delete (fst (revoke_all_for_user db uid now)) uid"
proof -
  let ?g = "\<lambda>s. if s_user_id s = uid \<and> s_revoked_at s = None then s\<lparr>s_revoked_at := Some now\<rparr> else s"
  have d: "distinct (map s_id (session_table db))" using assms by (simp add: db_ok_def)
  have "(s_id s \<notin> s_id ` {x \<in> set (session_table db). s_user_id x = uid}) = (s_user_id s \<noteq> uid)"
    if "s \<in> set (session_table db)" for s
    using that d by (auto simp: distinct_map dest: inj_onD)
  then have "filter (\<lambda>s. s_id s \<notin> s_id ` {x \<in> set (session_table db). s_user_id x = uid} \<and>
        \<not> (fk \<and> s_user_id s = uid)) (map ?g (session_table db)) =
      filter (\<lambda>s. s_user_id s \<noteq> uid) (map ?g (session_table db))"
    by (intro filter_cong) auto
  then show ?thesis by (simp add: delete_loaded_def user_delete_def revoke_all_for_user_def Let_def)
qed

lemma alone_delete:
  assumes ok: "db_ok (a_db st)"
  shows "alone E fk st (ReqDelete i password) d = Some (at_once E st (ReqDelete i password) d)"
proof (cases "user_at (a_db st) (ai_user_id i)")
  case None
  then show ?thesis using ok
    by (simp add: alone_def arrive_def at_once_def numeral_fuel resume_def delete_found_def service_delete_account_def
        reply_of_def transaction_def)
next
  case (Some u)
  show ?thesis using ok Some delete_all_loaded [OF ok, of fk "u_id u" "d_wall d"]
    by (cases "verify_password (e_argon2 E) (e_unicode E) (u_password_hash u) password") (simp_all add: alone_def arrive_def at_once_def numeral_fuel resume_def delete_found_def delete_write_def
        service_delete_account_def reply_of_def transaction_def verify_with_def split_beta)
qed

lemma alone_refresh:
  assumes ok: "db_ok (a_db st)"
  shows "alone E fk st (ReqRefresh token) d = Some (at_once E st (ReqRefresh token) d)"
proof (cases "\<exists>h s. hash_refresh_token (e_sha256 E) token = Inr h \<and>
    get_by_refresh_hash (e_load E) (a_db st) h = Inr (Some s) \<and> is_usable s (d_wall d) = Inr True")
  case True
  then obtain h s where h: "hash_refresh_token (e_sha256 E) token = Inr h"
    "get_by_refresh_hash (e_load E) (a_db st) h = Inr (Some s)" "is_usable s (d_wall d) = Inr True" by blast
  then have "session_at (a_db st) (s_id s) \<noteq> None"
    using hash_lookup_live [OF ok h(2)] by (auto simp: is_usable_True session_live_def split: option.splits)
  with h ok show ?thesis
    by (auto simp: alone_def arrive_def at_once_def numeral_fuel resume_def refresh_found_def refresh_account_def
        rotation_write_def service_refresh_def reply_of_def transaction_def credentials_for_def
        split: option.split sum.split)
next
  case False
  then show ?thesis
    by (auto simp: alone_def arrive_def at_once_def numeral_fuel resume_def refresh_found_def service_refresh_def
        reply_of_def transaction_def split: option.splits sum.splits bool.splits)
qed

lemma alone_login:
  assumes ok: "db_ok (a_db st)"
  shows "alone E fk st (ReqLogin username password t) d = Some (at_once E st (ReqLogin username password t) d)"
proof (cases "login_begin E st username t")
  case (Pair st1 x)
  have db1: "a_db st1 = a_db st" using login_begin_db [of E st username t] Pair by simp
  show ?thesis
  proof (cases x)
    case (Inl e)
    then show ?thesis using Pair db1
      by (simp add: alone_def arrive_def at_once_def numeral_fuel service_login_def reply_of_def transaction_def)
  next
    case (Inr n)
    have ok1: "db_ok (a_db st1)" using ok db1 by simp
    show ?thesis
    proof (cases "user_named (a_db st) n")
      case None
      then show ?thesis using Pair Inr db1 ok1
        by (simp add: alone_def arrive_def at_once_def numeral_fuel service_login_def reply_of_def transaction_def
            resume_def login_found_def login_finish_def)
    next
      case (Some u)
      then have u: "user_at (a_db st) (u_id u) \<noteq> None" using named_user_at [OF ok] by simp
      show ?thesis using Pair Inr db1 ok1 Some u
        by (cases "verify_password (e_argon2 E) (e_unicode E) (u_password_hash u) password"; cases "is_active u";
            cases "hash_refresh_token (e_sha256 E) (f_refresh_token (d_fresh d))") (simp_all add: alone_def arrive_def at_once_def numeral_fuel service_login_def reply_of_def transaction_def
            resume_def login_found_def login_finish_def verify_with_def login_write_def maybe_rehash_def open_session_def
            session_create_def log_auth_def credentials_for_def Let_def user_update_def)
    qed
  qed
qed

text \<open>
  Requests are the operations of the service when nothing comes between. A request that
  arrives in consistent tables and is resumed without another one running replies after at most
  three database calls, with the reply and in the state that the operation has in its
  transaction, whether or not the database enforces foreign keys.
\<close>

lemma alone_is_at_once:
  assumes "db_ok (a_db st)"
  shows "alone E fk st rq d = Some (at_once E st rq d)"
  using alone_register alone_login [OF assms] alone_refresh [OF assms] alone_logout [OF assms] alone_delete [OF assms]
  by (cases rq) simp_all

end
