(* ===== verification/Races.thy ===== *)
theory Races
  imports OverlapAlone
begin

text \<open>
  The service with any number of requests in flight: a move is the arrival of a request, a turn
  of one that waits, or the end of one whose database call fails. What sequential runs of the
  service keep, every interleaving keeps but one thing: a session may outlive its account.
\<close>

record race =
  r_auth :: auth_state
  r_jobs :: "job list"

datatype move = Arrive request | Resume nat draws | Cancel nat

definition without :: "nat \<Rightarrow> 'a list \<Rightarrow> 'a list" where
  "without n xs = take n xs @ drop (Suc n) xs"

fun race_turn :: "auth_env \<Rightarrow> bool \<Rightarrow> move \<Rightarrow> race \<Rightarrow> race \<times> reply option" where
  "race_turn E fk (Arrive rq) r = (case arrive E (r_auth r) rq of
     (st, Inl rep) \<Rightarrow> (r\<lparr>r_auth := st\<rparr>, Some rep)
   | (st, Inr j) \<Rightarrow> (\<lparr>r_auth = st, r_jobs = r_jobs r @ [j]\<rparr>, None))"
| "race_turn E fk (Resume n d) r =
     (if n \<ge> length (r_jobs r) then (r, None)
      else (case resume E fk (r_auth r) (r_jobs r ! n) d of
              (st, Inl rep) \<Rightarrow> (\<lparr>r_auth = st, r_jobs = without n (r_jobs r)\<rparr>, Some rep)
            | (st, Inr j) \<Rightarrow> (\<lparr>r_auth = st, r_jobs = (r_jobs r)[n := j]\<rparr>, None)))"
| "race_turn E fk (Cancel n) r = (r\<lparr>r_jobs := without n (r_jobs r)\<rparr>, None)"

definition race_step :: "auth_env \<Rightarrow> bool \<Rightarrow> move \<Rightarrow> race \<Rightarrow> race" where
  "race_step E fk mv r = fst (race_turn E fk mv r)"

definition race_run :: "auth_env \<Rightarrow> bool \<Rightarrow> move list \<Rightarrow> race \<Rightarrow> race" where
  "race_run E fk mvs r = fold (race_step E fk) mvs r"

abbreviation race_db :: "race \<Rightarrow> database" where
  "race_db r \<equiv> a_db (r_auth r)"

lemma set_without: "set (without n xs) \<subseteq> set xs"
  by (auto simp: without_def dest: in_set_takeD in_set_dropD)

lemma login_begun_db: "login_begin E st username t = (st1, x) \<Longrightarrow> a_db st1 = a_db st"
  using login_begin_db [of E st username t] by simp

lemma arrive_db [simp]: "a_db (fst (arrive E st rq)) = a_db st"
  by (auto simp: arrive_def dest: login_begun_db
      split: request.split sum.split option.split password_policy_error.split prod.split)

section \<open>What a turn does to the tables\<close>

lemma resume_tables:
  obtains (same) "a_db (fst (resume E fk st j d)) = a_db st"
  | (register) uid name n ph now where "j = RegisterWrite uid name n ph now"
      "a_db (fst (resume E fk st j d)) = fst (user_create (a_db st) uid name n ph now)"
  | (login) u rehash h f db1 where "j = LoginWrite u rehash h f"
      "db1 = a_db st \<or> (\<exists>ph now. db1 = user_update (a_db st) (u_id u) (\<lambda>r. r\<lparr>u_password_hash := ph, u_updated_at := now\<rparr>))"
      "a_db (fst (resume E fk st j d)) =
         fst (session_create db1 (f_session_id f) (u_id u) h (f_now f) (refresh_expiry (e_config E) (f_now f)))"
  | (rotate) s h ex where "a_db (fst (resume E fk st j d)) = rotate_refresh_token (a_db st) s h ex"
  | (revoke) s now where "j = LogoutWrite s now"
      "a_db (fst (resume E fk st j d)) = session_update (a_db st) (s_id s) (\<lambda>r. r\<lparr>s_revoked_at := Some now\<rparr>)"
  | (delete) u loaded now where "j = DeleteWrite u loaded now"
      "a_db (fst (resume E fk st j d)) = delete_loaded fk (fst (revoke_all_for_user (a_db st) (u_id u) now)) (u_id u) loaded"
proof (cases j)
  case (RegisterWrite uid name n ph now)
  show thesis
  proof (cases "user_create (a_db st) uid name n ph now")
    case (Pair db' x)
    then show thesis using RegisterWrite same register
      by (cases x) (auto simp: resume_def register_write_def split: exn.splits)
  qed
next
  case (LoginWrite u rehash h f)
  let ?db1 = "case rehash of None \<Rightarrow> a_db st
     | Some (ph, now) \<Rightarrow> user_update (a_db st) (u_id u) (\<lambda>r. r\<lparr>u_password_hash := ph, u_updated_at := now\<rparr>)"
  obtain db2 x where c: "session_create ?db1 (f_session_id f) (u_id u) h (f_now f)
      (refresh_expiry (e_config E) (f_now f)) = (db2, x)" by fastforce
  have d: "?db1 = a_db st \<or> (\<exists>ph now. ?db1 = user_update (a_db st) (u_id u)
      (\<lambda>r. r\<lparr>u_password_hash := ph, u_updated_at := now\<rparr>))" by (auto split: option.split)
  show thesis
  proof (cases "a_db (fst (resume E fk st j d)) = a_db st")
    case True
    then show thesis by (rule same)
  next
    case False
    then have "a_db (fst (resume E fk st j d)) = db2"
      using LoginWrite c by (auto simp: resume_def login_write_def Let_def split: if_splits sum.splits prod.splits)
    then show thesis using login [OF LoginWrite d] c by simp
  qed
next
  case (LoginLookup n pw)
  have "a_db (fst (login_found E st n pw d)) = a_db st"
    by (auto simp: login_found_def Let_def verify_with_def split: sum.split option.split bool.split)
  then show thesis using LoginLookup same by (simp add: resume_def)
next
  case (RefreshWrite s u h f)
  show thesis
  proof (cases "session_at (a_db st) (s_id s)")
    case None
    then show thesis using RefreshWrite by (intro same) (simp add: resume_def rotation_write_def)
  next
    case (Some row)
    then show thesis using RefreshWrite by (intro rotate) (simp add: resume_def rotation_write_def)
  qed
next
  case (LogoutWrite s now)
  show thesis
  proof (cases "session_at (a_db st) (s_id s)")
    case None
    then show thesis using LogoutWrite by (intro same) (simp add: resume_def logout_write_def)
  next
    case (Some row)
    then show thesis using LogoutWrite by (intro revoke) (simp_all add: resume_def logout_write_def log_logout_def Let_def)
  qed
next
  case (LogoutLookup sid)
  then show thesis by (intro same) (auto simp: resume_def logout_found_def log_logout_def Let_def split: sum.split option.split)
next
  case (DeleteLookup i pw)
  then show thesis by (intro same) (auto simp: resume_def delete_found_def verify_with_def split: sum.split option.split bool.split)
next
  case (DeleteWrite u loaded now)
  then show thesis by (intro delete) (auto simp: resume_def delete_write_def split_beta)
qed (use same in \<open>auto simp: resume_def\<close>)

section \<open>Keys\<close>

definition keys_ok :: "database \<Rightarrow> bool" where
  "keys_ok db \<longleftrightarrow> distinct (map u_id (user_table db)) \<and> distinct (map u_normalized (user_table db)) \<and>
     distinct (map s_id (session_table db))"

lemma db_ok_keys: "db_ok db \<Longrightarrow> keys_ok db"
  by (simp add: db_ok_def keys_ok_def)

lemma map_rows_keys:
  assumes "\<And>x. f (g x) = f x"
  shows "map f (map g xs) = map f xs"
  using assms by simp

lemma keys_kept:
  assumes "keys_ok db"
  shows "keys_ok (fst (user_create db uid name n ph now))"
    and "keys_ok (fst (session_create db sid uid h now ex))"
    and "keys_ok (session_update db sid (\<lambda>r. r\<lparr>s_revoked_at := v\<rparr>))"
    and "keys_ok (rotate_refresh_token db s h ex)"
    and "keys_ok (fst (revoke_all_for_user db uid now))"
    and "keys_ok (delete_loaded fk db uid loaded)"
    and "keys_ok (user_update db uid (\<lambda>r. r\<lparr>u_password_hash := ph, u_updated_at := now\<rparr>))"
proof -
  show "keys_ok (fst (user_create db uid name n ph now))"
    using assms by (auto simp: keys_ok_def user_create_def Let_def list_ex_iff)
  show "keys_ok (fst (session_create db sid uid h now ex))"
    using assms by (auto simp: keys_ok_def session_create_def Let_def list_ex_iff)
  show "keys_ok (session_update db sid (\<lambda>r. r\<lparr>s_revoked_at := v\<rparr>))" "keys_ok (rotate_refresh_token db s h ex)"
    "keys_ok (fst (revoke_all_for_user db uid now))"
    using assms by (simp_all add: keys_ok_def session_update_def rotate_refresh_token_def revoke_all_for_user_def
        Let_def comp_def if_distrib cong: if_cong)
  show "keys_ok (delete_loaded fk db uid loaded)"
    using assms by (simp add: keys_ok_def delete_loaded_def distinct_map_filter)
  show "keys_ok (user_update db uid (\<lambda>r. r\<lparr>u_password_hash := ph, u_updated_at := now\<rparr>))"
    using assms by (simp add: keys_ok_def user_update_def comp_def if_distrib cong: if_cong)
qed

lemma resume_keys:
  assumes "keys_ok (a_db st)"
  shows "keys_ok (a_db (fst (resume E fk st j d)))"
proof (cases rule: resume_tables [where E = E and fk = fk and st = st and j = j and d = d])
  case (login u rehash h f db1)
  then have "keys_ok db1" using assms keys_kept(7) by auto
  then show ?thesis by (simp add: login(3) keys_kept(2))
qed (use assms keys_kept in simp_all)

section \<open>What lives\<close>

text \<open>A session lives in its row, or in a login that is about to open it.\<close>

fun opens :: "job \<Rightarrow> ustr \<Rightarrow> bool" where
  "opens (LoginWrite u rehash h f) sid = (f_session_id f = sid)"
| "opens j sid = False"

definition race_live :: "race \<Rightarrow> ustr \<Rightarrow> bool" where
  "race_live r sid \<longleftrightarrow> row_live (race_db r) sid \<or> (\<exists>j \<in> set (r_jobs r). opens j sid)"

fun draws_session :: "move \<Rightarrow> ustr \<Rightarrow> bool" where
  "draws_session (Resume n d) sid = (f_session_id (d_fresh d) = sid)"
| "draws_session mv sid = False"

text \<open>An account lives in its row, or in a registration that is about to be written.\<close>

fun creates_account :: "job \<Rightarrow> ustr \<Rightarrow> bool" where
  "creates_account (RegisterWrite new_id username n ph now) uid = (new_id = uid)"
| "creates_account j uid = False"

definition race_account :: "race \<Rightarrow> ustr \<Rightarrow> bool" where
  "race_account r uid \<longleftrightarrow> user_at (race_db r) uid \<noteq> None \<or> (\<exists>j \<in> set (r_jobs r). creates_account j uid)"

fun draws_account :: "move \<Rightarrow> ustr \<Rightarrow> bool" where
  "draws_account (Arrive (ReqRegister username password new_id salt now)) uid = (new_id = uid)"
| "draws_account mv uid = False"

lemma row_live_delete_loaded: "keys_ok db \<Longrightarrow> row_live (delete_loaded fk db uid loaded) sid \<Longrightarrow> row_live db sid"
  by (auto simp: row_live_def delete_loaded_def keys_ok_def row_at_filter split: option.splits if_splits)

lemma row_live_revoke_all: "row_live (fst (revoke_all_for_user db uid now)) sid \<Longrightarrow> row_live db sid"
  by (auto simp: row_live_def session_at_revoke_all split: option.splits if_splits)

lemma resume_row_live:
  assumes ok: "keys_ok (a_db st)" and l: "row_live (a_db (fst (resume E fk st j d))) sid"
  shows "row_live (a_db st) sid \<or> opens j sid"
proof (cases rule: resume_tables [where E = E and fk = fk and st = st and j = j and d = d])
  case (login u rehash h f db1)
  have "session_table db1 = session_table (a_db st)" using login(2) by auto
  moreover have "row_live db1 sid \<or> f_session_id f = sid"
    by (rule row_live_create) (use l login(3) in simp)
  ultimately show ?thesis using login(1) by (simp add: row_live_def)
next
  case (register uid name n ph now)
  then show ?thesis using l by (simp add: row_live_def)
next
  case (revoke s now)
  then show ?thesis using l row_live_update [of "\<lambda>r. r\<lparr>s_revoked_at := Some now\<rparr>" "a_db st" "s_id s" sid] by simp
next
  case (delete u loaded now)
  have "row_live (fst (revoke_all_for_user (a_db st) (u_id u) now)) sid"
    by (rule row_live_delete_loaded [OF keys_kept(5) [OF ok]]) (use l delete(2) in simp)
  then show ?thesis using row_live_revoke_all by blast
next
  case (rotate s h ex)
  then show ?thesis using l row_live_rotate [of "a_db st" s h ex sid] by simp
qed (use l in simp)

lemma user_at_delete_loaded: "keys_ok db \<Longrightarrow>
    user_at (delete_loaded fk db uid loaded) k = (if k = uid then None else user_at db k)"
  by (auto simp: delete_loaded_def keys_ok_def row_at_filter split: option.split dest: row_at_Some_in)

lemma user_at_create:
  "user_at (fst (user_create db uid name n ph now)) k \<noteq> None \<Longrightarrow> user_at db k \<noteq> None \<or> k = uid"
  by (auto simp: user_create_def Let_def row_at_append split: option.splits if_splits)

lemma resume_user_at:
  assumes ok: "keys_ok (a_db st)" and l: "user_at (a_db (fst (resume E fk st j d))) uid \<noteq> None"
  shows "user_at (a_db st) uid \<noteq> None \<or> creates_account j uid"
proof (cases rule: resume_tables [where E = E and fk = fk and st = st and j = j and d = d])
  case (login u rehash h f db1)
  have "user_at db1 uid = None \<longleftrightarrow> user_at (a_db st) uid = None"
    using login(2) by (auto simp: user_at_update split: if_splits)
  then show ?thesis using l by (simp add: login(3))
next
  case (register uid' name n ph now)
  then show ?thesis using user_at_create [of "a_db st" uid' name n ph now uid] l by auto
next
  case (delete u loaded now)
  then show ?thesis using l user_at_delete_loaded [OF keys_kept(5) [OF ok]] by (auto split: if_splits)
qed (use l in simp_all)

text \<open>The next job of a request.\<close>

lemma resume_next:
  assumes "resume E fk st j d = (st', Inr j')"
  shows "opens j' sid \<Longrightarrow> f_session_id (d_fresh d) = sid" and "\<not> creates_account j' uid"
proof -
  have "(opens j' sid \<longrightarrow> f_session_id (d_fresh d) = sid) \<and> \<not> creates_account j' uid"
  proof (cases j)
    case (LoginLookup n pw)
    then show ?thesis using assms
      by (auto simp: resume_def login_found_def Let_def split: sum.splits option.splits prod.splits bool.splits if_splits)
  next
    case (LogoutLookup sid')
    then show ?thesis using assms
      by (auto simp: resume_def logout_found_def split: sum.splits option.splits if_splits)
  next
    case (DeleteLookup i pw)
    then show ?thesis using assms
      by (auto simp: resume_def delete_found_def split: sum.splits option.splits prod.splits bool.splits)
  next
    case (RefreshLookup h)
    then show ?thesis using assms
      by (auto simp: resume_def refresh_found_def split: sum.splits option.splits bool.splits)
  next
    case (RefreshAccount s now)
    then show ?thesis using assms
      by (auto simp: resume_def refresh_account_def split: sum.splits option.splits if_splits)
  qed (use assms in \<open>auto simp: resume_def apsnd_def map_prod_def split: prod.splits\<close>)
  then show "opens j' sid \<Longrightarrow> f_session_id (d_fresh d) = sid" and "\<not> creates_account j' uid" by blast+
qed

lemma arrive_next:
  assumes "arrive E st rq = (st', Inr j)"
  shows "\<not> opens j sid" and "creates_account j uid \<Longrightarrow> draws_account (Arrive rq) uid"
  using assms
  by (auto simp: arrive_def split: request.splits sum.splits option.splits password_policy_error.splits prod.splits)

section \<open>Every interleaving\<close>

lemma race_db_resume:
  assumes "n < length (r_jobs r)"
  shows "race_db (race_step E fk (Resume n d) r) = a_db (fst (resume E fk (r_auth r) (r_jobs r ! n) d))"
  using assms by (simp add: race_step_def split: prod.split sum.split)

lemma race_jobs_resume:
  assumes "j \<in> set (r_jobs (race_step E fk (Resume n d) r))"
  shows "j \<in> set (r_jobs r) \<or> n < length (r_jobs r) \<and> (\<exists>st. resume E fk (r_auth r) (r_jobs r ! n) d = (st, Inr j))"
  using assms set_without [of n "r_jobs r"] set_update_subset_insert [of "r_jobs r" n]
  by (auto simp: race_step_def split: prod.splits sum.splits if_splits)

lemma race_step_others:
  "race_db (race_step E fk (Arrive rq) r) = race_db r"
  "race_db (race_step E fk (Cancel n) r) = race_db r"
  "r_jobs (race_step E fk (Cancel n) r) = without n (r_jobs r)"
proof -
  obtain st x where a: "arrive E (r_auth r) rq = (st, x)" by fastforce
  then have "a_db st = race_db r" using arrive_db [of E "r_auth r" rq] by simp
  then show "race_db (race_step E fk (Arrive rq) r) = race_db r" using a by (cases x) (simp_all add: race_step_def)
qed (simp_all add: race_step_def)

lemma race_jobs_arrive:
  assumes "j \<in> set (r_jobs (race_step E fk (Arrive rq) r))"
  shows "j \<in> set (r_jobs r) \<or> (\<exists>st. arrive E (r_auth r) rq = (st, Inr j))"
  using assms by (auto simp: race_step_def split: prod.splits sum.splits)

lemma race_keys:
  assumes "keys_ok (race_db r)"
  shows "keys_ok (race_db (race_step E fk mv r))"
proof (cases mv)
  case (Resume n d)
  then show ?thesis
  proof (cases "n < length (r_jobs r)")
    case True
    then show ?thesis using resume_keys [OF assms] race_db_resume Resume by simp
  qed (use assms in \<open>simp add: race_step_def\<close>)
qed (use assms in \<open>simp_all add: race_step_others\<close>)

lemma race_step_live:
  assumes ok: "keys_ok (race_db r)" and l: "race_live (race_step E fk mv r) sid"
  shows "race_live r sid \<or> draws_session mv sid"
proof (cases mv)
  case (Arrive rq)
  then show ?thesis using l race_jobs_arrive [of _ E fk rq r] arrive_next(1) [of E "r_auth r" rq]
    unfolding race_live_def by (simp add: race_step_others) blast
next
  case (Cancel n)
  then show ?thesis using l set_without [of n "r_jobs r"] by (auto simp: race_live_def race_step_others)
next
  case (Resume n d)
  show ?thesis
  proof (cases "n < length (r_jobs r)")
    case False
    then show ?thesis using l Resume by (simp add: race_step_def)
  next
    case True
    let ?j = "r_jobs r ! n"
    from l consider "row_live (race_db (race_step E fk mv r)) sid"
      | j where "j \<in> set (r_jobs (race_step E fk mv r))" "opens j sid" unfolding race_live_def by blast
    then show ?thesis
    proof cases
      case 1
      then have "row_live (race_db r) sid \<or> opens ?j sid"
        using resume_row_live [OF ok] race_db_resume [OF True] Resume by simp
      then show ?thesis using True nth_mem unfolding race_live_def by blast
    next
      case 2
      then show ?thesis using race_jobs_resume [of j E fk n d r] resume_next(1) Resume
        by (auto simp: race_live_def)
    qed
  qed
qed

lemma race_step_account:
  assumes ok: "keys_ok (race_db r)" and l: "race_account (race_step E fk mv r) uid"
  shows "race_account r uid \<or> draws_account mv uid"
proof (cases mv)
  case (Arrive rq)
  then show ?thesis using l race_jobs_arrive [of _ E fk rq r] arrive_next(2) [of E "r_auth r" rq]
    unfolding race_account_def by (simp add: race_step_others) blast
next
  case (Cancel n)
  then show ?thesis using l set_without [of n "r_jobs r"] by (auto simp: race_account_def race_step_others)
next
  case (Resume n d)
  show ?thesis
  proof (cases "n < length (r_jobs r)")
    case False
    then show ?thesis using l Resume by (simp add: race_step_def)
  next
    case True
    let ?j = "r_jobs r ! n"
    from l consider "user_at (race_db (race_step E fk mv r)) uid \<noteq> None"
      | j where "j \<in> set (r_jobs (race_step E fk mv r))" "creates_account j uid" unfolding race_account_def by blast
    then show ?thesis
    proof cases
      case 1
      then have "user_at (race_db r) uid \<noteq> None \<or> creates_account ?j uid"
        using resume_user_at [OF ok] race_db_resume [OF True] Resume by metis
      then show ?thesis using True nth_mem unfolding race_account_def by blast
    next
      case 2
      then show ?thesis using race_jobs_resume [of j E fk n d r] resume_next(2) Resume
        by (auto simp: race_account_def)
    qed
  qed
qed

interpretation rsess: revocable "race_step E fk" "\<lambda>r. keys_ok (race_db r)" race_live draws_session for E fk
  by unfold_locales (auto simp: race_keys dest: race_step_live)

interpretation racct: revocable "race_step E fk" "\<lambda>r. keys_ok (race_db r)" race_account draws_account for E fk
  by unfold_locales (auto simp: race_keys dest: race_step_account)

text \<open>What a token resolves to is there, whatever the tables are like.\<close>

lemma filter_one_at: "filter (\<lambda>r. f r = k) rows = [r] \<Longrightarrow> row_at f rows k = Some r"
  by (induction rows) (auto simp: row_at_def split: if_splits)

lemma resolve_found:
  assumes "resolve_access_token E db t now token = Inr i"
  shows "row_live db (ai_session_id i)" and "user_at db (ai_user_id i) \<noteq> None"
proof -
  have s: "\<exists>r. session_at db sid = Some r \<and> s = load_session (e_load E) r" if "session_get (e_load E) db sid = Inr (Some s)" for sid s
    using that filter_one_at [of s_id sid "session_table db"]
    by (auto simp: session_get_def scalar_one_or_none_def map_eq_Cons_conv split: list.splits)
  have u: "\<exists>r. user_at db uid = Some r \<and> u = load_user (e_load E) r" if "get_by_id (e_load E) db uid = Inr (Some u)" for uid u
    using that filter_one_at [of u_id uid "user_table db"]
    by (auto simp: get_by_id_def scalar_one_or_none_def map_eq_Cons_conv split: list.splits)
  from assms have "\<exists>sid uid s v. session_get (e_load E) db sid = Inr (Some s) \<and> is_usable s now = Inr True \<and>
      get_by_id (e_load E) db uid = Inr (Some v) \<and> ai_user_id i = u_id v \<and> ai_session_id i = s_id s"
    unfolding resolve_access_token_def
    by (auto split: sum.splits option.splits bool.splits if_splits intro!: exI conjI)
  then obtain sid uid s v where r: "session_get (e_load E) db sid = Inr (Some s)" "is_usable s now = Inr True"
    "get_by_id (e_load E) db uid = Inr (Some v)" and i: "ai_user_id i = u_id v" "ai_session_id i = s_id s" by blast
  from s [OF r(1)] u [OF r(3)] obtain rs ru where "session_at db sid = Some rs"
    "s = load_session (e_load E) rs" "user_at db uid = Some ru" "v = load_user (e_load E) ru" by blast
  then show "row_live db (ai_session_id i)" and "user_at db (ai_user_id i) \<noteq> None"
    using r(2) i row_at_Some_in by (fastforce simp: row_live_def is_usable_True)+
qed

lemma race_run_keys: "keys_ok (race_db r) \<Longrightarrow> keys_ok (race_db (race_run E fk mvs r))"
  unfolding race_run_def by (rule rsess.run_ok)

lemma refresh_found_live:
  assumes ok: "keys_ok db" and f: "refresh_found E db h d = Inr (RefreshAccount s now)"
  shows "row_live db (s_id s)"
proof -
  from f have g: "get_by_refresh_hash (e_load E) db h = Inr (Some s)" and u: "is_usable s (d_wall d) = Inr True"
    by (auto simp: refresh_found_def split: sum.splits option.splits bool.splits)
  obtain row where one: "filter (\<lambda>s. s_refresh_hash s = h) (session_table db) = [row]"
    and row: "s = load_session (e_load E) row" by (rule hash_lookup_Some [OF g])
  then have "row \<in> set (session_table db)" by (auto simp: filter_eq_Cons_iff)
  then have "session_at db (s_id row) = Some row" using ok row_at_in [of s_id "session_table db" row] by (simp add: keys_ok_def)
  with row u show ?thesis by (simp add: row_live_def is_usable_True)
qed

text \<open>
  C12: a logout is final under every interleaving. From the moment its write is made, whatever
  requests were in flight then or arrive later and however their turns interleave, the session
  is dead: no access token resolves to it and no refresh finds it. The ids that logins draw
  are taken to be new.
\<close>

theorem logout_final_overlapping:
  assumes ok: "keys_ok (race_db r)" and n: "n < length (r_jobs r)" "r_jobs r ! n = LogoutWrite s now"
    and t: "race_turn E fk (Resume n d) r = (r1, Some Finished)"
    and new: "\<forall>j \<in> set (r_jobs r). \<not> opens j (s_id s)" "\<forall>mv \<in> set mvs. \<not> draws_session mv (s_id s)"
  shows "\<not> row_live (race_db (race_run E fk mvs r1)) (s_id s) \<and>
    (\<forall>t now' tok i. resolve_access_token E (race_db (race_run E fk mvs r1)) t now' tok = Inr i \<longrightarrow> ai_session_id i \<noteq> s_id s) \<and>
    (\<forall>h d' s' now'. refresh_found E (race_db (race_run E fk mvs r1)) h d' = Inr (RefreshAccount s' now') \<longrightarrow> s_id s' \<noteq> s_id s)"
proof -
  let ?db = "race_db (race_run E fk mvs r1)"
  have r1: "r1 = race_step E fk (Resume n d) r" using t by (simp add: race_step_def)
  have "race_db r1 = session_update (race_db r) (s_id s) (\<lambda>x. x\<lparr>s_revoked_at := Some now\<rparr>)"
    and "r_jobs r1 = without n (r_jobs r)"
    using t n by (auto simp: resume_def logout_write_def log_logout_def Let_def split: if_splits)
  then have "\<not> race_live r1 (s_id s)"
    using new(1) set_without [of n "r_jobs r"]
    by (auto simp: race_live_def row_live_def session_at_update split: option.splits)
  from rsess.dead_stays_dead [OF _ this] new(2) race_keys [OF ok] have "\<not> race_live (race_run E fk mvs r1) (s_id s)"
    by (simp add: race_run_def r1)
  then have dead: "\<not> row_live ?db (s_id s)" by (simp add: race_live_def)
  have "keys_ok ?db" unfolding r1 by (intro race_run_keys race_keys ok)
  with dead refresh_found_live resolve_found(1) show ?thesis by metis
qed

text \<open>Alice's session with one more request of hers in flight.\<close>

definition demo_draws :: draws where
  "demo_draws = \<lparr>d_time = 0, d_wall = utc 9, d_salt = 0, d_rehash = utc 9, d_fresh = sample_fresh ''s9'' ''t9'' 9\<rparr>"

definition in_flight :: "job list \<Rightarrow> race" where
  "in_flight js = \<lparr>r_auth = alice_online, r_jobs = js\<rparr>"

lemma in_flight_sel [simp]:
  "race_db (in_flight js) = a_db alice_online" "r_auth (in_flight js) = alice_online" "r_jobs (in_flight js) = js"
  by (simp_all add: in_flight_def)

lemma alice_keys: "keys_ok (a_db alice_online)"
  by (simp add: db_ok_keys)

theorem logout_final_overlapping_witness:
  "\<exists>r1. race_turn sample_env False (Resume 0 demo_draws) (in_flight [LogoutWrite alice_session (utc 8),
       RefreshWrite alice_session alice_row [116, 50] (sample_fresh ''s2'' ''t2'' 9)]) = (r1, Some Finished) \<and>
     \<not> row_live (race_db (race_run sample_env False [Resume 0 demo_draws] r1)) (lit ''s1'')"
proof -
  let ?r = "in_flight [LogoutWrite alice_session (utc 8),
       RefreshWrite alice_session alice_row [116, 50] (sample_fresh ''s2'' ''t2'' 9)]"
  obtain r1 where t: "race_turn sample_env False (Resume 0 demo_draws) ?r = (r1, Some Finished)"
    by (auto simp: resume_def logout_write_def)
  have "\<not> row_live (race_db (race_run sample_env False [Resume 0 demo_draws] r1)) (s_id alice_session)"
    using logout_final_overlapping [of ?r 0 alice_session "utc 8", OF _ _ _ t, of "[Resume 0 demo_draws]"]
    by (simp add: alice_keys demo_draws_def)
  with t show ?thesis by simp
qed

text \<open>
  C24: so is the deletion of an account. From the moment of its write no access token resolves
  to the account, whatever is in flight and whatever follows, unless an account of that id is
  registered.
\<close>

theorem deletion_final_overlapping:
  assumes ok: "keys_ok (race_db r)" and n: "n < length (r_jobs r)" "r_jobs r ! n = DeleteWrite u loaded now"
    and t: "race_turn E fk (Resume n d) r = (r1, Some Finished)"
    and new: "\<forall>j \<in> set (r_jobs r). \<not> creates_account j (u_id u)" "\<forall>mv \<in> set mvs. \<not> draws_account mv (u_id u)"
  shows "user_at (race_db (race_run E fk mvs r1)) (u_id u) = None \<and>
    (\<forall>t now' tok i. resolve_access_token E (race_db (race_run E fk mvs r1)) t now' tok = Inr i \<longrightarrow> ai_user_id i \<noteq> u_id u)"
proof -
  let ?db = "race_db (race_run E fk mvs r1)"
  have r1: "r1 = race_step E fk (Resume n d) r" using t by (simp add: race_step_def)
  have "race_db r1 = delete_loaded fk (fst (revoke_all_for_user (race_db r) (u_id u) now)) (u_id u) loaded"
    and "r_jobs r1 = without n (r_jobs r)"
    using t n by (auto simp: resume_def delete_write_def split_beta split: if_splits)
  then have "\<not> race_account r1 (u_id u)"
    using new(1) set_without [of n "r_jobs r"] user_at_delete_loaded [OF keys_kept(5) [OF ok]]
    by (auto simp: race_account_def)
  from racct.dead_stays_dead [OF _ this] new(2) race_keys [OF ok] have "\<not> race_account (race_run E fk mvs r1) (u_id u)"
    by (simp add: race_run_def r1)
  then have "user_at ?db (u_id u) = None" by (simp add: race_account_def)
  with resolve_found(2) show ?thesis by metis
qed

theorem deletion_final_overlapping_witness:
  "\<exists>r1. race_turn sample_env False (Resume 0 demo_draws) (in_flight [DeleteWrite alice_row [lit ''s1''] (utc 8),
       LoginWrite alice_row None [116, 50] (sample_fresh ''s2'' ''t2'' 9)]) = (r1, Some Finished) \<and>
     user_at (race_db (race_run sample_env False [Resume 0 demo_draws] r1)) (lit ''u1'') = None"
proof -
  let ?r = "in_flight [DeleteWrite alice_row [lit ''s1''] (utc 8),
       LoginWrite alice_row None [116, 50] (sample_fresh ''s2'' ''t2'' 9)]"
  obtain r1 where t: "race_turn sample_env False (Resume 0 demo_draws) ?r = (r1, Some Finished)"
    by (auto simp: resume_def delete_write_def split_beta)
  have "user_at (race_db (race_run sample_env False [Resume 0 demo_draws] r1)) (u_id alice_row) = None"
    using deletion_final_overlapping [of ?r 0 alice_row "[lit ''s1'']" "utc 8", OF _ _ _ t, of "[Resume 0 demo_draws]"]
    by (simp add: alice_keys)
  with t show ?thesis by (simp add: alice_row_def)
qed

text \<open>
  C28: no name is given out twice. Whatever overlaps, the tables keep their keys: ids, session ids
  and normalised names stay unique; and a registration whose name has been taken in the
  meantime, even since it arrived, is refused with the conflict answer and writes nothing.
\<close>

theorem names_unique_overlapping:
  assumes "keys_ok (race_db r)"
  shows "keys_ok (race_db (race_run E fk mvs r)) \<and>
    (\<forall>j d uid username n ph now u. j = RegisterWrite uid username n ph now \<and>
        u \<in> set (user_table (race_db (race_run E fk mvs r))) \<and> u_normalized u = n \<longrightarrow>
      a_db (fst (resume E fk (r_auth (race_run E fk mvs r)) j d)) = race_db (race_run E fk mvs r) \<and>
      snd (resume E fk (r_auth (race_run E fk mvs r)) j d) = Inl (Failed (auth_raise_status AUTH_REGISTRATION_REJECTED 409
        (lit ''identifier already registered''))))"
proof (intro conjI allI impI)
  show "keys_ok (race_db (race_run E fk mvs r))" using race_run_keys [OF assms] .
next
  fix j d uid username n ph now u
  let ?st = "r_auth (race_run E fk mvs r)"
  assume "j = RegisterWrite uid username n ph now \<and> u \<in> set (user_table (race_db (race_run E fk mvs r))) \<and> u_normalized u = n"
  then have j: "j = RegisterWrite uid username n ph now"
    and "user_create (a_db ?st) uid username n ph now = (a_db ?st, Inl UsernameTakenError)"
    by (auto simp: user_create_def list_ex_iff)
  then show "a_db (fst (resume E fk ?st j d)) = a_db ?st"
    and "snd (resume E fk ?st j d) = Inl (Failed (auth_raise_status AUTH_REGISTRATION_REJECTED 409
        (lit ''identifier already registered'')))"
    by (simp_all add: resume_def register_write_def)
qed

theorem names_unique_overlapping_witness:
  "snd (resume sample_env False (r_auth (race_run sample_env False [] (in_flight [])))
       (RegisterWrite (lit ''u2'') (lit ''ALICE'') (lit ''alice'') [] (utc 9)) demo_draws) =
     Inl (Failed (auth_raise_status AUTH_REGISTRATION_REJECTED 409 (lit ''identifier already registered'')))"
proof -
  have alice: "alice_row \<in> set (user_table (race_db (race_run sample_env False [] (in_flight []))))"
    "u_normalized alice_row = lit ''alice''"
    by (simp_all add: race_run_def alice_logs_in alice_row_def)
  have k: "keys_ok (race_db (in_flight []))" using alice_keys by simp
  show ?thesis
    by (rule conjunct2 [OF conjunct2 [OF names_unique_overlapping [OF k], rule_format, OF conjI [OF refl conjI [OF alice]]]])
qed

text \<open>
  A session can outlive its account. When a login has verified the password and the account
  is deleted before the login writes, then, unless the database enforces foreign keys, the
  login succeeds all the same: it leaves a live session of an account that does not exist. Its
  tokens resolve to nobody and cannot be refreshed; with foreign keys the login fails and
  leaves nothing.
\<close>

lemma login_outlives_deletion:
  assumes ok: "keys_ok (a_db st)" and d: "delete_write fk st u loaded now = (st1, rep1)"
    and w: "login_write E fk st1 u None h f = (st2, rep2)"
    and new: "session_at (a_db st1) (f_session_id f) = None"
  shows "(if fk then rep2 = Failed IntegrityError \<and> st2 = st1
     else rep2 = Issued (credentials_for E u (f_session_id f) f) \<and> row_live (a_db st2) (f_session_id f)) \<and>
    user_at (a_db st2) (u_id u) = None \<and>
    (\<forall>t now' tok i. resolve_access_token E (a_db st2) t now' tok = Inr i \<longrightarrow> ai_user_id i \<noteq> u_id u)"
proof -
  have "a_db st1 = delete_loaded fk (fst (revoke_all_for_user (a_db st) (u_id u) now)) (u_id u) loaded"
    using d by (auto simp: delete_write_def split: prod.splits)
  then have u1: "user_at (a_db st1) (u_id u) = None"
    using user_at_delete_loaded [OF keys_kept(5) [OF ok]] by simp
  have free: "\<not> list_ex (\<lambda>s. s_id s = f_session_id f) (session_table (a_db st1))"
    using new by (auto simp: row_at_None list_ex_iff)
  have "(if fk then rep2 = Failed IntegrityError \<and> st2 = st1
     else rep2 = Issued (credentials_for E u (f_session_id f) f) \<and> row_live (a_db st2) (f_session_id f)) \<and>
     user_table (a_db st2) = user_table (a_db st1)"
    using w u1 free new
    by (auto simp: login_write_def session_create_def Let_def row_live_def row_at_append)
  then have s: "if fk then rep2 = Failed IntegrityError \<and> st2 = st1
     else rep2 = Issued (credentials_for E u (f_session_id f) f) \<and> row_live (a_db st2) (f_session_id f)"
    and "user_at (a_db st2) (u_id u) = None" using u1 by simp_all
  with resolve_found(2) show ?thesis by metis
qed

lemma login_outlives_deletion_witness:
  "\<exists>st1 st2. delete_write False alice_online alice_row [lit ''s1''] (utc 8) = (st1, Finished) \<and>
     login_write sample_env False st1 alice_row None [116, 50] (sample_fresh ''s2'' ''t2'' 9) =
       (st2, Issued (credentials_for sample_env alice_row (lit ''s2'') (sample_fresh ''s2'' ''t2'' 9))) \<and>
     row_live (a_db st2) (lit ''s2'') \<and> user_at (a_db st2) (lit ''u1'') = None"
proof -
  obtain st1 where d: "delete_write False alice_online alice_row [lit ''s1''] (utc 8) = (st1, Finished)"
    by (auto simp: delete_write_def split_beta)
  obtain st2 rep where w: "login_write sample_env False st1 alice_row None [116, 50] (sample_fresh ''s2'' ''t2'' 9) = (st2, rep)"
    by fastforce
  have "session_at (a_db st1) (lit ''s2'') = None"
    using d by (auto simp: delete_write_def delete_loaded_def split_beta revoke_all_for_user_def Let_def alice_logs_in row_at_def)
  then show ?thesis
    using login_outlives_deletion [OF alice_keys d w] d w by (simp add: alice_row_def)
qed

end
