(* ===== verification/Restart.thy ===== *)
theory Restart
  imports Application AuthProps
begin

text \<open>
  One life of the application after another (\<open>db.py\<close>, the lifespan of \<open>main.py\<close>): what the
  choice of the engine means for the tables, and that a session which has ended stays ended
  whatever is kept.
\<close>

section \<open>The schema and the lifespan\<close>

text \<open>
  The database files, by the URL that names them. \<open>create_schema\<close> creates the tables that do not
  exist yet: an in-memory database lives inside the one connection of its engine and has none, a
  file has those of the process before.
\<close>

type_synonym files = "ustr \<Rightarrow> database option"

definition create_schema :: "engine_choice \<Rightarrow> files \<Rightarrow> database" where
  "create_schema engine files = (case engine of
     SharedConnection _ \<Rightarrow> empty_db
   | NormalPool url _ \<Rightarrow> (case files url of None \<Rightarrow> empty_db | Some db \<Rightarrow> db))"

definition lifespan_start ::
  "unicode_db \<Rightarrow> environ \<Rightarrow> ustr \<Rightarrow> transport_limits option \<Rightarrow> auth_config option \<Rightarrow> ustr option \<Rightarrow> files \<Rightarrow> system" where
  "lifespan_start U env ephemeral lims conf url files =
     create_app U env ephemeral lims conf (create_schema (create_engine U env url) files)"

text \<open>Disposing of the engine closes its connections; the committed tables are in the file, if there is one.\<close>

definition lifespan_end :: "unicode_db \<Rightarrow> environ \<Rightarrow> ustr option \<Rightarrow> system \<Rightarrow> files \<Rightarrow> files" where
  "lifespan_end U env url s files = (case create_engine U env url of
     SharedConnection _ \<Rightarrow> files
   | NormalPool u _ \<Rightarrow> files(u \<mapsto> a_db (sys_auth (shut_down s))))"

text \<open>\<open>session_scope\<close>: the code that runs with its session is one transaction.\<close>

definition session_scope :: "auth_state \<Rightarrow> (auth_state \<Rightarrow> auth_state \<times> ('e + 'a)) \<Rightarrow> auth_state \<times> ('e + 'a)" where
  "session_scope st body = transaction st (body st)"

lemma restarted_tables:
  "a_db (sys_auth (lifespan_start U env eph lims conf url (lifespan_end U env url s files))) =
    (case create_engine U env url of SharedConnection _ \<Rightarrow> empty_db | NormalPool _ _ \<Rightarrow> a_db (sys_auth s))"
  by (simp add: lifespan_start_def create_app_def initial_def new_service_def create_schema_def lifespan_end_def
      shut_down_def Let_def split: engine_choice.split)

section \<open>The service along a run\<close>

fun service_ops :: "label list \<Rightarrow> auth_op list" where
  "service_ops [] = []"
| "service_ops (l # ls) = service_ops ls @ (case l of LAuth op \<Rightarrow> [op] | _ \<Rightarrow> [])"

lemma service_ops_in: "op \<in> set (service_ops ls) \<longleftrightarrow> LAuth op \<in> set ls"
  by (induction ls) (auto split: label.splits)

lemma step_service:
  "sys_step A E l s = Some s' \<Longrightarrow> sys_auth s' = (case l of LAuth op \<Rightarrow> auth_step A op (sys_auth s) | _ \<Rightarrow> sys_auth s)"
  by (cases l) (auto split: if_splits option.splits prod.splits sum.splits phase.splits)

lemma reaches_service:
  assumes "reaches A E s0 ls s"
  shows "sys_auth s = auth_run A (service_ops ls) (sys_auth s0)"
  using assms
proof (induction rule: reaches.induct)
  case (step ls s l s')
  with step_service [of A E l s s'] show ?case by (simp add: auth_run_def split: label.split)
qed (simp add: auth_run_def)

text \<open>
  A session that has ended stays ended through a restart: no token resolves to it in any state of
  the next process, on a file or in memory and with whatever secret, unless its id is drawn anew.
\<close>

lemma ended_stays_ended:
  assumes ok: "db_ok (a_db (sys_auth s))" and dead: "\<not> session_live (sys_auth s) sid"
    and later: "reaches A' E (lifespan_start U env eph lims conf url (lifespan_end U env url s files)) ls s'"
    and new: "\<And>op. LAuth op \<in> set ls \<Longrightarrow> \<not> opens_session op sid"
    and r: "resolve_access_token A' (a_db (sys_auth s')) t now token = Inr i"
  shows "ai_session_id i \<noteq> sid"
proof -
  let ?a = "sys_auth (lifespan_start U env eph lims conf url (lifespan_end U env url s files))"
  have db: "a_db ?a = empty_db \<or> a_db ?a = a_db (sys_auth s)" unfolding restarted_tables by (simp split: engine_choice.split)
  then have ok': "db_ok (a_db ?a)" and dead': "\<not> session_live ?a sid"
    using ok dead by (auto simp: db_ok_empty [unfolded empty_db_def] session_live_def empty_db_def row_at_def)
  have ops: "\<not> opens_session op sid" if "op \<in> set (service_ops ls)" for op using new that by (simp add: service_ops_in)
  have "\<not> session_live (sys_auth s') sid" "db_ok (a_db (sys_auth s'))"
    using sess.dead_stays_dead [OF ok' dead' ops] sess.run_ok [OF ok'] reaches_service [OF later]
    by (simp_all add: auth_run_def)
  with resolve_live(1) [OF _ r] show ?thesis by blast
qed

end
