(* ===== verification/Stranded.thy ===== *)
theory Stranded
  imports Delivery
begin

text \<open>
  An upgrade whose \<open>accept\<close> fails (\<open>websocket_transport\<close> awaits it after it has registered the
  connection and before its \<open>try\<close> block): nothing unregisters the connection, in any later state.
\<close>

section \<open>Entries without a handler\<close>

definition failed_accepts :: "label list \<Rightarrow> ustr set" where
  "failed_accepts ls = {cid. LAcceptFailed cid \<in> set ls}"

lemma failed_accepts_simps [simp]: "failed_accepts [] = {}"
  "failed_accepts (l # ls) = (case l of LAcceptFailed x \<Rightarrow> insert x (failed_accepts ls) | _ \<Rightarrow> failed_accepts ls)"
  by (auto simp: failed_accepts_def split: label.split)

lemma step_accept_failed:
  assumes st: "sys_step A E (LAcceptFailed x) s = Some s'" and h: "handlers_ok s"
  shows "get_connection (srv_manager (sys_server s')) x \<noteq> None" and "dict_get (sys_handlers s') x = None"
proof -
  from st have a: "accepting s x" and s': "s' = s\<lparr>sys_handlers := dict_del (sys_handlers s) x\<rparr>" by (auto split: if_splits)
  from acceptingD [OF a] obtain hn where "dict_get (sys_handlers s) x = Some hn" by blast
  from handlers_okD [OF h this] show "get_connection (srv_manager (sys_server s')) x \<noteq> None" unfolding s' by auto
  show "dict_get (sys_handlers s') x = None" by (simp add: s')
qed

lemma reaches_failed:
  assumes "reaches A E s0 ls s" and init: "sys_ok A E s0 [] s0"
  shows "\<forall>x \<in> failed_accepts ls. get_connection (srv_manager (sys_server s)) x \<noteq> None \<and> dict_get (sys_handlers s) x = None"
  using assms(1)
proof (induction rule: reaches.induct)
  case (step ls s l s')
  note ok = sys_okD [OF reaches_ok [OF step.hyps(1) init]]
  show ?case
  proof
    fix x assume x: "x \<in> failed_accepts (l # ls)"
    show "get_connection (srv_manager (sys_server s')) x \<noteq> None \<and> dict_get (sys_handlers s') x = None"
    proof (cases "l = LAcceptFailed x")
      case True
      with step_accept_failed [of A E x s s'] step.hyps(2) ok(3) show ?thesis by blast
    next
      case False
      then have "x \<in> failed_accepts ls" using x by (auto split: label.splits)
      with step.IH obtain c where "get_connection (srv_manager (sys_server s)) x = Some c" "dict_get (sys_handlers s) x = None" by blast
      from step_stranded [OF step.hyps(2) ok(1,3) this] show ?thesis by auto
    qed
  qed
qed simp

lemma registered_count:
  assumes "manager_ok m" and "\<And>x. x \<in> X \<Longrightarrow> get_connection m x \<noteq> None"
  shows "int (card X) \<le> connection_count m"
proof -
  have "X \<subseteq> set (map fst (connections m))"
    using assms(2) by (auto simp: get_connection_def map_of_eq_None_iff)
  then have "card X \<le> card (set (map fst (connections m)))" by (simp add: card_mono)
  also have "\<dots> \<le> length (connections m)" by (metis card_length length_map)
  finally show ?thesis by (simp add: connection_count_def)
qed

lemma full_refuses:
  assumes "max_total_connections (limits m) \<le> connection_count m"
  shows "register m tid host now wnow cid = (m, Inl TotalLimitReached)"
  using assms by (simp add: register_def connection_count_def)

lemma full_upgrade:
  assumes "max_total_connections (limits (srv_manager (sys_server s))) \<le> connection_count (srv_manager (sys_server s))"
    and "sys_step A E (LConnect origin host now wnow anon cid) s = Some s'"
  shows "srv_manager (sys_server s') = srv_manager (sys_server s) \<and> sys_handlers s' = sys_handlers s"
proof -
  obtain sv code where "ws_connect (sys_server s) origin host now wnow anon cid = (sv, Inl code)"
    using full_refuses [OF assms(1)]
    by (cases "is_origin_allowed (limits (srv_manager (sys_server s))) origin") (simp_all add: ws_connect_def reject_upgrade_def)
  with ws_connect_Inl [OF this] assms(2) show ?thesis by (auto split: if_splits)
qed

text \<open>
  C38: an upgrade that fails is never forgotten. When the \<open>accept\<close> of a connection raises or is
  cancelled, the connection stays registered without a handler in every later state, whatever
  happens; the failed upgrades are counted among the registered connections for good, and once
  there are as many as the server may hold connections it refuses every upgrade.
\<close>

theorem failed_accept_strands:
  assumes "limits_ok l" and "db_ok db" and r: "reaches A E (initial c db l) ls s"
  shows "(\<forall>x \<in> failed_accepts ls. get_connection (srv_manager (sys_server s)) x \<noteq> None \<and>
      dict_get (sys_handlers s) x = None) \<and>
    int (card (failed_accepts ls)) \<le> connection_count (srv_manager (sys_server s)) \<and>
    (max_total_connections l \<le> int (card (failed_accepts ls)) \<longrightarrow>
      (\<forall>origin host now wnow anon x s'. sys_step A E (LConnect origin host now wnow anon x) s = Some s' \<longrightarrow>
        srv_manager (sys_server s') = srv_manager (sys_server s) \<and> sys_handlers s' = sys_handlers s))"
proof -
  note init = initial_ok [OF assms(1,2)]
  note failed = reaches_failed [OF r init]
  note ok = sys_okD(1) [OF reaches_ok [OF r init]]
  have l: "limits (srv_manager (sys_server s)) = l" using reaches_limits [OF r init] by (simp add: initial_def new_manager_def)
  have n: "int (card (failed_accepts ls)) \<le> connection_count (srv_manager (sys_server s))"
    by (rule registered_count [OF ok]) (use failed in blast)
  have full: "srv_manager (sys_server s') = srv_manager (sys_server s) \<and> sys_handlers s' = sys_handlers s"
    if "max_total_connections l \<le> int (card (failed_accepts ls))"
      "sys_step A E (LConnect origin host now wnow anon x) s = Some s'" for origin host now wnow anon x s'
    by (rule full_upgrade [OF _ that(2)]) (use that(1) n l in simp)
  then have "\<forall>origin host now wnow anon x s'. sys_step A E (LConnect origin host now wnow anon x) s = Some s' \<longrightarrow>
      srv_manager (sys_server s') = srv_manager (sys_server s) \<and> sys_handlers s' = sys_handlers s"
    if "max_total_connections l \<le> int (card (failed_accepts ls))" using that by blast
  with failed n show ?thesis by blast
qed

text \<open>A server for one connection, and a client that goes away before it is accepted.\<close>

definition narrow_limits :: transport_limits where
  "narrow_limits = transport_limits_defaults\<lparr>max_total_connections := 1\<rparr>"

theorem failed_accept_strands_witness:
  "\<exists>s. reaches pocket_env sample_transport (initial (e_config pocket_env) pocket_db narrow_limits)
       [LAcceptFailed (lit ''c1''), LConnect None None 0 (utc 0) (lit ''c1'') (lit ''c1'')] s \<and>
     get_connection (srv_manager (sys_server s)) (lit ''c1'') \<noteq> None \<and>
     (\<forall>now anon s'. sys_step pocket_env sample_transport (LConnect None None now (utc 0) anon (lit ''c2'')) s = Some s' \<longrightarrow>
        sys_handlers s' = sys_handlers s)"
proof -
  let ?ls = "[LAcceptFailed (lit ''c1''), LConnect None None 0 (utc 0) (lit ''c1'') (lit ''c1'')]"
  let ?start = "initial (e_config pocket_env) pocket_db narrow_limits"
  have l: "limits_ok narrow_limits" "db_ok pocket_db" using demo_start_ok by (simp_all add: narrow_limits_def limits_ok_def)
  obtain s1 where s1: "sys_step pocket_env sample_transport (LConnect None None 0 (utc 0) (lit ''c1'') (lit ''c1'')) ?start = Some s1"
    "accepting s1 (lit ''c1'')"
    by (simp add: initial_def new_manager_def get_connection_def ws_connect_def is_origin_allowed_def narrow_limits_def
        transport_limits_defaults_def register_def accepting_def Let_def)
  let ?s = "s1\<lparr>sys_handlers := dict_del (sys_handlers s1) (lit ''c1'')\<rparr>"
  have "sys_step pocket_env sample_transport (LAcceptFailed (lit ''c1'')) s1 = Some ?s" using s1(2) by simp
  from reaches.step [OF reaches.step [OF reaches.start s1(1)] this]
  have r: "reaches pocket_env sample_transport ?start ?ls ?s" .
  have m: "max_total_connections narrow_limits \<le> int (card (failed_accepts ?ls))" by (simp add: narrow_limits_def)
  note f = failed_accept_strands [OF l r]
  have "get_connection (srv_manager (sys_server ?s)) (lit ''c1'') \<noteq> None" using conjunct1 [OF f] by simp
  moreover have "sys_handlers s' = sys_handlers ?s"
    if "sys_step pocket_env sample_transport (LConnect None None now (utc 0) anon (lit ''c2'')) ?s = Some s'" for now anon s'
    using conjunct2 [OF conjunct2 [OF f], rule_format, OF m that] by blast
  ultimately show ?thesis using r by blast
qed

end
