(* ===== verification/NaiveDates.thy ===== *)
theory NaiveDates
  imports Delivery AuthProps
begin

text \<open>
  The whole server on the database driver it is installed with. SQLite gives dates back without
  their zone, the clock of \<open>resolve_access_token\<close> and \<open>refresh\<close> has one, and Python does not compare
  the two: what follows for every reachable state.
\<close>

section \<open>No session is ever usable\<close>

lemma naive_unusable:
  assumes "is_aware now"
  shows "is_usable (load_session sqlite_load s) now \<noteq> Inr True"
  using assms by (cases now) (auto simp: is_usable_def load_session_def sqlite_load_def dt_gt_None_iff split: option.split)

lemma naive_resolve:
  assumes "e_load A = sqlite_load" and "is_aware now"
  shows "resolve_access_token A db t now tok \<noteq> Inr i"
proof
  assume r: "resolve_access_token A db t now tok = Inr i"
  then obtain sid s where g: "session_get sqlite_load db sid = Inr (Some s)" and u: "is_usable s now = Inr True"
    by (auto simp: resolve_access_token_def assms(1) split: sum.splits option.splits bool.splits)
  from g obtain s0 where "s = load_session sqlite_load s0"
    by (auto simp: session_get_def scalar_one_or_none_def split: list.splits)
  with u naive_unusable [OF assms(2), of s0] show False by simp
qed

lemma naive_refresh:
  assumes "e_load A = sqlite_load" and "is_aware (f_now f)"
  shows "snd (service_refresh A st token f) \<noteq> Inr cr"
proof
  assume r: "snd (service_refresh A st token f) = Inr cr"
  then obtain h s where g: "get_by_refresh_hash sqlite_load (a_db st) h = Inr (Some s)" and u: "is_usable s (f_now f) = Inr True"
    by (auto simp: service_refresh_def assms(1) split: sum.splits option.splits bool.splits if_splits)
  from g obtain s0 where "s = load_session sqlite_load s0"
    by (auto simp: get_by_refresh_hash_def scalar_one_or_none_def split: list.splits)
  with u naive_unusable [OF assms(2), of s0] show False by simp
qed

text \<open>The clock of a token check has a zone: the code reads \<open>datetime.now(UTC)\<close>.\<close>

definition aware_checks :: "label list \<Rightarrow> bool" where
  "aware_checks ls \<longleftrightarrow> list_all (\<lambda>l. case l of LResolve _ _ now \<Rightarrow> is_aware now | _ \<Rightarrow> True) ls"

lemma aware_checks_simps [simp]: "aware_checks []"
  "aware_checks (l # ls) \<longleftrightarrow> (case l of LResolve _ _ now \<Rightarrow> is_aware now | _ \<Rightarrow> True) \<and> aware_checks ls"
  by (simp_all add: aware_checks_def)

lemma nobody_identified:
  assumes "e_load A = sqlite_load" and "aware_checks ls"
  shows "identities A E s0 ls = {}"
  using assms(2)
proof (induction ls)
  case (Cons l ls)
  then have "resolved_at A l s = {}" for s
    using naive_resolve [OF assms(1)] by (auto simp: resolved_at_def)
  with Cons show ?case by (simp split: option.split)
qed simp

text \<open>
  C22: on SQLite nobody is ever signed in. With a database that gives dates back without their
  zone, in every reachable state no access token resolves and no refresh token is honoured,
  whatever accounts and sessions there are and whoever logged in correctly; no connection is
  authenticated and no message is ever on its way.
\<close>

theorem naive_dates_lock_out:
  assumes "limits_ok l" and "db_ok db" and load: "e_load A = sqlite_load"
    and r: "reaches A E (initial c db l) ls s" and aware: "aware_checks ls"
  shows "(\<forall>t now tok i. is_aware now \<longrightarrow> resolve_access_token A (a_db (sys_auth s)) t now tok \<noteq> Inr i) \<and>
    (\<forall>token f cr. is_aware (f_now f) \<longrightarrow> snd (service_refresh A (sys_auth s) token f) \<noteq> Inr cr) \<and>
    (\<forall>cid k. get_connection (srv_manager (sys_server s)) cid = Some k \<longrightarrow> \<not> authenticated k) \<and>
    (\<forall>j. \<not> receipt_in (srv_manager (sys_server s)) j)"
proof -
  have "accounted (srv_manager (sys_server s)) {}"
    using reaches_ok [OF r initial_ok [OF assms(1,2)]] nobody_identified [OF load aware] by (simp add: sys_ok_def)
  then show ?thesis using naive_resolve [OF load] naive_refresh [OF load] unfolding accounted_def by blast
qed

definition sqlite_env :: auth_env where
  "sqlite_env = pocket_env\<lparr>e_load := sqlite_load\<rparr>"

lemma sqlite_check:
  "resolve_access_token sqlite_env pocket_db (utc 6) (utc 7) (lit ''T'') = Inl TypeError"
  by (simp add: resolve_access_token_def decode_access_token_def sqlite_env_def pocket_env_def pocket_jwt_def TOKEN_ACCESS_def
      claim_time_def claim_int_def session_get_def pocket_db_def scalar_one_or_none_def is_usable_def load_session_def
      refresh_expiry_def sqlite_load_def utc_def)

lemma step_any_env:
  assumes "case l of LAuth _ \<Rightarrow> False | LResolve _ _ _ \<Rightarrow> False | _ \<Rightarrow> True"
  shows "sys_step A E l s = sys_step A' E l s"
  using assms by (cases l) simp_all

text \<open>The run of \<open>SystemSamples\<close> up to the token check, on SQLite: the connection is closed.\<close>

theorem naive_dates_lock_out_witness:
  "\<exists>s. reaches sqlite_env sample_transport demo_start
       [LBind (lit ''c1''), LResolve (lit ''c1'') (utc 6) (utc 7), LFrame (lit ''c1'') auth_frame 2 (utc 0),
        LAccepted (lit ''c1''), LConnect None None 0 (utc 0) (lit ''c1'') (lit ''c1'')] s \<and>
     sys_handlers s = [(lit ''c1'', \<lparr>h_phase = Closing CLOSE_NORMAL, h_writer = WriterRunning\<rparr>)] \<and>
     (\<forall>t now tok i. is_aware now \<longrightarrow> resolve_access_token sqlite_env (a_db (sys_auth s)) t now tok \<noteq> Inr i)"
proof -
  let ?k = "lit ''anon-'' @ lit ''c1''" and ?q = "new_queue 50 500" and ?r = "reaches sqlite_env sample_transport demo_start"
  note other = step_any_env [of _ sqlite_env sample_transport _ pocket_env]
  have "sys_step sqlite_env sample_transport (LConnect None None 0 (utc 0) (lit ''c1'') (lit ''c1'')) demo_start = Some (dialled [])"
    using run_connect by (simp add: other demo_start_def del: sys_step.simps)
  note r1 = reaches.step [OF reaches.start this]
  obtain g where "sys_step sqlite_env sample_transport (LAccepted (lit ''c1'')) (dialled []) =
      Some (solo_at (online [ready_message] 0 0) ?k ?q Receiving g)"
    using run_accept by (auto simp: other simp del: sys_step.simps)
  note r2 = reaches.step [OF r1 this]
  have "sys_step sqlite_env sample_transport (LFrame (lit ''c1'') auth_frame 2 (utc 0))
      (solo_at (online [ready_message] 0 0) ?k ?q Receiving g) =
    Some (solo_at (online [ready_message] 2 2) ?k ?q (Resolving auth_envelope (lit ''T'')) g)"
    using run_auth by (simp add: other del: sys_step.simps)
  note r3 = reaches.step [OF r2 this]
  have "sys_step sqlite_env sample_transport (LResolve (lit ''c1'') (utc 6) (utc 7))
      (solo_at (online [ready_message] 2 2) ?k ?q (Resolving auth_envelope (lit ''T'')) g) =
    Some (solo_at (online [ready_message] 2 2) ?k ?q (Resolved auth_envelope (Inl TypeError)) g)"
    using sqlite_check by (simp add: solo_at_def new_service_def)
  note r4 = reaches.step [OF r3 this]
  obtain s where s: "sys_step sqlite_env sample_transport (LBind (lit ''c1''))
      (solo_at (online [ready_message] 2 2) ?k ?q (Resolved auth_envelope (Inl TypeError)) g) = Some s"
    "sys_handlers s = [(lit ''c1'', \<lparr>h_phase = Closing CLOSE_NORMAL, h_writer = WriterRunning\<rparr>)]"
    by (simp add: solo_at_def auth_finish_def after_turn_def)
  note r5 = reaches.step [OF r4 s(1)]
  have "e_load sqlite_env = sqlite_load" "is_aware (utc 7)" by (simp_all add: sqlite_env_def utc_def)
  with naive_dates_lock_out [OF demo_start_ok _ r5 [unfolded demo_start_def]] r5 s(2) show ?thesis by auto
qed

end
