(* ===== verification/Spec2Isabelle.thy ===== *)
theory Spec2Isabelle
  imports ComponentProps LoginWindow SystemSamples Gaps RouteRules Application ChatRefinement Deadlines LoginHistory
    Lingering ApiTypes LogPrivacy RefreshTokens Races Restart Stranded NaiveDates
begin

text \<open>
  A model of the server of the Encrypt-Chat-App repository (\<open>src/server/app\<close>, Python), with
  the theorems that make it correct. The server has two halves over one process. The HTTP
  half registers accounts, checks passwords and keeps sessions in a database. The WebSocket
  half keeps a registry of connections in memory, binds a connection to an account once its
  access token has been resolved by the first half, and passes messages on to the live
  connections of the recipient or to a bounded queue for one who is away.

  \<^bold>\<open>Shared material.\<close> \<open>Prelude\<close>: Python dictionaries, strings, floats and points in time.
  \<open>PyText\<close>: the string built-ins (\<open>strip\<close>, \<open>partition\<close>, \<open>int\<close>, \<open>encode\<close>), over a record of
  Unicode tables. \<open>Json\<close>: \<open>json.loads\<close> with its errors. \<open>Logging\<close>: log records.

  \<^bold>\<open>The transport.\<close> \<open>WsProtocol\<close> (\<open>websocket/protocol.py\<close>, \<open>errors.py\<close>): message types,
  statuses, codes. \<open>Schemas\<close> (\<open>schemas.py\<close>): the inbound envelope and every outbound model.
  \<open>OfflineQueue\<close> (\<open>queue.py\<close>), \<open>TransportLimits\<close> (\<open>limits.py\<close>: environment, Origin policy,
  rate limiter), \<open>AsyncQueue\<close> (the part of \<open>asyncio.Queue\<close> the outbound queues use),
  \<open>Manager\<close> (\<open>manager.py\<close>: the record \<open>connection_context\<close> is \<open>ConnectionContext\<close>, the record
  \<open>manager\<close> has the fields of \<open>ConnectionManager\<close>, one definition per method). \<open>Endpoint\<close>
  (\<open>endpoint.py\<close>): the handler of a connection, cut at its awaits: a \<open>turn\<close> is what runs from
  one \<open>await\<close> to the next (\<open>ws_connect\<close> up to \<open>accept\<close>, \<open>ws_accepted\<close> after it, \<open>recv_frame\<close>,
  \<open>recv_timeout\<close>, \<open>recv_disconnect\<close>, \<open>auth_finish\<close>, \<open>writer_turn\<close>, \<open>close_begin\<close>, \<open>close_end\<close>).

  \<^bold>\<open>Authentication.\<close> \<open>AuthErrors\<close>, \<open>AuthConfig\<close>, \<open>Identifiers\<close>, \<open>Password\<close>, \<open>FailedLogins\<close>
  (\<open>auth/rate_limit.py\<close>), \<open>Tokens\<close>, \<open>Repository\<close> (\<open>models.py\<close>, \<open>repository.py\<close>: the tables as
  lists of rows), \<open>AuthService\<close> (\<open>service.py\<close>: one definition per method, login cut at its
  await; and the transaction of \<open>get_db\<close>), \<open>RefreshTokens\<close> (how \<open>tokens.py\<close> makes a refresh token
  out of random bytes, and \<open>refresh\<close> cut between its reads and its write), \<open>Overlap\<close> (every
  operation of the service cut at its database calls: what has arrived is a \<open>job\<close>, \<open>resume\<close> makes
  one call and runs on to the next), \<open>HttpRoutes\<close> (\<open>routes.py\<close>, \<open>schemas.py\<close>,
  \<open>dependencies.py\<close> and the handlers of \<open>main.py\<close>: \<open>http\<close> is one request).

  \<^bold>\<open>Composition.\<close> \<open>System\<close>: the whole server as a step relation \<open>reaches\<close> over an executable
  \<open>sys_step\<close>; a label is one service operation, one upgrade up to its \<open>accept\<close>, the end of an
  \<open>accept\<close> in success or failure, one frame, one token check, the use of its result, one timeout
  or disconnect, one turn of a writer task or the end of a handler, with the clock readings and
  fresh values it draws; every interleaving of handlers at these cuts is a sequence of labels. Two
  pairs of awaits are not cut apart: the two reads of one token check are one step (its result is
  used in a later one, so a logout may come between), and a writer's taking of a message and its
  sending are one turn. \<open>Races\<close>: the service alone, cut finer: any
  number of requests in flight, each at one of its database calls. \<open>Application\<close> (\<open>main.py\<close>,
  \<open>db.py\<close>): the state an application starts in and what its shutdown leaves. \<open>Restart\<close>
  (\<open>create_schema\<close>, \<open>session_scope\<close>, the lifespan): one life of the application after another
  on the database that its engine is created for.

  \<^bold>\<open>What the lemmas show.\<close> \<open>ManagerInv\<close> and \<open>EndpointInv\<close>: the registry invariant
  \<open>manager_ok\<close> under every method and every turn. \<open>AuthInv\<close>: the tables' integrity \<open>db_ok\<close>
  under every operation. \<open>SystemInv\<close>, \<open>Registry\<close>: invariants of the reachable states by rule
  induction. \<open>Delivery\<close>: the outbound queues along a run, what a writer has sent against what was
  accepted. \<open>Addressed\<close>: where a message may wait. \<open>Quiescence\<close>: a measure of the work that is
  left without inputs. \<open>ChatSpec\<close> is an abstract specification of the transport (members with a
  name and a bounded box, bounded mailboxes for names nobody has), \<open>ChatRefinement\<close> the proof
  that the server implements it. \<open>Deadlines\<close>: the same steps with a clock, every wait for a frame
  with its own deadline; timers fire on time. \<open>LoginHistory\<close>: the failed-login tracker
  against a history that is never pruned. \<open>Custody\<close>: what becomes of the mail of a user who is
  away. \<open>Lingering\<close>: connections that outlive their account. \<open>ApiTypes\<close>: the shapes of HTTP answers
  and of WebSocket messages. \<open>LogPrivacy\<close>: what the transport's log can hold. \<open>OverlapAlone\<close>: a
  request that nothing comes between does at its database calls what the whole operation does,
  which is what lets the other theories take an operation as one step. \<open>Races\<close>: which promises of
  the service survive any overlap of its requests, and the one that does not. \<open>Restart\<close>: what the
  engine keeps, and that an ended session stays ended. \<open>Stranded\<close>: upgrades whose \<open>accept\<close> fails.
  \<open>NaiveDates\<close>: the server on a database that drops the zone of dates, as SQLite does.

  Interfaces are locales interpreted on the model: \<open>mailbox\<close> (the offline queue:
  what is queued is drained, once, in order), \<open>relay\<close> (delivery reaches the connections that
  hold a name and touches nobody else), \<open>revocable\<close> (what is dead stays dead; interpreted for
  sessions and accounts under service operations, for sessions under HTTP requests, and for
  sessions and accounts under overlapping requests),
  \<open>turn_relation\<close> (\<open>Turns\<close>: what holds of a handler's three elementary effects holds of its turns;
  interpreted for the growth of the queues, for the places of messages and for the operations
  of \<open>ChatSpec\<close>).
  \<open>AuthProps\<close>, \<open>TransportProps\<close>, \<open>LoginWindow\<close>, \<open>ComponentProps\<close>, \<open>RouteProps\<close>, \<open>RouteRules\<close>,
  \<open>Delivery\<close>, \<open>Addressed\<close>, \<open>Quiescence\<close>, \<open>ChatRefinement\<close>, \<open>Deadlines\<close>, \<open>LoginHistory\<close>,
  \<open>Custody\<close>, \<open>Lingering\<close>, \<open>ApiTypes\<close>, \<open>LogPrivacy\<close>,
  \<open>Races\<close> and this theory hold the properties; \<open>Gaps\<close>, \<open>Stranded\<close> and \<open>NaiveDates\<close> those that
  show the code doing something else than its comments say. \<open>Samples\<close>, \<open>TransportSamples\<close>, \<open>WireSamples\<close>, \<open>RouteSamples\<close> and
  \<open>SystemSamples\<close> are concrete instances on which they are applied.

  \<^bold>\<open>Parameters.\<close> Third-party code is an argument: Unicode tables (\<open>unicode_ok\<close> states what
  holds on ASCII), PyJWT (\<open>jwt_ok\<close>), argon2-cffi (\<open>argon2_ok\<close>), SHA-256, the source of
  random bytes, pydantic's reading and writing of dates and UUIDs, how the database gives dates
  back (\<open>e_load\<close>), FastAPI's assembly of an answer (\<open>framework_ok\<close>), the verdict of the
  per-address limiter (in the request), whether the database enforces foreign keys (\<open>fk\<close>). Each law
  is documented behaviour and holds for the sample instance. About \<open>e_load\<close> nothing is assumed:
  where the zone of a date matters the theorems say what happens with and without it, and
  \<open>sqlite_load\<close> is how the installed driver behaves.

  \<^bold>\<open>Bounds and fuel.\<close> The only fuel is the JSON scanner's: \<open>2 * length s + 2\<close> calls suffice
  for a text \<open>s\<close> (\<open>json_loads_fuel\<close>), because every second nested call consumes a character.
  Python's integers are unbounded, so \<open>int\<close>; floats of clocks are exact rationals with the
  infinities and NaN, rounding is not modelled.

  \<^bold>\<open>Not modelled.\<close> The network, the event loop, the database engine and SQLAlchemy's session
  factory; the commit of a request as an event of its own (the writes of a request and their
  commit are one step, a read sees the last commit, and a framework that commits after it has
  sent the answer is not told apart); the single connection that requests share when the
  database is in memory, on which their transactions can mix; the parsing of \<open>AUTH_LOGIN_RATE_LIMIT\<close> by slowapi; the bodies of FastAPI's
  own 422 and 500 answers; \<open>AuthConfig.__repr__\<close>; the cancellation of a handler from outside,
  other than in \<open>accept\<close>; the \<open>UnicodeEncodeError\<close> of a password with a lone surrogate in
  \<open>verify_password\<close>, which no request body can carry. The web client is not Python.
\<close>

section \<open>Every reachable state\<close>

text \<open>
  C1: nobody can put a message on its way under a name that is not his. In every state the
  server can reach from a start with empty registry, whatever clients, clocks, database
  operations and the network do and however handlers interleave, every message waiting in an
  outbound queue or offline carries as sender the name of an identity that a token resolved
  to earlier in the run, and every authenticated connection holds exactly such an identity,
  resolved for that connection.
\<close>

theorem sender_authentic:
  assumes "limits_ok l" and "db_ok db" and r: "reaches A E (initial c db l) ls s"
  shows "(\<forall>j. receipt_in (srv_manager (sys_server s)) j \<longrightarrow>
      (\<exists>cid i. (cid, i) \<in> identities A E (initial c db l) ls \<and>
         jfield j ''sender'' = Some (JStr (ai_username i)))) \<and>
    (\<forall>cid k. get_connection (srv_manager (sys_server s)) cid = Some k \<and> authenticated k \<longrightarrow>
      (\<exists>i. (cid, i) \<in> identities A E (initial c db l) ls \<and> holds k i))"
proof -
  have "accounted (srv_manager (sys_server s)) (identities A E (initial c db l) ls)"
    using reaches_ok [OF r initial_ok [OF assms(1,2)]] by (simp add: sys_ok_def)
  then show ?thesis unfolding accounted_def by blast
qed

theorem sender_authentic_witness:
  "\<exists>s cid i. reaches pocket_env sample_transport demo_start demo_labels s \<and>
     receipt_in (srv_manager (sys_server s)) receipt_message \<and>
     (cid, i) \<in> identities pocket_env sample_transport demo_start demo_labels \<and>
     jfield receipt_message ''sender'' = Some (JStr (ai_username i))"
proof -
  obtain g where r: "reaches pocket_env sample_transport demo_start demo_labels
      (solo_at (alice_online_as [ready_message, auth_ready_message, ack_message] 4 4) (lit ''alice'') bob_box
        Receiving g)" (is "reaches _ _ _ _ ?s") using demo_run by blast
  from sender_authentic [OF demo_start_ok r [unfolded demo_start_def]] r
    demo_receipt [of "alice_online_as [ready_message, auth_ready_message, ack_message] 4 4" "lit ''alice''"
      Receiving g]
  show ?thesis unfolding demo_start_def by blast
qed



section \<open>Registrations and handlers\<close>

lemma initial_paired: "paired (initial c db l)"
  by (simp add: paired_def initial_def get_connection_def)

text \<open>
  C18: no stale registry entry survives, as long as no writer task and no \<open>accept\<close> fails: in every
  reachable state the registry holds a connection exactly while its handler runs, and an account counts
  as connected exactly when the connection of some running handler has its name.
\<close>

theorem registry_follows_handlers:
  assumes "limits_ok l" and "db_ok db" and r: "reaches A E (initial c db l) ls s"
    and no_failure: "\<And>cid. LWrite cid SendFailed \<notin> set ls \<and> LAcceptFailed cid \<notin> set ls"
  shows "(\<forall>cid. get_connection (srv_manager (sys_server s)) cid = None \<longleftrightarrow> dict_get (sys_handlers s) cid = None) \<and>
    (\<forall>k. is_connected (srv_manager (sys_server s)) k \<longleftrightarrow>
       (\<exists>cid h d. dict_get (sys_handlers s) cid = Some h \<and>
          get_connection (srv_manager (sys_server s)) cid = Some d \<and> routing_identity d = k))"
proof -
  let ?m = "srv_manager (sys_server s)"
  note init = initial_ok [OF assms(1,2)]
  have p: "\<forall>x. get_connection ?m x = None \<longleftrightarrow> dict_get (sys_handlers s) x = None"
    using reaches_paired [OF r init initial_paired no_failure] unfolding paired_def by blast
  have "registry_ok ?m" using sys_okD(1) [OF reaches_ok [OF r init]] by (simp add: manager_ok_def)
  from is_connected_iff [OF this] have "is_connected ?m k \<longleftrightarrow>
      (\<exists>cid d. get_connection ?m cid = Some d \<and> routing_identity d = k)" for k
    by (simp add: holds_identity_def get_connection_def)
  with p show ?thesis by (metis not_None_eq)
qed

theorem registry_follows_handlers_witness:
  "\<exists>s. reaches pocket_env sample_transport demo_start demo_labels s \<and>
     get_connection (srv_manager (sys_server s)) (lit ''c2'') = None \<and>
     dict_get (sys_handlers s) (lit ''c1'') \<noteq> None \<and>
     is_connected (srv_manager (sys_server s)) (lit ''alice'')"
proof -
  obtain g where r: "reaches pocket_env sample_transport demo_start demo_labels
      (solo_at (alice_online_as [ready_message, auth_ready_message, ack_message] 4 4) (lit ''alice'') bob_box
        Receiving g)" (is "reaches _ _ _ _ ?s") using demo_run by blast
  have "LWrite cid SendFailed \<notin> set demo_labels \<and> LAcceptFailed cid \<notin> set demo_labels" for cid by (simp add: demo_labels_def)
  from registry_follows_handlers [OF demo_start_ok r [unfolded demo_start_def] this]
  have reg: "get_connection (srv_manager (sys_server ?s)) x = None \<longleftrightarrow> dict_get (sys_handlers ?s) x = None"
    and con: "is_connected (srv_manager (sys_server ?s)) k \<longleftrightarrow>
       (\<exists>cid h d. dict_get (sys_handlers ?s) cid = Some h \<and>
          get_connection (srv_manager (sys_server ?s)) cid = Some d \<and> routing_identity d = k)" for x k by blast+
  have "dict_get (sys_handlers ?s) (lit ''c1'') = Some \<lparr>h_phase = Receiving, h_writer = WriterRunning\<rparr>"
    "dict_get (sys_handlers ?s) (lit ''c2'') = None" by (simp_all add: solo_at_def)
  moreover have "get_connection (srv_manager (sys_server ?s)) (lit ''c1'') =
      Some (alice_online_as [ready_message, auth_ready_message, ack_message] 4 4)"
    by (simp add: solo_at_def solo_get)
  ultimately show ?thesis using r reg con online_sel(8) by blast
qed

text \<open>
  C29: the server can always be emptied: from every state reached without a failed writer and
  without a failed \<open>accept\<close> some continuation, with every client merely going away, leads to a state without handlers
  and without registered connections.
\<close>

theorem server_drains:
  assumes "limits_ok l" and "db_ok db" and r: "reaches A E (initial c db l) ls s"
    and no_failure: "\<And>cid. LWrite cid SendFailed \<notin> set ls \<and> LAcceptFailed cid \<notin> set ls"
  shows "\<exists>ls' s'. reaches A E s ls' s' \<and> sys_handlers s' = [] \<and>
    connection_count (srv_manager (sys_server s')) = 0 \<and>
    (\<forall>k. \<not> is_connected (srv_manager (sys_server s')) k)"
proof -
  note init = initial_ok [OF assms(1,2)]
  obtain ls' s' where d: "reaches A E s ls' s'" "clean ls'" "sys_handlers s' = []" using drains by blast
  note r' = reaches_trans [OF d(1) r]
  have "LWrite cid SendFailed \<notin> set (ls' @ ls) \<and> LAcceptFailed cid \<notin> set (ls' @ ls)" for cid
    using d(2) no_failure by (simp add: clean_def)
  from reaches_paired [OF r' init initial_paired this] d(3)
  have none: "get_connection (srv_manager (sys_server s')) x = None" for x by (simp add: paired_def)
  then have "connections (srv_manager (sys_server s')) = []"
    using none [of "fst (hd (connections (srv_manager (sys_server s'))))"]
    by (cases "connections (srv_manager (sys_server s'))") (auto simp: get_connection_def split: if_splits)
  moreover have "registry_ok (srv_manager (sys_server s'))"
    using sys_okD(1) [OF reaches_ok [OF r' init]] by (simp add: manager_ok_def)
  ultimately show ?thesis
    using d is_connected_iff [of "srv_manager (sys_server s')"]
    by (intro exI [of _ ls'] exI [of _ s']) (simp add: connection_count_def holds_identity_def)
qed

theorem server_drains_witness:
  "\<exists>s ls' s'. reaches pocket_env sample_transport demo_start demo_labels s \<and>
     reaches pocket_env sample_transport s ls' s' \<and> connection_count (srv_manager (sys_server s')) = 0"
proof -
  obtain s where r: "reaches pocket_env sample_transport demo_start demo_labels s" using demo_run by blast
  have "LWrite cid SendFailed \<notin> set demo_labels \<and> LAcceptFailed cid \<notin> set demo_labels" for cid by (simp add: demo_labels_def)
  from server_drains [OF demo_start_ok r [unfolded demo_start_def] this] r show ?thesis by blast
qed

text \<open>
  C37: a writer task that ends with an unexpected exception strands its connection: once its
  handler is through, the registry keeps the closing connection in every later state, the
  account counts as connected for good, and while it has no other connection every message
  for it is dropped instead of queued.
\<close>

theorem failed_writer_strands:
  assumes "limits_ok l" and "db_ok db" and r: "reaches A E (initial c db l) ls s"
    and h: "dict_get (sys_handlers s) cid = Some h" "h_writer h = WriterFailed" "h_phase h = Closing code"
    and close: "sys_step A E (LClose cid) s = Some s1" and later: "reaches A E s1 ls' s2"
    and only: "\<And>x. holds_identity (srv_manager (sys_server s2)) k x \<Longrightarrow> x = cid"
    and k: "owner_of (srv_manager (sys_server s)) cid = Some k"
  shows "is_connected (srv_manager (sys_server s2)) k \<and> dict_get (sys_handlers s2) cid = None \<and>
    snd (route_message E (sys_server s2) c0 e k) = RECIPIENT_UNAVAILABLE"
proof -
  note init = initial_ok [OF assms(1,2)]
  note ok = sys_okD [OF reaches_ok [OF r init]]
  obtain d where d: "get_connection (srv_manager (sys_server s)) cid = Some d" "closing d"
    using handlers_okD [OF ok(3) h(1)] h(3) by metis
  have s1: "s1 = s\<lparr>sys_handlers := dict_del (sys_handlers s) cid\<rparr>"
    using close h by (simp add: close_end_def)
  have d1: "get_connection (srv_manager (sys_server s1)) cid = Some d" "dict_get (sys_handlers s1) cid = None"
    using d by (simp_all add: s1)
  note r1 = reaches.step [OF r close]
  from reaches_stranded [OF later r1 init d1] obtain d2 where
    d2: "get_connection (srv_manager (sys_server s2)) cid = Some d2" "same_standing d d2"
      "dict_get (sys_handlers s2) cid = None" by blast
  let ?m = "srv_manager (sys_server s2)"
  have ok2: "registry_ok ?m"
    using sys_okD(1) [OF reaches_ok [OF reaches_trans [OF later r1] init]] by (simp add: manager_ok_def)
  have "routing_identity d = k" using k d(1) by (simp add: owner_of_def get_connection_def)
  then have id2: "routing_identity d2 = k" using same_standing_identity [OF d2(2)] by simp
  then have con: "is_connected ?m k"
    using is_connected_iff [OF ok2] d2(1) by (auto simp: holds_identity_def get_connection_def)
  obtain m' b where del: "deliver_to_client ?m k (receipt_for (te_pydantic E) c0 e k) = (m', b)" by fastforce
  have "closing d2" using d2(2) d(2) by (simp add: same_standing_def)
  have "\<not> b"
  proof
    assume b
    then obtain y d3 where y: "dict_get (connections ?m) y = Some d3" "routing_identity d3 = k"
      and acc: "snd (enqueue_outbound d3 (receipt_for (te_pydantic E) c0 e k))"
      using deliver_to_client_get(2) [OF ok2 del] by blast
    from only [of y] y have "y = cid" by (simp add: holds_identity_def)
    then have "d3 = d2" using y(1) d2(1) by (simp add: get_connection_def)
    with acc \<open>closing d2\<close> show False by (simp add: enqueue_outbound_def)
  qed
  then have "snd (route_message E (sys_server s2) c0 e k) = RECIPIENT_UNAVAILABLE"
    using con del by (simp add: route_message_def Let_def)
  with con d2(3) show ?thesis by blast
qed

theorem failed_writer_strands_witness:
  "\<exists>s s1. reaches pocket_env sample_transport demo_start
       (LDisconnect (lit ''c1'') # LWrite (lit ''c1'') SendFailed # demo_labels) s \<and>
     sys_step pocket_env sample_transport (LClose (lit ''c1'')) s = Some s1 \<and>
     is_connected (srv_manager (sys_server s1)) (lit ''alice'') \<and> sys_handlers s1 = [] \<and>
     snd (route_message sample_transport (sys_server s1) bob_context (sample_envelope ''bob'' ''alice'') (lit ''alice'')) =
       RECIPIENT_UNAVAILABLE"
proof -
  obtain s where s: "reaches pocket_env sample_transport demo_start
       (LDisconnect (lit ''c1'') # LWrite (lit ''c1'') SendFailed # demo_labels) s"
    "sys_handlers s = [(lit ''c1'', \<lparr>h_phase = Closing CLOSE_NORMAL, h_writer = WriterFailed\<rparr>)]"
    "owner_of (srv_manager (sys_server s)) (lit ''c1'') = Some (lit ''alice'')"
    "\<And>x. holds_identity (srv_manager (sys_server s)) (lit ''alice'') x \<Longrightarrow> x = lit ''c1''"
    using demo_strands by blast
  let ?s1 = "s\<lparr>sys_handlers := []\<rparr>"
  have st: "sys_step pocket_env sample_transport (LClose (lit ''c1'')) s = Some ?s1"
    using s(2) by (simp add: close_end_def)
  have h: "dict_get (sys_handlers s) (lit ''c1'') = Some \<lparr>h_phase = Closing CLOSE_NORMAL, h_writer = WriterFailed\<rparr>"
    using s(2) by simp
  have only: "x = lit ''c1''" if "holds_identity (srv_manager (sys_server ?s1)) (lit ''alice'') x" for x
    using s(4) that by simp
  from failed_writer_strands [OF demo_start_ok s(1) [unfolded demo_start_def] h _ _ st reaches.start only s(3),
      of CLOSE_NORMAL bob_context "sample_envelope ''bob'' ''alice''"] s(1) st
  show ?thesis by (intro exI [of _ s] exI [of _ ?s1]) simp
qed

end
